(* ===== verification/Sweep_Prelude.thy ===== *)
theory Sweep_Prelude
  imports Main "HOL-Library.Word"
begin

text \<open>
  Prelude of the development: the hint collections, the machine integers and the pieces of
  Rust's standard library that several components use (saturating arithmetic on \<open>u64\<close>,
  byte-indexed string slices, decimal printing, \<open>[String]::join\<close>, the short-circuiting
  \<open>collect\<close> into a \<open>Result\<close>), each with the lemmas the component proofs rest on.
  Strings are the UTF-8 bytes of the Rust string, one \<open>char\<close> per byte.
\<close>

named_theorems sat_simps \<open>saturating u64 arithmetic read as natural numbers\<close>
named_theorems scan_simps \<open>equations of the deposit scan\<close>
named_theorems call_simps \<open>when a sequence of fallible calls succeeds\<close>
named_theorems step_intros \<open>introduction rules of the step relations\<close>

section \<open>Machine integers\<close>

type_synonym u64 = "64 word"
type_synonym u128 = "128 word"
type_synonym u256 = "256 word"
type_synonym byte = "8 word"

definition u64_max :: u64 where
  "u64_max = - 1"

definition sat_sub :: "u64 \<Rightarrow> u64 \<Rightarrow> u64" where
  "sat_sub a b = (if b \<le> a then a - b else 0)"

definition sat_add :: "u64 \<Rightarrow> u64 \<Rightarrow> u64" where
  "sat_add a b = (if unat a + unat b < 2 ^ 64 then a + b else u64_max)"

lemma unat_u64_max [sat_simps]: "unat u64_max = 2 ^ 64 - 1"
  by (simp add: u64_max_def unsigned_minus_1_eq_mask mask_eq_exp_minus_1)

lemma unat_u64_bound: "unat (a :: u64) < 2 ^ 64"
  using unsigned_less [of a] by simp

lemma le_u64_max [simp]: "(a :: u64) \<le> u64_max"
  by (simp add: u64_max_def)

lemma u64_max_top [simp]: "u64_max \<le> a \<longleftrightarrow> a = u64_max"
  using le_u64_max [of a] by (metis order_antisym order_refl)

lemma unat_sat_sub [sat_simps]: "unat (sat_sub a b) = unat a - unat b"
  by (simp add: sat_sub_def word_le_nat_alt unat_sub)

lemma unat_sat_add [sat_simps]: "unat (sat_add a b) = min (unat a + unat b) (2 ^ 64 - 1)"
proof (cases "unat a + unat b < 2 ^ 64")
  case True
  then have "unat (a + b) = unat a + unat b"
    by (subst unat_add_lem [symmetric]) simp
  with True show ?thesis by (simp add: sat_add_def)
next
  case False
  then show ?thesis by (simp add: sat_add_def unat_u64_max)
qed

lemma unat_min_u64 [sat_simps]: "unat (min a b) = min (unat a) (unat (b :: u64))"
  by (simp add: min_def word_le_nat_alt)

lemma sat_sub_self [simp]: "sat_sub a a = 0"
  by (simp add: sat_sub_def)

lemma sat_sub_le: "sat_sub a b \<le> a"
  by (simp add: word_le_nat_alt sat_simps)

text \<open>Moving a distance across \<open>saturating_sub\<close>: the step behind the confirmation floor.\<close>

lemma le_sat_sub_iff:
  assumes "c \<le> (a :: u64)"
  shows "b \<le> sat_sub a c \<longleftrightarrow> b \<le> a \<and> c \<le> sat_sub a b"
  using assms by (auto simp: word_le_nat_alt sat_simps)

lemma less_sat_sub_confirmed: "b < sat_sub a c \<Longrightarrow> c \<le> sat_sub a b"
  by (simp add: word_le_nat_alt word_less_nat_alt sat_simps)

section \<open>Strings\<close>

text \<open>
  \<open>str::is_char_boundary\<close>: an index is a boundary when it is an end of the string or
  the byte there is not a UTF-8 continuation byte. Slicing off a boundary panics.
\<close>

definition is_char_boundary :: "string \<Rightarrow> nat \<Rightarrow> bool" where
  "is_char_boundary s n \<longleftrightarrow>
     n = 0 \<or> n = length s \<or>
     (n < length s \<and> \<not> (0x80 \<le> (of_char (s ! n) :: nat) \<and> (of_char (s ! n) :: nat) < 0xC0))"

definition str_slice_to :: "string \<Rightarrow> nat \<Rightarrow> string option" where
  "str_slice_to s n = (if is_char_boundary s n then Some (take n s) else None)"

definition is_ascii :: "string \<Rightarrow> bool" where
  "is_ascii s \<longleftrightarrow> list_all (\<lambda>c. (of_char c :: nat) < 0x80) s"

lemma is_ascii_boundary: "is_ascii s \<Longrightarrow> n \<le> length s \<Longrightarrow> is_char_boundary s n"
  using le_neq_implies_less [of n "length s"]
  by (fastforce simp: is_ascii_def is_char_boundary_def list_all_length)

lemma take_min_length [simp]: "take (min n (length xs)) xs = take n xs"
  by (simp add: min_def)

fun starts_with :: "string \<Rightarrow> string \<Rightarrow> bool" where
  "starts_with s [] = True"
| "starts_with [] (p # ps) = False"
| "starts_with (c # s) (p # ps) = (c = p \<and> starts_with s ps)"

lemma starts_with_iff: "starts_with s p \<longleftrightarrow> (\<exists>r. s = p @ r)"
  by (induction s p rule: starts_with.induct) auto

fun is_ascii_hexdigit :: "char \<Rightarrow> bool" where
  "is_ascii_hexdigit c = (c \<in> set ''0123456789abcdefABCDEF'')"

fun join :: "string \<Rightarrow> string list \<Rightarrow> string" where
  "join sep [] = []"
| "join sep [x] = x"
| "join sep (x # y # ys) = x @ sep @ join sep (y # ys)"

definition digit_char :: "nat \<Rightarrow> char" where
  "digit_char n = ''0123456789'' ! (n mod 10)"

fun show_nat :: "nat \<Rightarrow> string" where
  "show_nat n = (if n < 10 then [digit_char n] else show_nat (n div 10) @ [digit_char (n mod 10)])"

declare show_nat.simps [simp del]

definition show_u64 :: "u64 \<Rightarrow> string" where
  "show_u64 w = show_nat (unat w)"

text \<open>The em dash of the source's messages, as its three UTF-8 bytes.\<close>

definition em_dash :: string where
  "em_dash = [CHR 0xE2, CHR 0x80, CHR 0x94]"

section \<open>Results\<close>

text \<open>
  \<open>iter.map(f).collect::<Result<Vec<_>, _>>()\<close> stops at the first error, so later
  elements are not evaluated.
\<close>

fun collect_res :: "('a \<Rightarrow> 'e + 'b) \<Rightarrow> 'a list \<Rightarrow> 'e + 'b list" where
  "collect_res f [] = Inr []"
| "collect_res f (x # xs) =
     (case f x of
        Inl e \<Rightarrow> Inl e
      | Inr y \<Rightarrow> (case collect_res f xs of Inl e \<Rightarrow> Inl e | Inr ys \<Rightarrow> Inr (y # ys)))"

lemma collect_res_Inr:
  "collect_res f xs = Inr ys \<longleftrightarrow> list_all2 (\<lambda>x y. f x = Inr y) xs ys"
proof (induction xs arbitrary: ys)
  case Nil
  then show ?case by (auto split: sum.splits)
next
  case (Cons x xs)
  have "collect_res f (x # xs) = Inr ys \<longleftrightarrow>
          (\<exists>y zs. f x = Inr y \<and> collect_res f xs = Inr zs \<and> ys = y # zs)"
    by (auto split: sum.splits)
  then show ?case by (simp add: Cons.IH list_all2_Cons1)
    blast
qed

lemma collect_res_all_Inr:
  "(\<And>x. x \<in> set xs \<Longrightarrow> f x = Inr (g x)) \<Longrightarrow> collect_res f xs = Inr (map g xs)"
  by (induction xs) auto

lemma collect_res_Inl:
  "collect_res f xs = Inl e \<Longrightarrow> \<exists>x\<in>set xs. f x = Inl e"
  by (induction xs) (auto split: sum.splits)

end
