(* ===== verification/Sweep_Types.thy ===== *)
theory Sweep_Types
  imports Sweep_Prelude Complex_Main "HOL-Library.Char_ord"
begin

text \<open>
  The shared data model, \<open>src/src/types.rs\<close>: errors, chains, the audit record
  \<open>BankPayment\<close>, the persisted state and the values that travel between discovery, worker
  and exchange. Field names carry a short prefix for the struct (\<open>bp_\<close> for
  \<open>BankPayment\<close>, \<open>ed_\<close> for \<open>EligibleDeposit\<close>, ...), since HOL record
  fields share one name space.

  \<open>rust_decimal::Decimal\<close> is not part of the repository: its type is the variable
  \<open>'d\<close> and the operations the code calls are the record \<open>decimal_lib\<close>, an
  argument of the definitions that use them. \<open>DateTime<Utc>\<close> is an instant, read as
  nanoseconds since the epoch; its calendar formatting is an argument.
\<close>

section \<open>Library parameters\<close>

type_synonym datetime = int

definition duration_hours :: "int \<Rightarrow> int" where
  "duration_hours n = n * 3600 * 10 ^ 9"

definition duration_days :: "int \<Rightarrow> int" where
  "duration_days n = n * 86400 * 10 ^ 9"

text \<open>
  \<open>dec_literal m s\<close> is the literal with mantissa \<open>m\<close> and \<open>s\<close> decimals
  (\<open>dec!(1.0)\<close> is \<open>dec_literal 10 1\<close>). The conversions and the division that can
  panic return \<open>None\<close> there.
\<close>

record 'd decimal_lib =
  dec_lt :: "'d \<Rightarrow> 'd \<Rightarrow> bool"
  dec_literal :: "int \<Rightarrow> nat \<Rightarrow> 'd"
  dec_from_u128 :: "u128 \<Rightarrow> 'd option"
  dec_from_u64 :: "u64 \<Rightarrow> 'd"
  dec_div :: "'d \<Rightarrow> 'd \<Rightarrow> 'd option"
  dec_to_string :: "'d \<Rightarrow> string"
  dec_from_str :: "string \<Rightarrow> 'd option"

text \<open>
  The documented behaviour of \<open>Decimal\<close> that the statements about amounts rest on, with
  \<open>val\<close> the number a decimal denotes: comparison and literals are exact, an integer
  converts exactly when its mantissa fits 96 bits and panics otherwise, and division by a power
  of ten up to \<open>10 ^ 28\<close> is exact on such an integer.
\<close>

definition decimal_laws :: "'d decimal_lib \<Rightarrow> ('d \<Rightarrow> rat) \<Rightarrow> bool" where
  "decimal_laws D val \<longleftrightarrow>
     (\<forall>a b. dec_lt D a b = (val a < val b)) \<and>
     (\<forall>m s. val (dec_literal D m s) = of_int m / 10 ^ s) \<and>
     (\<forall>w. unat w < 2 ^ 96 \<longrightarrow> (\<exists>a. dec_from_u128 D w = Some a \<and> val a = of_nat (unat w))) \<and>
     (\<forall>w. 2 ^ 96 \<le> unat w \<longrightarrow> dec_from_u128 D w = None) \<and>
     (\<forall>w. val (dec_from_u64 D w) = of_nat (unat w)) \<and>
     (\<forall>a b n k. val a = of_nat n \<and> n < 2 ^ 96 \<and> val b = 10 ^ k \<and> k \<le> 28 \<longrightarrow>
        (\<exists>q. dec_div D a b = Some q \<and> val q = val a / val b))"

text \<open>The laws one by one.\<close>

lemma decimal_laws_simps:
  assumes "decimal_laws D val"
  shows "dec_lt D a b = (val a < val b)" and "val (dec_literal D m s) = of_int m / 10 ^ s"
    and "2 ^ 96 \<le> unat w \<Longrightarrow> dec_from_u128 D w = None" and "val (dec_from_u64 D n) = of_nat (unat n)"
  using assms by (simp_all add: decimal_laws_def)

lemma decimal_laws_from_u128:
  assumes "decimal_laws D val" and "unat w < 2 ^ 96"
  obtains a where "dec_from_u128 D w = Some a" and "val a = of_nat (unat w)"
  using assms by (auto simp: decimal_laws_def)

lemma decimal_laws_div:
  assumes "decimal_laws D val" and "val a = of_nat n" and "n < 2 ^ 96" and "val b = 10 ^ k" and "k \<le> 28"
  obtains q where "dec_div D a b = Some q" and "val q = val a / val b"
proof -
  have "\<forall>a b n k. val a = of_nat n \<and> n < 2 ^ 96 \<and> val b = 10 ^ k \<and> k \<le> 28 \<longrightarrow>
      (\<exists>q. dec_div D a b = Some q \<and> val q = val a / val b)"
    using assms(1) unfolding decimal_laws_def by (elim conjE)
  with assms(2-5) that show thesis by blast
qed

section \<open>Errors\<close>

datatype io_error_kind = NotFound | WouldBlock | OtherKind

datatype io_error = IoError (io_kind: io_error_kind) (io_text: string)

datatype app_error =
    Explorer string
  | Coinbase string
  | Notification string
  | Config string
  | Http string
  | Json string
  | Io io_error

fun app_error_to_string :: "app_error \<Rightarrow> string" where
  "app_error_to_string (Explorer m) = ''Block explorer error: '' @ m"
| "app_error_to_string (Coinbase m) = ''Coinbase API error: '' @ m"
| "app_error_to_string (Notification m) = ''Notification delivery failed: '' @ m"
| "app_error_to_string (Config m) = ''Configuration error: '' @ m"
| "app_error_to_string (Http m) = m"
| "app_error_to_string (Json m) = m"
| "app_error_to_string (Io e) = io_text e"

text \<open>A call that returns its \<open>Result\<close> or panics.\<close>

datatype fault = AppErr app_error | Panic

section \<open>Chains\<close>

datatype chain = Ethereum | Base | Arbitrum | Polygon | Optimism | Monad

definition chain_iter :: "chain list" where
  "chain_iter = [Ethereum, Base, Arbitrum, Polygon, Optimism, Monad]"

fun chain_ord :: "chain \<Rightarrow> nat" where
  "chain_ord Ethereum = 0"
| "chain_ord Base = 1"
| "chain_ord Arbitrum = 2"
| "chain_ord Polygon = 3"
| "chain_ord Optimism = 4"
| "chain_ord Monad = 5"

lemma chain_ord_inject [simp]: "chain_ord a = chain_ord b \<longleftrightarrow> a = b"
  by (cases a; cases b) simp_all

instantiation chain :: linorder
begin

definition less_eq_chain :: "chain \<Rightarrow> chain \<Rightarrow> bool" where
  "less_eq_chain a b \<longleftrightarrow> chain_ord a \<le> chain_ord b"

definition less_chain :: "chain \<Rightarrow> chain \<Rightarrow> bool" where
  "less_chain a b \<longleftrightarrow> chain_ord a < chain_ord b"

instance
  by standard (auto simp: less_eq_chain_def less_chain_def)

end

lemma set_chain_iter [simp]: "set chain_iter = UNIV"
proof -
  have "c \<in> set chain_iter" for c
    by (cases c) (simp_all add: chain_iter_def)
  then show ?thesis by blast
qed

lemma distinct_chain_iter [simp]: "distinct chain_iter"
  by (simp add: chain_iter_def)

lemma sorted_chain_iter: "sorted chain_iter"
  by (simp add: chain_iter_def less_eq_chain_def)

fun chain_to_string :: "chain \<Rightarrow> string" where
  "chain_to_string Ethereum = ''ethereum''"
| "chain_to_string Base = ''base''"
| "chain_to_string Arbitrum = ''arbitrum''"
| "chain_to_string Polygon = ''polygon''"
| "chain_to_string Optimism = ''optimism''"
| "chain_to_string Monad = ''monad''"

fun usdc_contract :: "chain \<Rightarrow> string" where
  "usdc_contract Ethereum = ''0xA0b86991c6218b36c1d19D4a2e9Eb0cE3606eB48''"
| "usdc_contract Base = ''0x833589fCD6eDb6E08f4c7C32D4f71b54bdA02913''"
| "usdc_contract Arbitrum = ''0xaf88d065e77c8cC2239327C5EDb3A432268e5831''"
| "usdc_contract Polygon = ''0x3c499c542cEF5E3811e1192ce70d8cC03d5c3359''"
| "usdc_contract Optimism = ''0x0b2C639c533813f4Aa9D7837CAf62653d097Ff85''"
| "usdc_contract Monad = ''0x754704Bc059F8C67012fEd69BC8A327a5aafb603''"

fun eth_get_logs_chunk_size :: "chain \<Rightarrow> u64" where
  "eth_get_logs_chunk_size Monad = 1000"
| "eth_get_logs_chunk_size _ = 10000"

lemma chunk_size_bounds: "1 \<le> unat (eth_get_logs_chunk_size c)" "unat (eth_get_logs_chunk_size c) \<le> 10000"
  by (cases c; simp)+

section \<open>Deposit addresses\<close>

record deposit_address_config =
  dac_address :: string
  dac_payment_method_id :: string

text \<open>
  The slice \<open>value[2..]\<close> is reached only behind \<open>starts_with("0x")\<close>, so index 2 is
  a character boundary; a character is an ASCII hex digit exactly when all its bytes are.
\<close>

definition validate_eth_address :: "string \<Rightarrow> string + unit" where
  "validate_eth_address value =
     (if length value = 42 \<and> starts_with value ''0x'' \<and> list_all is_ascii_hexdigit (drop 2 value)
      then Inr ()
      else Inl ''must be a 42-character hex address starting with 0x'')"

section \<open>Payments\<close>

datatype 'd bank_payment_outcome =
    Initiated (out_sell_order_id: string) (out_usd_proceeds: 'd)
      (out_withdrawal_transfer_id: string) (out_initiated_at: datetime)
  | Failed (out_error: string) (out_failed_at: datetime)

record 'd bank_payment =
  bp_id :: string
  bp_deposit_address :: string
  bp_chain :: chain
  bp_deposit_tx_hash :: string
  bp_usdc_amount :: 'd
  bp_payment_method_id :: string
  bp_outcome :: "'d bank_payment_outcome"
  bp_deposit_timestamp :: datetime
  bp_processed_at :: datetime

text \<open>
  \<open>make_id\<close> slices the first \<open>min 8 len\<close> bytes of the hash; \<open>None\<close> is the panic
  of a slice that cuts a character. \<open>ymd\<close> is chrono's \<open>%Y%m%d\<close> formatting.
\<close>

definition make_id :: "(datetime \<Rightarrow> string) \<Rightarrow> datetime \<Rightarrow> string \<Rightarrow> string option" where
  "make_id ymd processed_at tx_hash =
     (case str_slice_to tx_hash (min 8 (length tx_hash)) of
        None \<Rightarrow> None
      | Some prefix \<Rightarrow> Some (ymd processed_at @ ''-'' @ prefix))"

section \<open>Persisted state\<close>

record last_seen_block =
  lsb_block_number :: u64
  lsb_updated_at :: datetime

record 'd persisted_state =
  st_bank_payments :: "string \<rightharpoonup> 'd bank_payment"
  st_processed_tx_hashes :: "string set"
  st_last_seen_block :: "chain \<rightharpoonup> last_seen_block"

definition default_state :: "'d persisted_state" where
  "default_state = \<lparr>st_bank_payments = Map.empty, st_processed_tx_hashes = {},
                    st_last_seen_block = Map.empty\<rparr>"

section \<open>Pipeline, exchange and explorer values\<close>

record 'd eligible_deposit =
  ed_deposit_address :: string
  ed_chain :: chain
  ed_tx_hash :: string
  ed_usdc_amount :: 'd
  ed_payment_method_id :: string
  ed_deposit_timestamp :: datetime
  ed_processed_at :: datetime

record 'd liquidation_result =
  lr_payment :: "'d bank_payment"
  lr_tx_hash :: string

record 'd sell_result =
  sr_order_id :: string
  sr_usdc_sold :: 'd
  sr_usd_received :: 'd
  sr_executed_at :: datetime

record 'd withdrawal_result =
  wr_withdrawal_transfer_id :: string
  wr_usd_amount :: 'd
  wr_initiated_at :: datetime

record 'd usdc_receive =
  ur_tx_hash :: string
  ur_amount :: 'd
  ur_block_number :: u64
  ur_fetched_at :: datetime

record 'd fetch_receives_ok =
  fr_receives :: "'d usdc_receive list"
  fr_confirmed_frontier :: u64

section \<open>Facts about chains, addresses and audit ids\<close>

lemma validate_eth_address_Inr:
  "validate_eth_address v = Inr () \<longleftrightarrow>
     length v = 42 \<and> (\<exists>r. v = ''0x'' @ r \<and> list_all is_ascii_hexdigit r)"
  by (auto simp: validate_eth_address_def starts_with_iff)

lemma make_id_ascii:
  "is_ascii h \<Longrightarrow> make_id ymd t h = Some (ymd t @ ''-'' @ take 8 h)"
  by (simp add: make_id_def str_slice_to_def is_ascii_boundary)

lemma make_id_Some:
  "make_id ymd t h = Some i \<Longrightarrow> i = ymd t @ ''-'' @ take 8 h"
  by (auto simp: make_id_def str_slice_to_def split: option.splits if_splits)

section \<open>Properties of the data model\<close>

text \<open>
  Every chain's built-in USDC contract is a well-formed address, no two chains share one, and
  the chains iterated over are all of them, each once, in the order of the enumeration.
\<close>

theorem usdc_contracts_well_formed:
  "validate_eth_address (usdc_contract c) = Inr () \<and> inj usdc_contract \<and>
   set chain_iter = UNIV \<and> distinct chain_iter \<and> sorted chain_iter"
proof -
  have "validate_eth_address (usdc_contract c) = Inr ()"
    by (cases c) (simp_all add: validate_eth_address_def)
  moreover have "usdc_contract a = usdc_contract b \<Longrightarrow> a = b" for a b
    by (cases a; cases b) simp_all
  ultimately show ?thesis by (simp add: inj_def sorted_chain_iter)
qed

text \<open>
  For ASCII hashes the audit id always exists; two deposits get the same audit id exactly
  when they were processed on the same date and their hashes agree on the first eight characters
  (for a hex hash: the \<open>0x\<close> and 24 bits).
\<close>

theorem audit_ids_equal_iff:
  assumes "is_ascii h" and "is_ascii h'" and "length (ymd t) = length (ymd t')"
  shows "make_id ymd t h \<noteq> None \<and>
    (make_id ymd t h = make_id ymd t' h' \<longleftrightarrow> ymd t = ymd t' \<and> take 8 h = take 8 h')"
  using assms by (simp add: make_id_ascii)

theorem audit_ids_equal_iff_witness:
  "make_id (\<lambda>_. ''20260328'') 0 ''0xabc12345'' = make_id (\<lambda>_. ''20260328'') 5 ''0xabc123ff''"
  using audit_ids_equal_iff [of "''0xabc12345''" "''0xabc123ff''" "\<lambda>_. ''20260328''" 0 5]
  by (simp add: is_ascii_def)

end
