(* ===== verification/Sweep_Config.thy ===== *)
theory Sweep_Config
  imports Sweep_Types
begin

text \<open>
  Configuration loading, \<open>src/src/config.rs\<close>. The TOML parser is a parameter that yields
  the table of present keys (\<open>raw_config\<close>); what \<open>#[serde(default)]\<close> and the
  required fields do with that table, the garde validation rules and the chain look-ups are the
  source's and are written out.
\<close>

definition DEFAULT_CONFIRMATION_BLOCKS :: u64 where
  "DEFAULT_CONFIRMATION_BLOCKS = 14"

record 'd crypto_sweep_config =
  cfg_max_auto_amount :: 'd
  cfg_default_payment_method_id :: string
  cfg_deposit_addresses :: "deposit_address_config list"
  cfg_confirmation_blocks :: "chain \<rightharpoonup> u64"
  cfg_start_blocks :: "chain \<rightharpoonup> u64"
  cfg_coinbase_api_key :: string
  cfg_coinbase_api_secret :: string
  cfg_telegram_bot_token :: string
  cfg_telegram_chat_id :: string
  cfg_coinbase_usdc_account_id :: "string option"
  cfg_coinbase_usd_account_id :: "string option"
  cfg_sell_settle_delay_secs :: u64
  cfg_state_file :: string

text \<open>The keys of the TOML table, \<open>None\<close> for an absent key.\<close>

record 'd raw_config =
  raw_max_auto_amount :: "'d option"
  raw_default_payment_method_id :: "string option"
  raw_deposit_addresses :: "deposit_address_config list option"
  raw_confirmation_blocks :: "(chain \<rightharpoonup> u64) option"
  raw_start_blocks :: "(chain \<rightharpoonup> u64) option"
  raw_coinbase_api_key :: "string option"
  raw_coinbase_api_secret :: "string option"
  raw_telegram_bot_token :: "string option"
  raw_telegram_chat_id :: "string option"
  raw_coinbase_usdc_account_id :: "string option"
  raw_coinbase_usd_account_id :: "string option"
  raw_sell_settle_delay_secs :: "u64 option"
  raw_state_file :: "string option"

text \<open>
  The library and the process environment of \<open>load\<close>: the file system, the TOML parser,
  the wording of serde's and garde's messages, \<open>HOME\<close>, and \<open>PathBuf::join\<close>.
\<close>

datatype violation = TooFewAddresses | BadAddress nat string

record 'd config_env =
  ce_read_to_string :: "string \<Rightarrow> io_error + string"
  ce_toml_from_str :: "string \<Rightarrow> string + 'd raw_config"
  ce_missing_field :: "string \<Rightarrow> string"
  ce_report :: "violation list \<Rightarrow> string"
  ce_debug_path :: "string \<Rightarrow> string"
  ce_home :: "string option"
  ce_join :: "string \<Rightarrow> string \<Rightarrow> string"

definition default_sell_settle_delay_secs :: u64 where
  "default_sell_settle_delay_secs = 30"

text \<open>\<open>None\<close> is the panic of \<open>expect\<close> when \<open>HOME\<close> is not set.\<close>

definition default_state_file :: "'d config_env \<Rightarrow> string option" where
  "default_state_file env =
     map_option (\<lambda>home. ce_join env (ce_join env home ''.cryptosweep'') ''state.json'') (ce_home env)"

definition default_config_path :: "'d config_env \<Rightarrow> string option" where
  "default_config_path env =
     map_option (\<lambda>home. ce_join env (ce_join env home ''.cryptosweep'') ''config.toml'') (ce_home env)"

fun required :: "'d config_env \<Rightarrow> string \<Rightarrow> 'a option \<Rightarrow> string + 'a" where
  "required env name (Some x) = Inr x"
| "required env name None = Inl (ce_missing_field env name)"

text \<open>
  The derived \<open>Deserialize\<close>: fields in declaration order, the first missing required one
  is the error, absent optional ones take their default. \<open>Inl None\<close> is a panic.
\<close>

definition config_of_raw :: "'d config_env \<Rightarrow> 'd raw_config \<Rightarrow> string option + 'd crypto_sweep_config" where
  "config_of_raw env raw =
     (case required env ''max_auto_amount'' (raw_max_auto_amount raw) of Inl e \<Rightarrow> Inl (Some e) | Inr amt \<Rightarrow>
      case required env ''default_payment_method_id'' (raw_default_payment_method_id raw) of
        Inl e \<Rightarrow> Inl (Some e) | Inr pm \<Rightarrow>
      case required env ''coinbase_api_key'' (raw_coinbase_api_key raw) of Inl e \<Rightarrow> Inl (Some e) | Inr key \<Rightarrow>
      case required env ''coinbase_api_secret'' (raw_coinbase_api_secret raw) of
        Inl e \<Rightarrow> Inl (Some e) | Inr secret \<Rightarrow>
      case required env ''telegram_bot_token'' (raw_telegram_bot_token raw) of
        Inl e \<Rightarrow> Inl (Some e) | Inr bot_token \<Rightarrow>
      case required env ''telegram_chat_id'' (raw_telegram_chat_id raw) of
        Inl e \<Rightarrow> Inl (Some e) | Inr chat \<Rightarrow>
      case (case raw_state_file raw of Some p \<Rightarrow> Some p | None \<Rightarrow> default_state_file env) of
        None \<Rightarrow> Inl None | Some state_file \<Rightarrow>
      Inr \<lparr>cfg_max_auto_amount = amt,
           cfg_default_payment_method_id = pm,
           cfg_deposit_addresses = (case raw_deposit_addresses raw of None \<Rightarrow> [] | Some as \<Rightarrow> as),
           cfg_confirmation_blocks = (case raw_confirmation_blocks raw of None \<Rightarrow> Map.empty | Some m \<Rightarrow> m),
           cfg_start_blocks = (case raw_start_blocks raw of None \<Rightarrow> Map.empty | Some m \<Rightarrow> m),
           cfg_coinbase_api_key = key,
           cfg_coinbase_api_secret = secret,
           cfg_telegram_bot_token = bot_token,
           cfg_telegram_chat_id = chat,
           cfg_coinbase_usdc_account_id = raw_coinbase_usdc_account_id raw,
           cfg_coinbase_usd_account_id = raw_coinbase_usd_account_id raw,
           cfg_sell_settle_delay_secs =
             (case raw_sell_settle_delay_secs raw of None \<Rightarrow> default_sell_settle_delay_secs | Some n \<Rightarrow> n),
           cfg_state_file = state_file\<rparr>)"

text \<open>
  \<open>#[garde(length(min = 1), dive)]\<close> on \<open>deposit_addresses\<close> and
  \<open>#[garde(custom(validate_eth_address))]\<close> on each \<open>address\<close>.
\<close>

fun validate_addresses :: "nat \<Rightarrow> deposit_address_config list \<Rightarrow> violation list" where
  "validate_addresses i [] = []"
| "validate_addresses i (dc # dcs) =
     (case validate_eth_address (dac_address dc) of
        Inl m \<Rightarrow> [BadAddress i m] | Inr _ \<Rightarrow> []) @ validate_addresses (Suc i) dcs"

definition validate_config :: "'d crypto_sweep_config \<Rightarrow> violation list" where
  "validate_config c =
     (if cfg_deposit_addresses c = [] then [TooFewAddresses] else []) @
     validate_addresses 0 (cfg_deposit_addresses c)"

definition load_config :: "'d config_env \<Rightarrow> string \<Rightarrow> fault + 'd crypto_sweep_config" where
  "load_config env path =
     (case ce_read_to_string env path of
        Inl e \<Rightarrow> Inl (AppErr (Config (''Failed to read config file '' @ ce_debug_path env path @ '': '' @ io_text e)))
      | Inr contents \<Rightarrow>
     (case (case ce_toml_from_str env contents of
              Inl e \<Rightarrow> Inl (Some e) | Inr raw \<Rightarrow> config_of_raw env raw) of
        Inl None \<Rightarrow> Inl Panic
      | Inl (Some e) \<Rightarrow>
          Inl (AppErr (Config (''Failed to parse config file '' @ ce_debug_path env path @ '': '' @ e)))
      | Inr config \<Rightarrow>
     (case validate_config config of
        [] \<Rightarrow> Inr config
      | v # vs \<Rightarrow> Inl (AppErr (Config (''Invalid config: '' @ ce_report env (v # vs)))))))"

definition confirmation_blocks_for :: "'d crypto_sweep_config \<Rightarrow> chain \<Rightarrow> u64" where
  "confirmation_blocks_for c ch =
     (case cfg_confirmation_blocks c ch of None \<Rightarrow> DEFAULT_CONFIRMATION_BLOCKS | Some n \<Rightarrow> n)"

definition start_block_for :: "'d crypto_sweep_config \<Rightarrow> chain \<Rightarrow> u64 option" where
  "start_block_for c ch = cfg_start_blocks c ch"

section \<open>What a loaded configuration satisfies\<close>

definition valid_config :: "'d crypto_sweep_config \<Rightarrow> bool" where
  "valid_config c \<longleftrightarrow> cfg_deposit_addresses c \<noteq> [] \<and>
     list_all (\<lambda>dc. validate_eth_address (dac_address dc) = Inr ()) (cfg_deposit_addresses c)"

lemma validate_addresses_Nil_iff:
  "validate_addresses i dcs = [] \<longleftrightarrow>
     list_all (\<lambda>dc. validate_eth_address (dac_address dc) = Inr ()) dcs"
  by (induction i dcs rule: validate_addresses.induct) (auto split: sum.splits)

lemma validate_config_Nil_iff: "validate_config c = [] \<longleftrightarrow> valid_config c"
  by (simp add: validate_config_def valid_config_def validate_addresses_Nil_iff)

lemma load_config_cases:
  "load_config env path = Inl Panic \<or>
   (\<exists>m. load_config env path = Inl (AppErr (Config m))) \<or>
   (\<exists>c. load_config env path = Inr c \<and> valid_config c)"
  by (auto simp: load_config_def validate_config_Nil_iff [symmetric]
      split: sum.splits option.splits list.splits)

section \<open>Properties of loading\<close>

text \<open>
  C40. Loading yields a configuration only with at least one deposit address, each of 42
  characters, \<open>0x\<close> and hex digits; every other outcome is a configuration error, or a panic
  when neither a state file nor \<open>HOME\<close> is set.
\<close>

theorem load_config_outcomes:
  "(case load_config env path of
      Inr c \<Rightarrow> cfg_deposit_addresses c \<noteq> [] \<and>
        list_all (\<lambda>dc. length (dac_address dc) = 42 \<and>
          (\<exists>digits. dac_address dc = ''0x'' @ digits \<and> list_all is_ascii_hexdigit digits))
          (cfg_deposit_addresses c)
    | Inl (AppErr e) \<Rightarrow> (\<exists>m. e = Config m)
    | Inl Panic \<Rightarrow> ce_home env = None)"
proof (cases "load_config env path")
  case (Inr c)
  then have "valid_config c" using load_config_cases [of env path] by auto
  then show ?thesis
    unfolding Inr sum.case valid_config_def validate_eth_address_Inr .
next
  case (Inl f)
  show ?thesis
  proof (cases f)
    case (AppErr e)
    then show ?thesis using load_config_cases [of env path] Inl by auto
  next
    case Panic
    have "ce_home env = None"
      using Inl Panic
      by (auto simp: load_config_def config_of_raw_def default_state_file_def
          split: sum.splits option.splits list.splits)
    then show ?thesis by (simp add: Inl Panic)
  qed
qed

text \<open>
  A table with every required key and no optional one loads with the documented defaults: no
  account ids, a 30 second settling delay, the state file under \<open>HOME\<close>, and a confirmation
  depth of 14 blocks and no start block for every chain.
\<close>

theorem absent_keys_take_defaults:
  assumes "raw_max_auto_amount raw = Some amt" and "raw_default_payment_method_id raw = Some pm"
    and "raw_coinbase_api_key raw = Some key" and "raw_coinbase_api_secret raw = Some secret"
    and "raw_telegram_bot_token raw = Some token" and "raw_telegram_chat_id raw = Some chat"
    and "raw_confirmation_blocks raw = None" and "raw_start_blocks raw = None"
    and "raw_sell_settle_delay_secs raw = None" and "raw_state_file raw = None" and "ce_home env = Some home"
  shows "\<exists>c. config_of_raw env raw = Inr c \<and> confirmation_blocks_for c ch = 14 \<and>
    start_block_for c ch = None \<and> cfg_sell_settle_delay_secs c = 30 \<and>
    cfg_state_file c = ce_join env (ce_join env home ''.cryptosweep'') ''state.json''"
  using assms
  by (simp add: config_of_raw_def default_state_file_def confirmation_blocks_for_def start_block_for_def
      default_sell_settle_delay_secs_def DEFAULT_CONFIRMATION_BLOCKS_def)

definition sample_raw :: "nat raw_config" where
  "sample_raw =
     \<lparr>raw_max_auto_amount = Some 10000, raw_default_payment_method_id = Some ''pm'',
      raw_deposit_addresses = None, raw_confirmation_blocks = None, raw_start_blocks = None,
      raw_coinbase_api_key = Some ''k'', raw_coinbase_api_secret = Some ''s'',
      raw_telegram_bot_token = Some ''t'', raw_telegram_chat_id = Some ''1'',
      raw_coinbase_usdc_account_id = None, raw_coinbase_usd_account_id = None,
      raw_sell_settle_delay_secs = None, raw_state_file = None\<rparr>"

definition sample_env_config :: "nat config_env" where
  "sample_env_config =
     \<lparr>ce_read_to_string = (\<lambda>_. Inr ''toml''), ce_toml_from_str = (\<lambda>_. Inr sample_raw),
      ce_missing_field = (\<lambda>f. ''missing field '' @ f), ce_report = (\<lambda>_. ''report''), ce_debug_path = id,
      ce_home = Some ''/root'', ce_join = (\<lambda>a b. a @ ''/'' @ b)\<rparr>"

theorem absent_keys_take_defaults_witness:
  "\<exists>c. config_of_raw sample_env_config sample_raw = Inr c \<and> confirmation_blocks_for c Monad = 14 \<and>
     cfg_state_file c = ''/root/.cryptosweep/state.json''"
proof -
  obtain c where "config_of_raw sample_env_config sample_raw = Inr c" "confirmation_blocks_for c Monad = 14"
    "cfg_state_file c =
       ce_join sample_env_config (ce_join sample_env_config ''/root'' ''.cryptosweep'') ''state.json''"
    using absent_keys_take_defaults [of sample_raw 10000 "''pm''" "''k''" "''s''" "''t''" "''1''"
        sample_env_config "''/root''" Monad]
    by (auto simp: sample_raw_def sample_env_config_def)
  then show ?thesis by (intro exI [of _ c]) (simp add: sample_env_config_def)
qed

end
