(* ===== verification/Trait_Contracts.thy ===== *)
theory Trait_Contracts
  imports Sweep_Types
begin

text \<open>
  The traits of \<open>src/src/types.rs\<close> as interfaces: what their documentation promises,
  stated as locales. \<open>Live_Explorer\<close> and \<open>Coinbase_Live\<close> discharge the laws for the
  live implementations; the chain check and the worker use the lemmas proved inside.
\<close>

section \<open>Trait objects\<close>

text \<open>
  What a caller sees of a trait call: \<open>None\<close> when it never returns a value (the loop does
  not end, or a panic unwinds the process), else its \<open>Result\<close>.
\<close>

definition call_value :: "(fault + 'a) option \<Rightarrow> (app_error + 'a) option" where
  "call_value r =
     (case r of
        None \<Rightarrow> None
      | Some (Inl Panic) \<Rightarrow> None
      | Some (Inl (AppErr e)) \<Rightarrow> Some (Inl e)
      | Some (Inr x) \<Rightarrow> Some (Inr x))"

lemma call_value_Inr [simp]: "call_value r = Some (Inr x) \<longleftrightarrow> r = Some (Inr x)"
  by (auto simp: call_value_def split: option.splits sum.splits fault.splits)

text \<open>
  \<open>impl BlockExplorer\<close> as the orchestrator holds it for one chain and one run. Each configured
  address is scanned once in a run; the index of the address makes two calls with equal
  arguments two calls.
\<close>

record 'd block_explorer =
  be_get_block_height :: "(app_error + u64) option"
  be_fetch_usdc_receives :: "nat \<Rightarrow> string \<Rightarrow> u64 \<Rightarrow> u64 \<Rightarrow> (app_error + 'd fetch_receives_ok) option"

section \<open>\<open>BlockExplorer\<close>\<close>

text \<open>
  \<open>fetch address since_block to_block\<close>: \<open>None\<close> when the call does not return. \<open>truth\<close>
  is what the chain holds for an address, \<open>honest\<close> that the node answers log queries with it.
\<close>

locale explorer_contract =
  fixes fetch :: "string \<Rightarrow> u64 \<Rightarrow> u64 \<Rightarrow> (fault + 'd fetch_receives_ok) option"
    and truth :: "string \<Rightarrow> 'd usdc_receive set"
    and honest :: bool
  assumes returns: "to_block < u64_max \<Longrightarrow> fetch a since to_block \<noteq> None"
    and frontier_le: "to_block < u64_max \<Longrightarrow> fetch a since to_block = Some (Inr ok) \<Longrightarrow>
          fr_confirmed_frontier ok \<le> to_block"
    and frontier_ge: "to_block < u64_max \<Longrightarrow> since \<le> to_block \<Longrightarrow>
          fetch a since to_block = Some (Inr ok) \<Longrightarrow> since \<le> fr_confirmed_frontier ok"
    and receives_exact: "honest \<Longrightarrow> to_block < u64_max \<Longrightarrow> since \<le> to_block \<Longrightarrow>
          fetch a since to_block = Some (Inr ok) \<Longrightarrow>
          set (fr_receives ok) =
            {r \<in> truth a. since \<le> ur_block_number r \<and> ur_block_number r \<le> fr_confirmed_frontier ok}"
begin

lemma receive_in_window:
  "honest \<Longrightarrow> to_block < u64_max \<Longrightarrow> since \<le> to_block \<Longrightarrow>
   fetch a since to_block = Some (Inr ok) \<Longrightarrow> r \<in> set (fr_receives ok) \<Longrightarrow>
   since \<le> ur_block_number r \<and> ur_block_number r \<le> to_block"
  using receives_exact [of to_block since a ok] frontier_le [of to_block a since ok] by auto

lemma none_missed:
  "honest \<Longrightarrow> to_block < u64_max \<Longrightarrow> since \<le> to_block \<Longrightarrow>
   fetch a since to_block = Some (Inr ok) \<Longrightarrow> r \<in> truth a \<Longrightarrow> since \<le> ur_block_number r \<Longrightarrow>
   ur_block_number r \<le> fr_confirmed_frontier ok \<Longrightarrow> r \<in> set (fr_receives ok)"
  using receives_exact [of to_block since a ok] by simp

end

section \<open>\<open>CoinbaseClient\<close>\<close>

text \<open>
  \<open>withdraw amount payment_method\<close> as a job calls it: a withdrawal that succeeds has a
  transfer id and is for the amount asked.
\<close>

locale exchange_contract =
  fixes withdraw :: "'d \<Rightarrow> string \<Rightarrow> fault + 'd withdrawal_result"
  assumes transfer_id: "withdraw amount pm = Inr w \<Longrightarrow> wr_withdrawal_transfer_id w \<noteq> []"
    and withdrawn_amount: "withdraw amount pm = Inr w \<Longrightarrow> wr_usd_amount w = amount"

end
