(* ===== verification/Sample_World.thy ===== *)
theory Sample_World
  imports Sweep_Config Trait_Contracts
begin

text \<open>
  Concrete instances of the parameters, on which the theorems with hypotheses are applied: a
  \<open>Decimal\<close> library over the rationals that obeys \<open>decimal_laws\<close>, a date
  formatter, the configuration of \<open>src/config.sample.toml\<close>, and a few deposits.
\<close>

definition digits_value :: "string \<Rightarrow> nat" where
  "digits_value s = foldl (\<lambda>n c. 10 * n + (of_char c - 48)) 0 s"

definition rat_decimals :: "rat decimal_lib" where
  "rat_decimals =
     \<lparr>dec_lt = (<),
      dec_literal = (\<lambda>m s. of_int m / 10 ^ s),
      dec_from_u128 = (\<lambda>w. if unat w < 2 ^ 96 then Some (of_nat (unat w)) else None),
      dec_from_u64 = (\<lambda>w. of_nat (unat w)),
      dec_div = (\<lambda>a b. if b = 0 then None else Some (a / b)),
      dec_to_string = (\<lambda>q. show_nat (nat \<lfloor>q\<rfloor>)),
      dec_from_str = (\<lambda>s. if s \<noteq> [] \<and> list_all (\<lambda>c. c \<in> set ''0123456789'') s
                           then Some (of_nat (digits_value s)) else None)\<rparr>"

lemma rat_decimals_laws: "decimal_laws rat_decimals id"
  by (simp add: decimal_laws_def rat_decimals_def not_less)

lemma rat_decimals_simps [simp]:
  "dec_lt rat_decimals = (<)"
  "dec_literal rat_decimals m s = of_int m / 10 ^ s"
  "dec_div rat_decimals a b = (if b = 0 then None else Some (a / b))"
  by (simp_all add: rat_decimals_def)

definition sample_ymd :: "datetime \<Rightarrow> string" where
  "sample_ymd t = ''20260328''"

definition sample_address :: string where
  "sample_address = ''0x0000000000000000000000000000000000000001''"

definition sample_config :: "rat crypto_sweep_config" where
  "sample_config =
     \<lparr>cfg_max_auto_amount = 10000,
      cfg_default_payment_method_id = ''pm-default'',
      cfg_deposit_addresses = [\<lparr>dac_address = sample_address, dac_payment_method_id = ''pm-bank''\<rparr>],
      cfg_confirmation_blocks = [Ethereum \<mapsto> 20, Base \<mapsto> 14],
      cfg_start_blocks = [Ethereum \<mapsto> 22000000, Base \<mapsto> 28000000],
      cfg_coinbase_api_key = ''organizations/o/apiKeys/k'',
      cfg_coinbase_api_secret = ''pem'',
      cfg_telegram_bot_token = ''123456789:X'',
      cfg_telegram_chat_id = ''-1001234567890'',
      cfg_coinbase_usdc_account_id = None,
      cfg_coinbase_usd_account_id = None,
      cfg_sell_settle_delay_secs = 30,
      cfg_state_file = ''/root/.cryptosweep/state.json''\<rparr>"

definition sample_hash :: string where
  "sample_hash = ''0xabc12345''"

definition sample_receive :: "rat usdc_receive" where
  "sample_receive = \<lparr>ur_tx_hash = sample_hash, ur_amount = 500, ur_block_number = 22000100,
                     ur_fetched_at = 0\<rparr>"

definition sample_deposit :: "rat eligible_deposit" where
  "sample_deposit = \<lparr>ed_deposit_address = sample_address, ed_chain = Ethereum, ed_tx_hash = sample_hash,
                     ed_usdc_amount = 500, ed_payment_method_id = ''pm-bank'',
                     ed_deposit_timestamp = 0, ed_processed_at = 0\<rparr>"

end
