(* ===== verification/Live_Explorer.thy ===== *)
theory Live_Explorer
  imports Sample_World
begin

text \<open>
  The block explorer, \<open>src/src/explorer.rs\<close>: conversion of token amounts, of RPC logs
  into receives, and the chunked scan of a block window. The alloy crate (addresses, big-endian
  decoding, hex formatting, the JSON-RPC provider) is a parameter. The scan is a
  \<open>partial_function\<close>: its value is \<open>None\<close> where the source's loop does not end.
  A request is made at most once per block window of a scan, so a provider that answers
  differently over time is still a function of the request.
\<close>

section \<open>Constants and the alloy interface\<close>

definition MAX_RETRIES :: nat where "MAX_RETRIES = 5"
definition INITIAL_BACKOFF_MS :: u64 where "INITIAL_BACKOFF_MS = 500"
definition COMPUTE_UNITS_PER_SEC :: u64 where "COMPUTE_UNITS_PER_SEC = 330"
definition USDC_DECIMALS :: nat where "USDC_DECIMALS = 6"

definition TRANSFER_EVENT_TOPIC :: u256 where
  "TRANSFER_EVENT_TOPIC = 0xddf252ad1be2c89b69c2b068fc378daa952ba7f163c4a11628f55a4df523b3ef"

record rpc_log =
  log_block_number :: "u64 option"
  log_transaction_hash :: "u256 option"
  log_data :: "byte list"

record 'a log_filter =
  flt_address :: 'a
  flt_from_block :: u64
  flt_to_block :: u64
  flt_event_signature :: u256
  flt_topic2 :: 'a

record 'a provider =
  pv_get_logs :: "'a log_filter \<Rightarrow> string + rpc_log list"
  pv_get_block_number :: "string + u64"

text \<open>
  \<open>U256::from_be_slice\<close> panics on more than 32 bytes; connecting parses the URL, which
  \<open>expect\<close> turns into a panic when it fails.
\<close>

record 'a alloy_lib =
  al_parse_address :: "string \<Rightarrow> string + 'a"
  al_u256_from_be_slice :: "byte list \<Rightarrow> u256 option"
  al_u256_to_string :: "u256 \<Rightarrow> string"
  al_tx_hash_hex :: "u256 \<Rightarrow> string"
  al_connect :: "string \<Rightarrow> nat \<Rightarrow> u64 \<Rightarrow> u64 \<Rightarrow> 'a provider option"

fun rpc_url :: "chain \<Rightarrow> string" where
  "rpc_url Ethereum = ''https://ethereum.publicnode.com''"
| "rpc_url Base = ''https://mainnet.base.org''"
| "rpc_url Arbitrum = ''https://arb1.arbitrum.io/rpc''"
| "rpc_url Polygon = ''https://polygon-bor-rpc.publicnode.com''"
| "rpc_url Optimism = ''https://mainnet.optimism.io''"
| "rpc_url Monad = ''https://rpc1.monad.xyz''"

section \<open>Amounts and addresses\<close>

text \<open>
  \<open>raw.try_into::<u128>()\<close> fails from \<open>2 ^ 128\<close> on; \<open>Decimal::from(u128)\<close> and the
  division are \<open>Decimal\<close>'s and may panic.
\<close>

definition u256_to_decimal :: "'a alloy_lib \<Rightarrow> 'd decimal_lib \<Rightarrow> u256 \<Rightarrow> nat \<Rightarrow> fault + 'd" where
  "u256_to_decimal L D raw decimals =
     (if unat raw < 2 ^ 128 then
        (case dec_from_u128 D (ucast raw) of
           None \<Rightarrow> Inl Panic
         | Some a \<Rightarrow> (case dec_div D a (dec_from_u64 D (10 ^ decimals)) of
                        None \<Rightarrow> Inl Panic | Some q \<Rightarrow> Inr q))
      else Inl (AppErr (Explorer (''U256 value '' @ al_u256_to_string L raw @ '' too large for u128''))))"

definition parse_address :: "'a alloy_lib \<Rightarrow> string \<Rightarrow> app_error + 'a" where
  "parse_address L s =
     (case al_parse_address L s of
        Inl e \<Rightarrow> Inl (Explorer (''Bad address '' @ [CHR 0x27] @ s @ [CHR 0x27] @ '': '' @ e))
      | Inr a \<Rightarrow> Inr a)"

section \<open>The live explorer\<close>

record 'a live_block_explorer =
  lbe_chain :: chain
  lbe_usdc_contract :: 'a
  lbe_provider :: "'a provider"

definition live_block_explorer_new :: "'a alloy_lib \<Rightarrow> chain \<Rightarrow> 'a live_block_explorer option" where
  "live_block_explorer_new L c =
     (case al_parse_address L (usdc_contract c) of
        Inl _ \<Rightarrow> None
      | Inr a \<Rightarrow>
          (case al_connect L (rpc_url c) MAX_RETRIES INITIAL_BACKOFF_MS COMPUTE_UNITS_PER_SEC of
             None \<Rightarrow> None
           | Some p \<Rightarrow> Some \<lparr>lbe_chain = c, lbe_usdc_contract = a, lbe_provider = p\<rparr>))"

definition parse_log ::
  "'a alloy_lib \<Rightarrow> 'd decimal_lib \<Rightarrow> datetime \<Rightarrow> rpc_log \<Rightarrow> fault + 'd usdc_receive" where
  "parse_log L D fetched_at lg =
     (case log_block_number lg of
        None \<Rightarrow> Inl (AppErr (Explorer ''Log missing block_number''))
      | Some block_number \<Rightarrow>
     (case log_transaction_hash lg of
        None \<Rightarrow> Inl (AppErr (Explorer ''Log missing transaction_hash''))
      | Some tx_hash \<Rightarrow>
     (case al_u256_from_be_slice L (log_data lg) of
        None \<Rightarrow> Inl Panic
      | Some raw_amount \<Rightarrow>
     (case u256_to_decimal L D raw_amount USDC_DECIMALS of
        Inl e \<Rightarrow> Inl e
      | Inr amount \<Rightarrow> Inr \<lparr>ur_tx_hash = al_tx_hash_hex L tx_hash, ur_amount = amount,
                          ur_block_number = block_number, ur_fetched_at = fetched_at\<rparr>))))"

definition fetch_receives_chunk ::
  "'a alloy_lib \<Rightarrow> 'd decimal_lib \<Rightarrow> 'a live_block_explorer \<Rightarrow> 'a \<Rightarrow> datetime \<Rightarrow> u64 \<Rightarrow> u64 \<Rightarrow>
   fault + 'd usdc_receive list" where
  "fetch_receives_chunk L D ex deposit_address fetched_at from to =
     (case pv_get_logs (lbe_provider ex)
             \<lparr>flt_address = lbe_usdc_contract ex, flt_from_block = from, flt_to_block = to,
              flt_event_signature = TRANSFER_EVENT_TOPIC, flt_topic2 = deposit_address\<rparr> of
        Inl e \<Rightarrow> Inl (AppErr (Explorer (chain_to_string (lbe_chain ex) @
                   '': get_logs failed for blocks '' @ show_u64 from @ ''-'' @ show_u64 to @ '': '' @ e)))
      | Inr logs \<Rightarrow> collect_res (parse_log L D fetched_at) logs)"

definition get_block_height :: "'a live_block_explorer \<Rightarrow> app_error + u64" where
  "get_block_height ex =
     (case pv_get_block_number (lbe_provider ex) of
        Inl e \<Rightarrow> Inl (Explorer (chain_to_string (lbe_chain ex) @ '': block height failed: '' @ e))
      | Inr block \<Rightarrow> Inr block)"

text \<open>
  The \<open>while from <= to_block\<close> loop. The result is the receives and the
  confirmed frontier.
\<close>

partial_function (option) fetch_loop ::
  "(u64 \<Rightarrow> u64 \<Rightarrow> fault + 'r list) \<Rightarrow> u64 \<Rightarrow> u64 \<Rightarrow> u64 \<Rightarrow> 'r list \<Rightarrow> u64 option \<Rightarrow>
   (fault + 'r list \<times> u64) option" where
  "fetch_loop chunk chunk_size to_block from receives last_chunk_end =
     (if from \<le> to_block then
        (let chunk_end = min (sat_add from (chunk_size - 1)) to_block in
         case chunk from chunk_end of
           Inr rs \<Rightarrow> fetch_loop chunk chunk_size to_block (sat_add chunk_end 1) (receives @ rs)
                      (Some chunk_end)
         | Inl e \<Rightarrow>
             (case e of
                Panic \<Rightarrow> Some (Inl Panic)
              | AppErr a \<Rightarrow> (case last_chunk_end of
                              None \<Rightarrow> Some (Inl (AppErr a))
                            | Some frontier \<Rightarrow> Some (Inr (receives, frontier)))))
      else Some (Inr (receives, case last_chunk_end of None \<Rightarrow> to_block | Some frontier \<Rightarrow> frontier)))"

definition fetch_usdc_receives ::
  "'a alloy_lib \<Rightarrow> 'd decimal_lib \<Rightarrow> 'a live_block_explorer \<Rightarrow> datetime \<Rightarrow> string \<Rightarrow> u64 \<Rightarrow> u64 \<Rightarrow>
   (fault + 'd fetch_receives_ok) option" where
  "fetch_usdc_receives L D ex now address since_block to_block =
     (case parse_address L address of
        Inl e \<Rightarrow> Some (Inl (AppErr e))
      | Inr deposit_address \<Rightarrow>
          map_option
            (map_sum id (\<lambda>(receives, frontier). \<lparr>fr_receives = receives, fr_confirmed_frontier = frontier\<rparr>))
            (fetch_loop (fetch_receives_chunk L D ex deposit_address now)
               (eth_get_logs_chunk_size (lbe_chain ex)) to_block since_block [] None))"

text \<open>
  \<open>LiveBlockExplorer\<close> as a \<open>BlockExplorer\<close>: \<open>now i\<close> is the clock when the scan
  of the \<open>i\<close>-th address starts, \<open>node i\<close> the node as that scan meets it.
\<close>

definition live_trait ::
  "'a alloy_lib \<Rightarrow> 'd decimal_lib \<Rightarrow> 'a live_block_explorer \<Rightarrow> (nat \<Rightarrow> 'a live_block_explorer) \<Rightarrow>
   (nat \<Rightarrow> datetime) \<Rightarrow> 'd block_explorer" where
  "live_trait L D ex node now =
     \<lparr>be_get_block_height = Some (get_block_height ex),
      be_fetch_usdc_receives =
        (\<lambda>i address s t. call_value (fetch_usdc_receives L D (node i) (now i) address s t))\<rparr>"

section \<open>The scan against its block windows\<close>

text \<open>
  The windows a scan of \<open>[from, to]\<close> in chunks of \<open>c\<close> blocks is cut into, on natural
  numbers, and what the trait's documentation promises of the scan: everything when all windows
  succeed, the successful prefix up to the first failed one, the error when the first window
  fails.
\<close>

function chunk_windows :: "nat \<Rightarrow> nat \<Rightarrow> nat \<Rightarrow> (nat \<times> nat) list" where
  "chunk_windows c from to =
     (if from \<le> to \<and> 0 < c
      then (from, min (from + (c - 1)) to) # chunk_windows c (Suc (min (from + (c - 1)) to)) to
      else [])"
  by pat_completeness auto
termination
  by (relation "measure (\<lambda>(c, from, to). Suc to - from)") auto

declare chunk_windows.simps [simp del]

definition window_ok :: "(u64 \<Rightarrow> u64 \<Rightarrow> fault + 'r list) \<Rightarrow> nat \<times> nat \<Rightarrow> bool" where
  "window_ok chunk w \<longleftrightarrow> (\<exists>rs. chunk (of_nat (fst w)) (of_nat (snd w)) = Inr rs)"

definition window_receives :: "(u64 \<Rightarrow> u64 \<Rightarrow> fault + 'r list) \<Rightarrow> nat \<times> nat \<Rightarrow> 'r list" where
  "window_receives chunk w =
     (case chunk (of_nat (fst w)) (of_nat (snd w)) of Inr rs \<Rightarrow> rs | Inl _ \<Rightarrow> [])"

text \<open>\<open>good\<close> are the windows before the first failure, \<open>rest\<close> those from it on.\<close>

definition scan_result ::
  "(u64 \<Rightarrow> u64 \<Rightarrow> fault + 'r list) \<Rightarrow> (nat \<times> nat) list \<Rightarrow> (nat \<times> nat) list \<Rightarrow> 'r list \<Rightarrow>
   u64 option \<Rightarrow> u64 \<Rightarrow> fault + 'r list \<times> u64" where
  "scan_result chunk good rest receives last_end to_block =
     (let got = receives @ concat (map (window_receives chunk) good);
          reached = (if good = [] then last_end else Some (of_nat (snd (last good))))
      in case rest of
           [] \<Rightarrow> Inr (got, case reached of None \<Rightarrow> to_block | Some f \<Rightarrow> f)
         | w # _ \<Rightarrow>
             (case chunk (of_nat (fst w)) (of_nat (snd w)) of
                Inl (AppErr e) \<Rightarrow> (case reached of None \<Rightarrow> Inl (AppErr e) | Some f \<Rightarrow> Inr (got, f))
              | _ \<Rightarrow> Inl Panic))"

definition scan_spec ::
  "(u64 \<Rightarrow> u64 \<Rightarrow> fault + 'r list) \<Rightarrow> (nat \<times> nat) list \<Rightarrow> 'r list \<Rightarrow> u64 option \<Rightarrow> u64 \<Rightarrow>
   fault + 'r list \<times> u64" where
  "scan_spec chunk ws receives last_end to_block =
     scan_result chunk (takeWhile (window_ok chunk) ws) (dropWhile (window_ok chunk) ws)
       receives last_end to_block"

lemma scan_result_Cons_good:
  assumes "chunk (of_nat (fst w)) (of_nat (snd w)) = Inr rs"
  shows "scan_result chunk (w # good) rest receives l t =
           scan_result chunk good rest (receives @ rs) (Some (of_nat (snd w))) t"
  using assms by (cases good) (simp_all add: scan_result_def window_receives_def)

lemma scan_result_Inr:
  assumes "scan_result chunk good rest [] None t = Inr (rs, f)"
  shows "rs = concat (map (window_receives chunk) good) \<and>
         f = (if good = [] then t else of_nat (snd (last good))) \<and> (good = [] \<longrightarrow> rest = [])"
  using assms by (cases rest) (auto simp: scan_result_def Let_def split: sum.splits fault.splits if_splits)

lemma scan_spec_Nil:
  "scan_spec chunk [] receives l t = Inr (receives, case l of None \<Rightarrow> t | Some f \<Rightarrow> f)"
  by (simp add: scan_spec_def scan_result_def)

lemma scan_spec_Cons:
  "scan_spec chunk (w # ws) receives l t =
     (case chunk (of_nat (fst w)) (of_nat (snd w)) of
        Inr rs \<Rightarrow> scan_spec chunk ws (receives @ rs) (Some (of_nat (snd w))) t
      | Inl Panic \<Rightarrow> Inl Panic
      | Inl (AppErr e) \<Rightarrow> (case l of None \<Rightarrow> Inl (AppErr e) | Some f \<Rightarrow> Inr (receives, f)))"
proof (cases "chunk (of_nat (fst w)) (of_nat (snd w))")
  case (Inr rs)
  then have "window_ok chunk w" by (simp add: window_ok_def)
  then show ?thesis by (simp add: Inr scan_spec_def scan_result_Cons_good [where chunk = chunk and w = w, OF Inr])
next
  case (Inl e)
  then have "\<not> window_ok chunk w" by (simp add: window_ok_def)
  then show ?thesis by (simp add: Inl scan_spec_def scan_result_def split: fault.split)
qed

text \<open>The loop is the specification on the windows, whenever the window ends below the last block number.\<close>

lemma chunk_end_nat:
  assumes "0 < unat c" and "to < u64_max"
  shows "unat (min (sat_add frm (c - 1)) to) = min (unat frm + (unat c - 1)) (unat to)"
    and "unat (sat_add (min (sat_add frm (c - 1)) to) 1) = Suc (min (unat frm + (unat c - 1)) (unat to))"
proof -
  have c1: "unat (c - 1) = unat c - 1"
    using assms(1) by (simp add: unat_gt_0 unat_minus_one)
  have to: "unat to < 2 ^ 64 - 1"
    using assms(2) by (simp add: word_less_nat_alt sat_simps)
  show e: "unat (min (sat_add frm (c - 1)) to) = min (unat frm + (unat c - 1)) (unat to)"
    using to by (simp add: sat_simps c1)
  show "unat (sat_add (min (sat_add frm (c - 1)) to) 1) = Suc (min (unat frm + (unat c - 1)) (unat to))"
    using to e by (simp add: unat_sat_add)
qed

lemma fetch_loop_spec:
  assumes c: "0 < unat c" and to: "to < u64_max"
  shows "fetch_loop chunk c to frm receives l =
           Some (scan_spec chunk (chunk_windows (unat c) (unat frm) (unat to)) receives l to)"
proof (induction "Suc (unat to) - unat frm" arbitrary: frm receives l rule: less_induct)
  case less
  let ?e = "min (sat_add frm (c - 1)) to"
  show ?case
  proof (cases "frm \<le> to")
    case False
    then show ?thesis
      by (simp add: fetch_loop.simps [of chunk c to frm] chunk_windows.simps [of _ "unat frm"]
          scan_spec_Nil word_le_nat_alt)
  next
    case True
    have e: "unat ?e = min (unat frm + (unat c - 1)) (unat to)"
      and n: "unat (sat_add ?e 1) = Suc (unat ?e)"
      using chunk_end_nat [OF c to, of "frm"] by simp_all
    have ft: "unat frm \<le> unat to" using True by (simp add: word_le_nat_alt)
    have "unat frm \<le> unat ?e" using e ft by simp
    then have IH: "fetch_loop chunk c to (sat_add ?e 1) rs l' =
        Some (scan_spec chunk (chunk_windows (unat c) (unat (sat_add ?e 1)) (unat to)) rs l' to)" for rs l'
      by (intro less) (use n ft in simp)
    have ws: "chunk_windows (unat c) (unat frm) (unat to) =
        (unat frm, unat ?e) # chunk_windows (unat c) (unat (sat_add ?e 1)) (unat to)"
      using c ft e n by (simp add: chunk_windows.simps [of _ "unat frm"])
    show ?thesis
      unfolding ws scan_spec_Cons
      by (subst fetch_loop.simps)
        (simp add: True Let_def IH split: sum.split fault.split option.split)
  qed
qed

section \<open>The windows tile the scan\<close>

lemma chunk_windows_prefix:
  assumes "chunk_windows c lo hi = us @ vs" and "us \<noteq> []"
  shows "lo \<le> snd (last us) \<and> snd (last us) \<le> hi \<and> (\<Union>w\<in>set us. {fst w..snd w}) = {lo..snd (last us)}"
  using assms
proof (induction c lo hi arbitrary: us rule: chunk_windows.induct)
  case (1 c lo hi)
  let ?e = "min (lo + (c - 1)) hi"
  have r: "lo \<le> hi \<and> 0 < c"
    using 1(2,3) by (cases "lo \<le> hi \<and> 0 < c") (auto simp: chunk_windows.simps [of c lo hi])
  have eq: "chunk_windows c lo hi = (lo, ?e) # chunk_windows c (Suc ?e) hi"
    using r by (simp add: chunk_windows.simps [of c lo hi])
  from 1(2,3) eq obtain us' where us: "us = (lo, ?e) # us'"
    and us': "chunk_windows c (Suc ?e) hi = us' @ vs"
    by (cases us) auto
  show ?case
  proof (cases "us' = []")
    case True
    with us r show ?thesis by auto
  next
    case False
    from 1(1) [OF r us' False]
    have IH: "Suc ?e \<le> snd (last us')" "snd (last us') \<le> hi"
      "(\<Union>w\<in>set us'. {fst w..snd w}) = {Suc ?e..snd (last us')}" by auto
    have "{lo..?e} \<union> {Suc ?e..snd (last us')} = {lo..snd (last us')}"
      using IH(1) r by (intro ivl_disj_un_two_touch(4) [where m = ?e, simplified atLeastSucAtMost_greaterThanAtMost [symmetric]] | auto)+
    then show ?thesis using IH us False r by simp
  qed
qed

lemma chunk_windows_elem:
  "w \<in> set (chunk_windows c lo hi) \<Longrightarrow> lo \<le> fst w \<and> fst w \<le> snd w \<and> snd w \<le> hi \<and> snd w - fst w < c"
proof (induction c lo hi rule: chunk_windows.induct)
  case (1 c lo hi)
  have r: "lo \<le> hi \<and> 0 < c"
    using 1(2) by (cases "lo \<le> hi \<and> 0 < c") (auto simp: chunk_windows.simps [of c lo hi])
  from 1(2) r consider "w = (lo, min (lo + (c - 1)) hi)"
    | "w \<in> set (chunk_windows c (Suc (min (lo + (c - 1)) hi)) hi)"
    by (auto simp: chunk_windows.simps [of c lo hi])
  then show ?case
  proof cases
    case 1
    then show ?thesis using r by auto
  next
    case 2
    from "1.IH" [OF r 2] show ?thesis by auto
  qed
qed

lemma chunk_windows_Nil_iff: "0 < c \<Longrightarrow> chunk_windows c lo hi = [] \<longleftrightarrow> hi < lo"
  by (simp add: chunk_windows.simps [of c lo hi] not_le)

lemma scan_spec_Inr:
  assumes "scan_spec chunk ws [] None t = Inr (rs, f)"
  obtains us vs where "ws = us @ vs" and "\<forall>w\<in>set us. window_ok chunk w"
    and "rs = concat (map (window_receives chunk) us)"
    and "f = (if us = [] then t else of_nat (snd (last us)))" and "us = [] \<longrightarrow> ws = []"
proof
  let ?us = "takeWhile (window_ok chunk) ws" and ?vs = "dropWhile (window_ok chunk) ws"
  note r = scan_result_Inr [OF assms [unfolded scan_spec_def]]
  show "ws = ?us @ ?vs" by simp
  then show "?us = [] \<longrightarrow> ws = []" using r by (metis append_Nil)
  show "\<forall>w\<in>set ?us. window_ok chunk w" by (auto dest: set_takeWhileD)
  show "rs = concat (map (window_receives chunk) ?us)"
    and "f = (if ?us = [] then t else of_nat (snd (last ?us)))" using r by blast+
qed

section \<open>The trait's contract\<close>

lemma fetch_loop_frontier:
  assumes c: "0 < unat c" and t: "t < u64_max" and st: "s \<le> t"
    and res: "fetch_loop chunk c t s [] None = Some (Inr (rs, f))"
  obtains us vs where "chunk_windows (unat c) (unat s) (unat t) = us @ vs"
    and "\<forall>w\<in>set us. window_ok chunk w" and "rs = concat (map (window_receives chunk) us)"
    and "us \<noteq> []" and "unat f = snd (last us)" and "s \<le> f" and "f \<le> t"
    and "(\<Union>w\<in>set us. {fst w..snd w}) = {unat s..unat f}"
proof -
  from res have "scan_spec chunk (chunk_windows (unat c) (unat s) (unat t)) [] None t = Inr (rs, f)"
    by (simp add: fetch_loop_spec [OF c t])
  then obtain us vs where ws: "chunk_windows (unat c) (unat s) (unat t) = us @ vs"
    and ok: "\<forall>w\<in>set us. window_ok chunk w" and rs: "rs = concat (map (window_receives chunk) us)"
    and f: "f = (if us = [] then t else of_nat (snd (last us)))"
    and ne: "us = [] \<longrightarrow> chunk_windows (unat c) (unat s) (unat t) = []"
    by (rule scan_spec_Inr)
  from ne st c have us: "us \<noteq> []"
    by (auto simp: chunk_windows_Nil_iff word_le_nat_alt)
  note p = chunk_windows_prefix [OF ws us]
  have uf: "unat f = snd (last us)"
    using p us f unat_u64_bound [of t] by (simp add: unat_of_nat)
  show thesis
    by (rule that [OF ws ok rs us uf]) (use p uf in \<open>simp_all add: word_le_nat_alt\<close>)
qed

lemma fetch_loop_exact:
  assumes c: "0 < unat c" and t: "t < u64_max" and st: "s \<le> t"
    and exact: "\<And>a b rs. chunk a b = Inr rs \<Longrightarrow> set rs = {r \<in> T. a \<le> blk r \<and> blk r \<le> b}"
    and res: "fetch_loop chunk c t s [] None = Some (Inr (rs, f))"
  shows "set rs = {r \<in> T. s \<le> blk r \<and> blk r \<le> (f :: u64)}"
proof -
  obtain us vs where ws: "chunk_windows (unat c) (unat s) (unat t) = us @ vs"
    and ok: "\<forall>w\<in>set us. window_ok chunk w" and rs: "rs = concat (map (window_receives chunk) us)"
    and "us \<noteq> []" "unat f = snd (last us)" "s \<le> f" "f \<le> t"
    and un: "(\<Union>w\<in>set us. {fst w..snd w}) = {unat s..unat f}"
    by (rule fetch_loop_frontier [OF c t st res])
  have win: "set (window_receives chunk w) = {r \<in> T. fst w \<le> unat (blk r) \<and> unat (blk r) \<le> snd w}"
    if w: "w \<in> set us" for w
  proof -
    from w ws have "fst w \<le> snd w \<and> snd w \<le> unat t"
      using chunk_windows_elem [of w "unat c" "unat s" "unat t"] by auto
    then have "unat (of_nat (fst w) :: u64) = fst w" "unat (of_nat (snd w) :: u64) = snd w"
      using unat_u64_bound [of t] by (simp_all add: unat_of_nat)
    moreover obtain rs' where "chunk (of_nat (fst w)) (of_nat (snd w)) = Inr rs'"
      using ok w by (auto simp: window_ok_def)
    ultimately show ?thesis
      using exact [of "of_nat (fst w)" "of_nat (snd w)" rs']
      by (simp add: window_receives_def word_le_nat_alt)
  qed
  have "set rs = {r \<in> T. unat (blk r) \<in> (\<Union>w\<in>set us. {fst w..snd w})}"
    unfolding rs using win by auto
  then show ?thesis by (simp add: un word_le_nat_alt)
qed

text \<open>
  What the chain holds, as the logs of USDC transfers to each address; a node is honest when a
  successful answer to the explorer's query is exactly the logs of the queried block range.
\<close>

definition honest_provider :: "'a live_block_explorer \<Rightarrow> ('a \<Rightarrow> rpc_log set) \<Rightarrow> bool" where
  "honest_provider ex ledger \<longleftrightarrow>
     (\<forall>a lo hi logs.
        pv_get_logs (lbe_provider ex)
          \<lparr>flt_address = lbe_usdc_contract ex, flt_from_block = lo, flt_to_block = hi,
           flt_event_signature = TRANSFER_EVENT_TOPIC, flt_topic2 = a\<rparr> = Inr logs \<longrightarrow>
        set logs = {l \<in> ledger a. \<exists>b. log_block_number l = Some b \<and> lo \<le> b \<and> b \<le> hi})"

definition ledger_receives ::
  "'a alloy_lib \<Rightarrow> 'd decimal_lib \<Rightarrow> datetime \<Rightarrow> ('a \<Rightarrow> rpc_log set) \<Rightarrow> string \<Rightarrow> 'd usdc_receive set" where
  "ledger_receives L D now ledger address =
     (case al_parse_address L address of
        Inl _ \<Rightarrow> {}
      | Inr a \<Rightarrow> {r. \<exists>l\<in>ledger a. parse_log L D now l = Inr r})"

lemma parse_log_block:
  "parse_log L D now l = Inr r \<Longrightarrow> log_block_number l = Some (ur_block_number r)"
  by (auto simp: parse_log_def split: option.splits sum.splits)

lemma fetch_receives_chunk_exact:
  assumes h: "honest_provider ex ledger" and ch: "fetch_receives_chunk L D ex a now lo hi = Inr rs"
  shows "set rs = {r \<in> {r. \<exists>l\<in>ledger a. parse_log L D now l = Inr r}.
                     lo \<le> ur_block_number r \<and> ur_block_number r \<le> hi}"
proof -
  from ch obtain logs where logs: "pv_get_logs (lbe_provider ex)
          \<lparr>flt_address = lbe_usdc_contract ex, flt_from_block = lo, flt_to_block = hi,
           flt_event_signature = TRANSFER_EVENT_TOPIC, flt_topic2 = a\<rparr> = Inr logs"
    and col: "collect_res (parse_log L D now) logs = Inr rs"
    by (auto simp: fetch_receives_chunk_def split: sum.splits)
  have sl: "set logs = {l \<in> ledger a. \<exists>b. log_block_number l = Some b \<and> lo \<le> b \<and> b \<le> hi}"
    using h logs unfolding honest_provider_def by blast
  have "set rs = {r. \<exists>l\<in>set logs. parse_log L D now l = Inr r}"
    using collect_res_Inr [THEN iffD1, OF col]
    by (induction rule: list_all2_induct) auto
  moreover have "l \<in> set logs \<longleftrightarrow> l \<in> ledger a \<and> lo \<le> ur_block_number r \<and> ur_block_number r \<le> hi"
    if "parse_log L D now l = Inr r" for l r
    using parse_log_block [OF that] by (auto simp: sl)
  ultimately show ?thesis by blast
qed

lemma fetch_usdc_receives_Some_Inr:
  assumes "fetch_usdc_receives L D ex now address s t = Some (Inr ok)"
  obtains a where "al_parse_address L address = Inr a"
    and "fetch_loop (fetch_receives_chunk L D ex a now) (eth_get_logs_chunk_size (lbe_chain ex)) t s [] None =
           Some (Inr (fr_receives ok, fr_confirmed_frontier ok))"
  using assms
  by (auto simp: fetch_usdc_receives_def parse_address_def map_sum_def split: sum.splits)

lemma chunk_size_pos: "0 < unat (eth_get_logs_chunk_size c)"
  using chunk_size_bounds(1) [of c] by simp

lemma fetch_usdc_receives_empty_window:
  assumes "fetch_usdc_receives L D ex now address s t = Some (Inr ok)" and "\<not> s \<le> t"
  shows "fr_confirmed_frontier ok = t \<and> fr_receives ok = []"
proof -
  from fetch_usdc_receives_Some_Inr [OF assms(1)] obtain a where
    "fetch_loop (fetch_receives_chunk L D ex a now) (eth_get_logs_chunk_size (lbe_chain ex)) t s [] None =
       Some (Inr (fr_receives ok, fr_confirmed_frontier ok))" .
  with assms(2) show ?thesis by (subst (asm) fetch_loop.simps) simp
qed

lemma fetch_usdc_receives_returns:
  "t < u64_max \<Longrightarrow> fetch_usdc_receives L D ex now address s t \<noteq> None"
  by (auto simp: fetch_usdc_receives_def fetch_loop_spec [OF chunk_size_pos] split: sum.splits)

lemma fetch_usdc_receives_frontier:
  assumes t: "t < u64_max" and st: "s \<le> t"
    and ok: "fetch_usdc_receives L D ex now address s t = Some (Inr ok)"
  shows "s \<le> fr_confirmed_frontier ok \<and> fr_confirmed_frontier ok \<le> t"
proof -
  from fetch_usdc_receives_Some_Inr [OF ok] obtain a where
    loop: "fetch_loop (fetch_receives_chunk L D ex a now) (eth_get_logs_chunk_size (lbe_chain ex)) t s [] None =
       Some (Inr (fr_receives ok, fr_confirmed_frontier ok))" by blast
  show ?thesis by (rule fetch_loop_frontier [OF chunk_size_pos t st loop]) simp
qed

lemma fetch_usdc_receives_exact:
  assumes h: "honest_provider ex ledger" and t: "t < u64_max" and st: "s \<le> t"
    and ok: "fetch_usdc_receives L D ex now address s t = Some (Inr ok)"
  shows "set (fr_receives ok) = {r \<in> ledger_receives L D now ledger address.
           s \<le> ur_block_number r \<and> ur_block_number r \<le> fr_confirmed_frontier ok}"
proof -
  from fetch_usdc_receives_Some_Inr [OF ok] obtain a where
    a: "al_parse_address L address = Inr a" and
    loop: "fetch_loop (fetch_receives_chunk L D ex a now) (eth_get_logs_chunk_size (lbe_chain ex)) t s [] None =
       Some (Inr (fr_receives ok, fr_confirmed_frontier ok))" by blast
  show ?thesis
    using fetch_loop_exact [OF chunk_size_pos t st fetch_receives_chunk_exact [OF h] loop]
    by (simp add: ledger_receives_def a)
qed

interpretation live: explorer_contract
  "fetch_usdc_receives L D ex now" "ledger_receives L D now ledger" "honest_provider ex ledger"
  for L :: "'a alloy_lib" and D :: "'d decimal_lib" and ex :: "'a live_block_explorer"
    and now :: datetime and ledger :: "'a \<Rightarrow> rpc_log set"
proof (unfold_locales, goal_cases)
  case (1 t a s)
  then show ?case by (rule fetch_usdc_receives_returns)
next
  case (2 t a s ok)
  then show ?case
    using fetch_usdc_receives_frontier [OF 2(1) _ 2(2)] fetch_usdc_receives_empty_window [OF 2(2)]
    by (cases "s \<le> t") simp_all
next
  case (3 t s a ok)
  then show ?case using fetch_usdc_receives_frontier by blast
next
  case (4 t s a ok)
  then show ?case by (rule fetch_usdc_receives_exact)
qed

section \<open>A sample node\<close>

text \<open>A transfer of 500 USDC, \<open>0x1DCD6500\<close> atoms.\<close>

definition sample_log :: rpc_log where
  "sample_log = \<lparr>log_block_number = Some 22000100, log_transaction_hash = Some 0xabc,
                 log_data = [0x1D, 0xCD, 0x65, 0x00]\<rparr>"

definition sample_ledger :: "string \<Rightarrow> rpc_log set" where
  "sample_ledger a = (if a = sample_address then {sample_log} else {})"

definition sample_provider :: "string provider" where
  "sample_provider =
     \<lparr>pv_get_logs = (\<lambda>f. Inr (if flt_topic2 f = sample_address \<and> flt_from_block f \<le> 22000100 \<and>
                                22000100 \<le> flt_to_block f then [sample_log] else [])),
      pv_get_block_number = Inr 22000200\<rparr>"

definition sample_alloy :: "string alloy_lib" where
  "sample_alloy =
     \<lparr>al_parse_address = Inr,
      al_u256_from_be_slice =
        (\<lambda>bs. if length bs \<le> 32 then Some (of_nat (foldl (\<lambda>n b. 256 * n + unat b) 0 bs)) else None),
      al_u256_to_string = (\<lambda>w. show_nat (unat w)),
      al_tx_hash_hex = (\<lambda>_. sample_hash),
      al_connect = (\<lambda>_ _ _ _. Some sample_provider)\<rparr>"

definition sample_node :: "string live_block_explorer" where
  "sample_node = \<lparr>lbe_chain = Ethereum, lbe_usdc_contract = usdc_contract Ethereum,
                  lbe_provider = sample_provider\<rparr>"

lemma sample_node_honest: "honest_provider sample_node sample_ledger"
  by (auto simp: honest_provider_def sample_node_def sample_provider_def sample_ledger_def sample_log_def)

lemma sample_log_parsed:
  "parse_log sample_alloy rat_decimals 0 sample_log = Inr sample_receive"
  by (simp add: parse_log_def sample_log_def sample_alloy_def u256_to_decimal_def rat_decimals_def
      USDC_DECIMALS_def sample_receive_def)

lemma sample_chunk:
  "fetch_receives_chunk sample_alloy rat_decimals sample_node sample_address 0 22000000 22000200 =
     Inr [sample_receive]"
  by (simp add: fetch_receives_chunk_def sample_node_def sample_provider_def sample_log_parsed)

lemma sample_fetch:
  "fetch_usdc_receives sample_alloy rat_decimals sample_node 0 sample_address 22000000 22000200 =
     Some (Inr \<lparr>fr_receives = [sample_receive], fr_confirmed_frontier = 22000200\<rparr>)"
proof -
  have "parse_address sample_alloy sample_address = Inr sample_address"
    by (simp add: parse_address_def sample_alloy_def)
  moreover have "lbe_chain sample_node = Ethereum" by (simp add: sample_node_def)
  moreover have "fetch_loop (fetch_receives_chunk sample_alloy rat_decimals sample_node sample_address 0)
      10000 22000200 22000000 [] None = Some (Inr ([sample_receive], 22000200))"
    by (subst fetch_loop.simps, simp add: sat_add_def sample_chunk) (subst fetch_loop.simps, simp)
  ultimately show ?thesis by (simp add: fetch_usdc_receives_def)
qed

section \<open>Properties of the scan\<close>

lemma chunk_windows_last:
  "lo \<le> hi \<Longrightarrow> 0 < c \<Longrightarrow> snd (last (chunk_windows c lo hi)) = hi"
proof (induction c lo hi rule: chunk_windows.induct)
  case (1 c lo hi)
  let ?e = "min (lo + (c - 1)) hi"
  show ?case
  proof (cases "Suc ?e \<le> hi")
    case True
    then have "chunk_windows c (Suc ?e) hi \<noteq> []" using 1(3) by (simp add: chunk_windows_Nil_iff)
    with 1 True show ?thesis by (simp add: chunk_windows.simps [of c lo hi])
  next
    case False
    then have "chunk_windows c (Suc ?e) hi = []" using 1(3) by (simp add: chunk_windows_Nil_iff)
    with 1(2,3) False show ?thesis by (simp add: chunk_windows.simps [of c lo hi])
  qed
qed

lemma chunk_windows_ordered: "sorted_wrt (\<lambda>u v. snd u < fst v) (chunk_windows c lo hi)"
proof (induction c lo hi rule: chunk_windows.induct)
  case (1 c lo hi)
  show ?case
  proof (cases "lo \<le> hi \<and> 0 < c")
    case False
    then show ?thesis by (auto simp: chunk_windows.simps [of c lo hi])
  next
    case True
    have "min (lo + (c - 1)) hi < fst w" if "w \<in> set (chunk_windows c (Suc (min (lo + (c - 1)) hi)) hi)" for w
      using chunk_windows_elem [OF that] Suc_le_lessD by blast
    with 1 [OF True] True show ?thesis by (simp add: chunk_windows.simps [of c lo hi])
  qed
qed

text \<open>The requests of a scan, read off a node that answers each with the request itself.\<close>

abbreviation request_log :: "u64 \<Rightarrow> u64 \<Rightarrow> fault + (u64 \<times> u64) list" where
  "request_log \<equiv> \<lambda>a b. Inr [(a, b)]"

lemma scan_spec_request_log:
  "scan_spec request_log ws rs l t =
     Inr (rs @ map (\<lambda>w. (of_nat (fst w), of_nat (snd w))) ws,
          if ws = [] then (case l of None \<Rightarrow> t | Some f \<Rightarrow> f) else of_nat (snd (last ws)))"
  by (induction ws arbitrary: rs l) (simp_all add: scan_spec_Nil scan_spec_Cons)

lemma fetch_loop_diverges:
  assumes "fetch_loop chunk c to frm rs l = Some y" and "to = u64_max" and "\<forall>a b. \<exists>r. chunk a b = Inr r"
  shows False
proof -
  let ?P = "\<lambda>chunk (c :: u64) to (frm :: u64) (rs :: 'r list) (l :: u64 option) (y :: fault + 'r list \<times> u64).
    to = u64_max \<longrightarrow> (\<forall>a b. \<exists>r. chunk a b = Inr r) \<longrightarrow> False"
  have "?P chunk c to frm rs l y"
  proof (rule fetch_loop.raw_induct [of ?P, OF _ assms(1)], intro impI)
    fix loop chunk c to frm l rs y
    assume IH: "\<And>chunk c to frm rs l y. loop chunk c to frm rs l = Some y \<Longrightarrow> ?P chunk c to frm rs l y"
      and eq: "(if frm \<le> to
        then let chunk_end = min (sat_add frm (c - 1)) to
             in case chunk frm chunk_end of
                Inl Panic \<Rightarrow> Some (Inl Panic)
                | Inl (AppErr a) \<Rightarrow>
                    (case l of None \<Rightarrow> Some (Inl (AppErr a)) | Some frontier \<Rightarrow> Some (Inr (rs, frontier)))
                | Inr r \<Rightarrow> loop chunk c to (sat_add chunk_end 1) (rs @ r) (Some chunk_end)
        else Some (Inr (rs, case l of None \<Rightarrow> to | Some frontier \<Rightarrow> frontier))) = Some y"
      and t: "to = u64_max" and ok: "\<forall>a b. \<exists>r. chunk a b = Inr r"
    obtain r where "chunk frm (min (sat_add frm (c - 1)) to) = Inr r" using ok by blast
    with eq t have "loop chunk c to (sat_add (min (sat_add frm (c - 1)) to) 1) (rs @ r)
        (Some (min (sat_add frm (c - 1)) to)) = Some y"
      by (simp add: Let_def)
    from IH [OF this] t ok show False by blast
  qed
  with assms(2,3) show False by blast
qed

lemma unat_ucast_u128: "unat raw < 2 ^ 128 \<Longrightarrow> unat (ucast (raw :: u256) :: u128) = unat raw"
  by (simp add: unsigned_ucast_eq take_bit_nat_eq_self)

text \<open>
  C16. The chunked scan is its specification: for every window end below the last block number
  the loop ends, and its result is the one the trait documents for the windows the range is cut
  into.
\<close>

theorem fetch_is_window_scan:
  assumes "al_parse_address L address = Inr a" and "to_block < u64_max"
  shows "fetch_usdc_receives L D ex now address since to_block =
    Some (map_sum id (\<lambda>(receives, frontier). \<lparr>fr_receives = receives, fr_confirmed_frontier = frontier\<rparr>)
      (scan_spec (fetch_receives_chunk L D ex a now)
         (chunk_windows (unat (eth_get_logs_chunk_size (lbe_chain ex))) (unat since) (unat to_block))
         [] None to_block))"
  using assms by (simp add: fetch_usdc_receives_def parse_address_def fetch_loop_spec [OF chunk_size_pos])

theorem fetch_is_window_scan_witness:
  "scan_spec (fetch_receives_chunk sample_alloy rat_decimals sample_node sample_address 0)
     (chunk_windows 10000 22000000 22000200) [] None 22000200 = Inr ([sample_receive], 22000200)"
proof -
  have a: "al_parse_address sample_alloy sample_address = Inr sample_address"
    by (simp add: sample_alloy_def)
  have t: "(22000200 :: u64) < u64_max" by (simp add: u64_max_def)
  have c: "lbe_chain sample_node = Ethereum" by (simp add: sample_node_def)
  show ?thesis
    using fetch_is_window_scan [OF a t, of rat_decimals sample_node 0 22000000]
    by (auto simp: sample_fetch c map_sum_def split: sum.splits)
qed

text \<open>
  The requests a scan makes tile the block range: they are in ascending order without
  overlap, none spans more blocks than the chain's limit, and together they cover exactly the
  range from \<open>since_block\<close> to \<open>to_block\<close>.
\<close>

theorem requests_tile_window:
  assumes "since \<le> to_block" and "to_block < u64_max"
  shows "\<exists>ws. fetch_loop request_log (eth_get_logs_chunk_size c) to_block since [] None = Some (Inr (ws, to_block)) \<and>
     sorted_wrt (\<lambda>u v. snd u < fst v) ws \<and>
     (\<forall>(a, b)\<in>set ws. a \<le> b \<and> unat b - unat a < unat (eth_get_logs_chunk_size c)) \<and>
     (\<Union>(a, b)\<in>set ws. {unat a..unat b}) = {unat since..unat to_block}"
proof -
  let ?c = "eth_get_logs_chunk_size c"
  let ?ws = "chunk_windows (unat ?c) (unat since) (unat to_block)"
  let ?w = "\<lambda>w. (of_nat (fst w) :: u64, of_nat (snd w) :: u64)"
  have ne: "?ws \<noteq> []" using assms(1) by (simp add: chunk_windows_Nil_iff chunk_size_pos word_le_nat_alt)
  have p: "snd (last ?ws) \<le> unat to_block" "(\<Union>w\<in>set ?ws. {fst w..snd w}) = {unat since..snd (last ?ws)}"
    using chunk_windows_prefix [of "unat ?c" "unat since" "unat to_block" ?ws "[]"] ne by auto
  have last: "snd (last ?ws) = unat to_block"
    by (rule chunk_windows_last) (use assms(1) in \<open>simp_all add: chunk_size_pos word_le_nat_alt\<close>)
  have el: "unat (of_nat (fst w) :: u64) = fst w \<and> unat (of_nat (snd w) :: u64) = snd w \<and>
      fst w \<le> snd w \<and> snd w - fst w < unat ?c" if "w \<in> set ?ws" for w
    using chunk_windows_elem [OF that] unat_u64_bound [of to_block] by (simp add: unat_of_nat)
  have "sorted_wrt (\<lambda>u v. snd u < fst v) (map ?w ?ws)"
    unfolding sorted_wrt_map
    by (rule sorted_wrt_mono_rel [OF _ chunk_windows_ordered]) (use el in \<open>auto simp: word_less_nat_alt\<close>)
  moreover have "\<forall>(a, b)\<in>set (map ?w ?ws). a \<le> b \<and> unat b - unat a < unat ?c"
    using el by (auto simp: word_le_nat_alt)
  moreover have "(\<Union>(a, b)\<in>set (map ?w ?ws). {unat a..unat b}) = {unat since..unat to_block}"
    using p(2) el last by auto
  moreover have "fetch_loop request_log ?c to_block since [] None = Some (Inr (map ?w ?ws, to_block))"
    by (simp add: fetch_loop_spec [OF chunk_size_pos assms(2)] scan_spec_request_log ne last)
  ultimately show ?thesis by blast
qed

theorem requests_tile_window_witness:
  "\<exists>ws. fetch_loop request_log (eth_get_logs_chunk_size Monad) 5500 3000 [] None = Some (Inr (ws, 5500)) \<and>
     sorted_wrt (\<lambda>u v. snd u < fst v) ws \<and>
     (\<forall>(a, b)\<in>set ws. a \<le> b \<and> unat b - unat a < unat (eth_get_logs_chunk_size Monad)) \<and>
     (\<Union>(a, b)\<in>set ws. {unat a..unat b}) = {unat (3000 :: u64)..unat (5500 :: u64)}"
  by (rule requests_tile_window) (simp_all add: u64_max_def)

text \<open>
  C17. Against a node whose successful answers are the chain's logs, the receives returned are
  exactly the chain's receives of the address between \<open>since_block\<close> and the confirmed
  frontier, also after a scan that stopped early.
\<close>

theorem honest_scan_exact:
  assumes "honest_provider ex ledger" and "to_block < u64_max" and "since \<le> to_block"
    and "fetch_usdc_receives L D ex now address since to_block = Some (Inr ok)"
  shows "set (fr_receives ok) =
    {r \<in> ledger_receives L D now ledger address.
       since \<le> ur_block_number r \<and> ur_block_number r \<le> fr_confirmed_frontier ok}"
  using assms by (rule live.receives_exact)

theorem honest_scan_exact_witness:
  "{sample_receive} =
    {r \<in> ledger_receives sample_alloy rat_decimals 0 sample_ledger sample_address.
       22000000 \<le> ur_block_number r \<and> ur_block_number r \<le> 22000200}"
  using honest_scan_exact [OF sample_node_honest _ _ sample_fetch] by (simp add: u64_max_def)

text \<open>
  C32. The confirmed frontier of a scan that returns \<open>Ok\<close> never passes \<open>to_block\<close> and, when
  the range is not empty, never falls behind \<open>since_block\<close>; below the last block number
  every scan returns.
\<close>

theorem scan_frontier_bounds:
  assumes "to_block < u64_max"
  shows "(\<exists>r. fetch_usdc_receives L D ex now address since to_block = Some r) \<and>
    (\<forall>ok. fetch_usdc_receives L D ex now address since to_block = Some (Inr ok) \<longrightarrow>
       fr_confirmed_frontier ok \<le> to_block \<and> (since \<le> to_block \<longrightarrow> since \<le> fr_confirmed_frontier ok))"
  using live.returns [OF assms, of L D ex now address since] live.frontier_le [OF assms]
    live.frontier_ge [OF assms] by blast

theorem scan_frontier_bounds_witness:
  "fr_confirmed_frontier \<lparr>fr_receives = [sample_receive], fr_confirmed_frontier = 22000200\<rparr> \<le> (22000200 :: u64)"
  using scan_frontier_bounds [of 22000200 sample_alloy rat_decimals sample_node 0 sample_address 22000000]
  by (simp add: sample_fetch u64_max_def)

text \<open>
  C35. At the very last block number the loop counter saturates: a scan up to \<open>u64::MAX\<close>
  whose requests all succeed never returns.
\<close>

theorem scan_to_last_block_diverges:
  assumes "al_parse_address L address = Inr a"
    and "\<forall>lo hi. \<exists>rs. fetch_receives_chunk L D ex a now lo hi = Inr rs"
  shows "fetch_usdc_receives L D ex now address since u64_max = None"
  using assms fetch_loop_diverges [OF _ refl assms(2)]
  by (cases "fetch_loop (fetch_receives_chunk L D ex a now) (eth_get_logs_chunk_size (lbe_chain ex))
        u64_max since [] None")
    (auto simp: fetch_usdc_receives_def parse_address_def)

theorem scan_to_last_block_diverges_witness:
  "fetch_usdc_receives sample_alloy rat_decimals sample_node 0 sample_address 22000000 u64_max = None"
proof (rule scan_to_last_block_diverges)
  show "al_parse_address sample_alloy sample_address = Inr sample_address"
    by (simp add: sample_alloy_def)
  show "\<forall>lo hi. \<exists>rs. fetch_receives_chunk sample_alloy rat_decimals sample_node sample_address 0 lo hi = Inr rs"
    by (simp add: fetch_receives_chunk_def sample_node_def sample_provider_def sample_log_parsed)
qed

lemma u256_to_decimal_cases:
  assumes "decimal_laws D val"
  shows "(unat raw < 2 ^ 96 \<and>
            (\<exists>q. u256_to_decimal L D raw USDC_DECIMALS = Inr q \<and> val q = of_nat (unat raw) / 10 ^ 6)) \<or>
         (2 ^ 96 \<le> unat raw \<and> unat raw < 2 ^ 128 \<and> u256_to_decimal L D raw USDC_DECIMALS = Inl Panic) \<or>
         (2 ^ 128 \<le> unat raw \<and>
            (\<exists>m. u256_to_decimal L D raw USDC_DECIMALS = Inl (AppErr (Explorer m))))"
proof (cases "unat raw < 2 ^ 128")
  case False
  then show ?thesis by (simp add: u256_to_decimal_def)
next
  case True
  note u = unat_ucast_u128 [OF True]
  show ?thesis
  proof (cases "unat raw < 2 ^ 96")
    case False
    then have "dec_from_u128 D (ucast raw) = None"
      by (intro decimal_laws_simps(3) [OF assms]) (simp add: u)
    with True False show ?thesis by (simp add: u256_to_decimal_def)
  next
    case small: True
    then have "unat (ucast raw :: u128) < 2 ^ 96" by (simp only: u)
    then obtain a where a: "dec_from_u128 D (ucast raw) = Some a" "val a = of_nat (unat raw)"
      by (rule decimal_laws_from_u128 [OF assms]) (simp add: u)
    have b: "val (dec_from_u64 D (10 ^ USDC_DECIMALS)) = 10 ^ 6"
      by (simp add: decimal_laws_simps(4) [OF assms] USDC_DECIMALS_def)
    obtain q where "dec_div D a (dec_from_u64 D (10 ^ USDC_DECIMALS)) = Some q"
      and "val q = val a / val (dec_from_u64 D (10 ^ USDC_DECIMALS))"
      by (rule decimal_laws_div [OF assms a(2) small b]) simp
    with True small a b show ?thesis by (simp add: u256_to_decimal_def)
  qed
qed

text \<open>
  C36. A token amount below \<open>2 ^ 96\<close> atoms converts to exactly its millionths; from there up to
  \<open>2 ^ 128\<close> the conversion panics; from \<open>2 ^ 128\<close> on it is an explorer error.
\<close>

theorem u256_to_decimal_ranges:
  assumes "decimal_laws D val"
  shows "(unat raw < 2 ^ 96 \<and>
            (\<exists>q. u256_to_decimal L D raw USDC_DECIMALS = Inr q \<and> val q = of_nat (unat raw) / 10 ^ 6)) \<or>
         (2 ^ 96 \<le> unat raw \<and> unat raw < 2 ^ 128 \<and> u256_to_decimal L D raw USDC_DECIMALS = Inl Panic) \<or>
         (2 ^ 128 \<le> unat raw \<and>
            (\<exists>m. u256_to_decimal L D raw USDC_DECIMALS = Inl (AppErr (Explorer m))))"
  using assms by (rule u256_to_decimal_cases)

theorem u256_to_decimal_ranges_witness:
  "\<exists>q. u256_to_decimal sample_alloy rat_decimals 500000000 USDC_DECIMALS = Inr q \<and> id q = 500"
  using u256_to_decimal_ranges [OF rat_decimals_laws, of 500000000 sample_alloy] by simp

section \<open>The text of an address\<close>

text \<open>
  What \<open>Address::from_str\<close> and the format \<open>{:#x}\<close> document: forty hex digits, with or without
  \<open>0x\<close>, in any case of letters, are an address, nothing else is, and it prints in lower case. A
  configured address has passed \<open>validate_eth_address\<close>, so a scan never stops at parsing it.
\<close>

definition address_digits :: "string \<Rightarrow> string" where
  "address_digits s = (if starts_with s ''0x'' then drop 2 s else s)"

definition is_address_text :: "string \<Rightarrow> bool" where
  "is_address_text s \<longleftrightarrow> length (address_digits s) = 40 \<and> list_all is_ascii_hexdigit (address_digits s)"

definition ascii_lowercase :: "char \<Rightarrow> char" where
  "ascii_lowercase c =
     (if 65 \<le> (of_char c :: nat) \<and> (of_char c :: nat) \<le> 90 then char_of ((of_char c :: nat) + 32) else c)"

definition address_text_laws :: "'a alloy_lib \<Rightarrow> ('a \<Rightarrow> string) \<Rightarrow> bool" where
  "address_text_laws L lower_hex \<longleftrightarrow>
     (\<forall>s. case al_parse_address L s of
        Inl e \<Rightarrow> \<not> is_address_text s
      | Inr a \<Rightarrow> is_address_text s \<and> lower_hex a = ''0x'' @ map ascii_lowercase (address_digits s))"

lemma parse_address_text:
  assumes "address_text_laws L lower_hex"
  shows "is_address_text s \<Longrightarrow> \<exists>a. parse_address L s = Inr a \<and>
      lower_hex a = ''0x'' @ map ascii_lowercase (address_digits s)"
    and "\<not> is_address_text s \<Longrightarrow> \<exists>e. parse_address L s = Inl (Explorer e)"
  using assms by (auto simp: address_text_laws_def parse_address_def split: sum.splits)

lemma validated_address_parses:
  assumes "address_text_laws L lower_hex" and "validate_eth_address s = Inr ()"
  obtains a where "parse_address L s = Inr a"
proof -
  from assms(2) have "is_address_text s"
    by (auto simp: validate_eth_address_Inr is_address_text_def address_digits_def)
  from parse_address_text(1) [OF assms(1) this] that show thesis by blast
qed

text \<open>The contract addresses are of that form, so construction panics only on a bad URL.\<close>

lemma explorers_from_text:
  assumes "address_text_laws L lower_hex"
    and "al_connect L (rpc_url c) MAX_RETRIES INITIAL_BACKOFF_MS COMPUTE_UNITS_PER_SEC \<noteq> None"
  shows "live_block_explorer_new L c \<noteq> None"
proof -
  have "validate_eth_address (usdc_contract c) = Inr ()" by (cases c) (simp_all add: validate_eth_address_def)
  then obtain a where "parse_address L (usdc_contract c) = Inr a" by (rule validated_address_parses [OF assms(1)])
  with assms(2) show ?thesis by (auto simp: live_block_explorer_new_def parse_address_def split: sum.splits)
qed

definition text_alloy :: "string alloy_lib" where
  "text_alloy = sample_alloy\<lparr>al_parse_address := (\<lambda>s.
     if is_address_text s then Inr (''0x'' @ map ascii_lowercase (address_digits s)) else Inl ''invalid address'')\<rparr>"

lemma text_alloy_laws: "address_text_laws text_alloy id"
  by (simp add: address_text_laws_def text_alloy_def)

end
