(* ===== verification/Chain_Check.thy ===== *)
theory Chain_Check
  imports Sample_World
begin

text \<open>
  The per-chain deposit check, \<open>ChainResult\<close> and \<open>ChainDepositCheck\<close> of
  \<open>src/src/orchestrator.rs\<close>: the monoid of scan results, the eligibility filter, the scan of
  one address, and the run over all configured addresses.
\<close>

section \<open>Constants\<close>

text \<open>\<open>USDC_DUST_THRESHOLD\<close> is \<open>dec!(1.0)\<close>.\<close>

definition USDC_DUST_THRESHOLD :: "'d decimal_lib \<Rightarrow> 'd" where
  "USDC_DUST_THRESHOLD D = dec_literal D 10 1"

definition CHAIN_STALE_THRESHOLD_HOURS :: int where
  "CHAIN_STALE_THRESHOLD_HOURS = 6"

section \<open>\<open>ChainResult\<close>, a monoid\<close>

datatype chain_result =
  ChainResult (cr_processed_tx_hashes: "string list") (cr_confirmed_frontier: "u64 option")
    (cr_errors: "string list")

definition chain_result_EMPTY :: chain_result where
  "chain_result_EMPTY = ChainResult [] (Some u64_max) []"

definition chain_result_add :: "chain_result \<Rightarrow> chain_result \<Rightarrow> chain_result" where
  "chain_result_add self rhs =
     ChainResult (cr_processed_tx_hashes self @ cr_processed_tx_hashes rhs)
       (Option.bind (cr_confirmed_frontier self)
          (\<lambda>a. map_option (\<lambda>b. min a b) (cr_confirmed_frontier rhs)))
       (cr_errors self @ cr_errors rhs)"

instantiation chain_result :: monoid_add
begin

definition zero_chain_result :: chain_result where
  "zero_chain_result = chain_result_EMPTY"

definition plus_chain_result :: "chain_result \<Rightarrow> chain_result \<Rightarrow> chain_result" where
  "plus_chain_result = chain_result_add"

instance
proof
  fix a b c :: chain_result
  show "a + b + c = a + (b + c)"
    by (cases "cr_confirmed_frontier a"; cases "cr_confirmed_frontier b"; cases "cr_confirmed_frontier c")
      (simp_all add: plus_chain_result_def chain_result_add_def min.assoc)
  show "0 + a = a"
    by (cases a; cases "cr_confirmed_frontier a")
      (simp_all add: plus_chain_result_def chain_result_add_def zero_chain_result_def chain_result_EMPTY_def min_absorb2)
  show "a + 0 = a"
    by (cases a; cases "cr_confirmed_frontier a")
      (simp_all add: plus_chain_result_def chain_result_add_def zero_chain_result_def chain_result_EMPTY_def min_absorb1)
qed

end

lemmas chain_result_zero = zero_chain_result_def [unfolded chain_result_EMPTY_def]

lemma chain_result_plus:
  "a + b = ChainResult (cr_processed_tx_hashes a @ cr_processed_tx_hashes b)
     (Option.bind (cr_confirmed_frontier a) (\<lambda>f. map_option (\<lambda>g. min f g) (cr_confirmed_frontier b)))
     (cr_errors a @ cr_errors b)"
  by (simp add: plus_chain_result_def chain_result_add_def)

text \<open>\<open>ChainResult::EMPTY\<close> is the class's \<open>0\<close>, \<open>Add::add\<close> its \<open>+\<close>, \<open>Sum::sum\<close> a left fold.\<close>

definition chain_result_sum :: "chain_result list \<Rightarrow> chain_result" where
  "chain_result_sum rs = foldl (+) 0 rs"

definition latest_seen_block :: "chain_result \<Rightarrow> u64 option" where
  "latest_seen_block r =
     Option.bind (cr_confirmed_frontier r) (\<lambda>b. if b \<noteq> u64_max then Some b else None)"

section \<open>The check of one chain\<close>

text \<open>
  What a run reads from outside besides the explorer: the clock where staleness is asked
  (after a failed block height; after the failed fetch of address \<open>i\<close>) and where a deposit is
  stamped, and whether the channel takes the deposit (it refuses only when the receiver is gone).
\<close>

record scan_world =
  sw_now_height :: datetime
  sw_now_fetch :: "nat \<Rightarrow> datetime"
  sw_processed_at :: "nat \<Rightarrow> nat \<Rightarrow> datetime"
  sw_send_ok :: "nat \<Rightarrow> nat \<Rightarrow> bool"

record 'd chain_deposit_check =
  cc_config :: "'d crypto_sweep_config"
  cc_state :: "'d persisted_state"
  cc_explorer :: "'d block_explorer"
  cc_chain :: chain

definition is_chain_stale :: "'d chain_deposit_check \<Rightarrow> datetime \<Rightarrow> bool" where
  "is_chain_stale cc now =
     (case st_last_seen_block (cc_state cc) (cc_chain cc) of
        None \<Rightarrow> True
      | Some lsb \<Rightarrow> now - lsb_updated_at lsb > duration_hours CHAIN_STALE_THRESHOLD_HOURS)"

text \<open>\<open>Some d\<close> for a deposit \<open>d\<close> put on the channel (the source returns \<open>true\<close>), else \<open>None\<close>.\<close>

definition send_if_eligible ::
  "'d decimal_lib \<Rightarrow> 'd chain_deposit_check \<Rightarrow> string \<Rightarrow> string \<Rightarrow> u64 \<Rightarrow> 'd usdc_receive \<Rightarrow>
   string set \<Rightarrow> datetime \<Rightarrow> bool \<Rightarrow> 'd eligible_deposit option" where
  "send_if_eligible D cc address payment_method_id current_block receive scan_dedup now send_ok =
     (if dec_lt D (ur_amount receive) (USDC_DUST_THRESHOLD D) then None
      else if ur_tx_hash receive \<in> st_processed_tx_hashes (cc_state cc) \<or>
              ur_tx_hash receive \<in> scan_dedup then None
      else let required_confirmations = confirmation_blocks_for (cc_config cc) (cc_chain cc);
               confirmations = sat_sub current_block (ur_block_number receive)
           in if confirmations < required_confirmations then None
              else let deposit = \<lparr>ed_deposit_address = address, ed_chain = cc_chain cc,
                                  ed_tx_hash = ur_tx_hash receive, ed_usdc_amount = ur_amount receive,
                                  ed_payment_method_id = payment_method_id,
                                  ed_deposit_timestamp = ur_fetched_at receive,
                                  ed_processed_at = now\<rparr>
                   in if send_ok then Some deposit else None)"

text \<open>
  The \<open>for receive in &fetch.receives\<close> loop from the \<open>j\<close>-th receive of address \<open>i\<close> on:
  the hashes pushed to the result and the deposits put on the channel, in order.
\<close>

fun scan_receives ::
  "'d decimal_lib \<Rightarrow> 'd chain_deposit_check \<Rightarrow> scan_world \<Rightarrow> nat \<Rightarrow> string \<Rightarrow> string \<Rightarrow> u64 \<Rightarrow> nat \<Rightarrow>
   string set \<Rightarrow> 'd usdc_receive list \<Rightarrow> string list \<times> 'd eligible_deposit list" where
  "scan_receives D cc w i address pm current_block j scan_dedup [] = ([], [])"
| "scan_receives D cc w i address pm current_block j scan_dedup (receive # rs) =
     (case send_if_eligible D cc address pm current_block receive scan_dedup
             (sw_processed_at w i j) (sw_send_ok w i j) of
        None \<Rightarrow> scan_receives D cc w i address pm current_block (Suc j) scan_dedup rs
      | Some d \<Rightarrow>
          (case scan_receives D cc w i address pm current_block (Suc j)
                  (insert (ur_tx_hash receive) scan_dedup) rs of
             (hs, ds) \<Rightarrow> (ur_tx_hash receive # hs, d # ds)))"

definition address_scan ::
  "'d decimal_lib \<Rightarrow> 'd chain_deposit_check \<Rightarrow> scan_world \<Rightarrow> nat \<Rightarrow> string \<Rightarrow> string \<Rightarrow> u64 \<Rightarrow> u64 \<Rightarrow>
   (chain_result \<times> 'd eligible_deposit list) option" where
  "address_scan D cc w i address pm since_block current_block =
     (case be_fetch_usdc_receives (cc_explorer cc) i address since_block current_block of
        None \<Rightarrow> None
      | Some (Inl e) \<Rightarrow>
          (if is_chain_stale cc (sw_now_fetch w i)
           then Some (ChainResult [] None
                  [chain_to_string (cc_chain cc) @ '': fetch receives failed for '' @ address @ '': '' @
                   app_error_to_string e], [])
           else Some (ChainResult [] None [], []))
      | Some (Inr fetch) \<Rightarrow>
          (let (hashes, deposits) =
                 scan_receives D cc w i address pm current_block 0 {} (fr_receives fetch);
               confirmation_floor =
                 sat_sub current_block (confirmation_blocks_for (cc_config cc) (cc_chain cc))
           in Some (ChainResult hashes (Some (min (fr_confirmed_frontier fetch) confirmation_floor)) [],
                    deposits)))"

text \<open>The window start: the persisted block, else the configured one.\<close>

definition since_block_of :: "'d chain_deposit_check \<Rightarrow> u64 option" where
  "since_block_of cc =
     (case st_last_seen_block (cc_state cc) (cc_chain cc) of
        Some lsb \<Rightarrow> Some (lsb_block_number lsb)
      | None \<Rightarrow> start_block_for (cc_config cc) (cc_chain cc))"

fun address_scans ::
  "'d decimal_lib \<Rightarrow> 'd chain_deposit_check \<Rightarrow> scan_world \<Rightarrow> u64 \<Rightarrow> u64 \<Rightarrow> nat \<Rightarrow>
   deposit_address_config list \<Rightarrow> (chain_result \<times> 'd eligible_deposit list) list option" where
  "address_scans D cc w since_block current_block i [] = Some []"
| "address_scans D cc w since_block current_block i (dc # dcs) =
     (case address_scan D cc w i (dac_address dc) (dac_payment_method_id dc) since_block current_block of
        None \<Rightarrow> None
      | Some r \<Rightarrow> map_option ((#) r) (address_scans D cc w since_block current_block (Suc i) dcs))"

text \<open>
  \<open>ChainDepositCheck::run\<close>: the chain's result and, per address, the deposits put on the
  channel. \<open>None\<close> when an explorer call does not return.
\<close>

definition chain_run ::
  "'d decimal_lib \<Rightarrow> 'd chain_deposit_check \<Rightarrow> scan_world \<Rightarrow>
   (chain_result \<times> 'd eligible_deposit list list) option" where
  "chain_run D cc w =
     (case be_get_block_height (cc_explorer cc) of
        None \<Rightarrow> None
      | Some (Inl e) \<Rightarrow>
          (if is_chain_stale cc (sw_now_height w)
           then Some (ChainResult [] None
                  [chain_to_string (cc_chain cc) @ '': block height failed: '' @ app_error_to_string e], [])
           else Some (ChainResult [] None [], []))
      | Some (Inr current_block) \<Rightarrow>
          (case since_block_of cc of
             None \<Rightarrow> Some (ChainResult [] None [], [])
           | Some since_block \<Rightarrow>
               map_option (\<lambda>rs. (chain_result_sum (map fst rs), map snd rs))
                 (address_scans D cc w since_block current_block 0
                    (cfg_deposit_addresses (cc_config cc)))))"

text \<open>
  The same run seen before it ends: \<open>None\<close> while the block height is outstanding, else which
  fetches have returned. What each address has for the channel by then; an explorer call that
  never returns leaves its address with nothing, whatever the others do.
\<close>

type_synonym scan_progress = "(nat \<Rightarrow> bool) option"

fun scans_send ::
  "'d decimal_lib \<Rightarrow> 'd chain_deposit_check \<Rightarrow> scan_world \<Rightarrow> (nat \<Rightarrow> bool) \<Rightarrow> u64 \<Rightarrow> u64 \<Rightarrow> nat \<Rightarrow>
   deposit_address_config list \<Rightarrow> 'd eligible_deposit list list" where
  "scans_send D cc w returned since_block current_block i [] = []"
| "scans_send D cc w returned since_block current_block i (dc # dcs) =
     (case (if returned i
            then address_scan D cc w i (dac_address dc) (dac_payment_method_id dc) since_block current_block
            else None) of
        None \<Rightarrow> []
      | Some (res, ds) \<Rightarrow> ds) # scans_send D cc w returned since_block current_block (Suc i) dcs"

definition chain_sends ::
  "'d decimal_lib \<Rightarrow> 'd chain_deposit_check \<Rightarrow> scan_world \<Rightarrow> scan_progress \<Rightarrow> 'd eligible_deposit list list" where
  "chain_sends D cc w progress =
     (case progress of
        None \<Rightarrow> []
      | Some returned \<Rightarrow>
          (case be_get_block_height (cc_explorer cc) of
             Some (Inr current_block) \<Rightarrow>
               (case since_block_of cc of
                  None \<Rightarrow> []
                | Some since_block \<Rightarrow>
                    scans_send D cc w returned since_block current_block 0 (cfg_deposit_addresses (cc_config cc)))
           | _ \<Rightarrow> []))"

section \<open>Lemmas\<close>

subsection \<open>The monoid\<close>

lemma foldl_plus_sum_list: "foldl (+) (a :: 'a::monoid_add) rs = a + sum_list rs"
  by (induction rs arbitrary: a) (simp_all add: add.assoc)

lemma chain_result_sum_eq: "chain_result_sum rs = sum_list rs"
  by (simp add: chain_result_sum_def foldl_plus_sum_list)

lemma chain_result_sum_simps [simp]:
  "cr_processed_tx_hashes (chain_result_sum rs) = concat (map cr_processed_tx_hashes rs)"
  "cr_errors (chain_result_sum rs) = concat (map cr_errors rs)"
  by (induction rs)
    (simp_all add: chain_result_sum_eq chain_result_zero chain_result_plus)

lemma chain_result_sum_Cons: "chain_result_sum (r # rs) = r + chain_result_sum rs"
  by (simp add: chain_result_sum_eq)

lemma chain_result_sum_frontier:
  "cr_confirmed_frontier (chain_result_sum rs) =
     (if \<exists>r\<in>set rs. cr_confirmed_frontier r = None then None
      else Some (Min (insert u64_max ((\<lambda>r. the (cr_confirmed_frontier r)) ` set rs))))"
proof (induction rs)
  case Nil
  then show ?case by (simp add: chain_result_sum_def chain_result_zero)
next
  case (Cons r rs)
  show ?case
  proof (cases "cr_confirmed_frontier r")
    case None
    then show ?thesis by (simp add: chain_result_sum_Cons chain_result_plus)
  next
    case (Some f)
    have "Min (insert u64_max (insert f S)) = min f (Min (insert u64_max S))" if "finite S" for S
      using that by (simp add: insert_commute [of u64_max f])
    with Some Cons.IH show ?thesis
      by (simp add: chain_result_sum_Cons chain_result_plus)
  qed
qed

lemma chain_result_sum_frontier_le:
  assumes "cr_confirmed_frontier (chain_result_sum rs) = Some f" and "r \<in> set rs"
  shows "\<exists>g. cr_confirmed_frontier r = Some g \<and> f \<le> g"
proof -
  from assms have n: "\<forall>r\<in>set rs. cr_confirmed_frontier r \<noteq> None"
    and f: "f = Min (insert u64_max ((\<lambda>r. the (cr_confirmed_frontier r)) ` set rs))"
    by (auto simp: chain_result_sum_frontier split: if_splits)
  from n assms(2) obtain g where g: "cr_confirmed_frontier r = Some g" by blast
  have "f \<le> the (cr_confirmed_frontier r)"
    unfolding f by (rule Min_le) (use assms(2) in auto)
  with g show ?thesis by simp
qed

lemma latest_seen_block_Some:
  "latest_seen_block r = Some b \<longleftrightarrow> cr_confirmed_frontier r = Some b \<and> b \<noteq> u64_max"
  by (auto simp: latest_seen_block_def split: Option.bind_splits if_splits)

subsection \<open>The filter\<close>

definition eligible :: "'d decimal_lib \<Rightarrow> 'd chain_deposit_check \<Rightarrow> u64 \<Rightarrow> 'd usdc_receive \<Rightarrow> bool" where
  "eligible D cc current_block r \<longleftrightarrow>
     \<not> dec_lt D (ur_amount r) (USDC_DUST_THRESHOLD D) \<and>
     ur_tx_hash r \<notin> st_processed_tx_hashes (cc_state cc) \<and>
     confirmation_blocks_for (cc_config cc) (cc_chain cc) \<le> sat_sub current_block (ur_block_number r)"

lemma send_if_eligible_Some [scan_simps]:
  "send_if_eligible D cc address pm current_block r dedup now ok = Some d \<longleftrightarrow>
     eligible D cc current_block r \<and> ur_tx_hash r \<notin> dedup \<and> ok \<and>
     d = \<lparr>ed_deposit_address = address, ed_chain = cc_chain cc, ed_tx_hash = ur_tx_hash r,
          ed_usdc_amount = ur_amount r, ed_payment_method_id = pm,
          ed_deposit_timestamp = ur_fetched_at r, ed_processed_at = now\<rparr>"
  by (auto simp: send_if_eligible_def eligible_def Let_def not_less)

lemma send_if_eligible_None:
  "send_if_eligible D cc address pm current_block r dedup now ok = None \<longleftrightarrow>
     \<not> (eligible D cc current_block r \<and> ur_tx_hash r \<notin> dedup \<and> ok)"
  by (auto simp: send_if_eligible_def eligible_def Let_def not_less)

subsection \<open>The scan of one address\<close>

lemma scan_receives_hashes:
  "scan_receives D cc w i address pm cur j dedup rs = (hs, ds) \<Longrightarrow> hs = map ed_tx_hash ds"
  by (induction rs arbitrary: j dedup hs ds)
    (auto simp: send_if_eligible_Some split: option.splits prod.splits)

lemma scan_receives_sound:
  "scan_receives D cc w i address pm cur j dedup rs = (hs, ds) \<Longrightarrow> d \<in> set ds \<Longrightarrow>
   \<exists>r\<in>set rs. eligible D cc cur r \<and> ed_tx_hash d = ur_tx_hash r \<and> ed_usdc_amount d = ur_amount r \<and>
     ed_deposit_address d = address \<and> ed_payment_method_id d = pm \<and> ed_chain d = cc_chain cc"
  by (induction rs arbitrary: j dedup hs ds)
    (auto simp: send_if_eligible_Some split: option.splits prod.splits)

lemma scan_receives_distinct:
  "scan_receives D cc w i address pm cur j dedup rs = (hs, ds) \<Longrightarrow>
   distinct hs \<and> set hs \<inter> dedup = {}"
proof (induction rs arbitrary: j dedup hs ds)
  case Nil
  then show ?case by simp
next
  case (Cons r rs)
  show ?case
  proof (cases "send_if_eligible D cc address pm cur r dedup (sw_processed_at w i j) (sw_send_ok w i j)")
    case None
    with Cons show ?thesis by auto
  next
    case (Some d)
    obtain hs' ds' where rec: "scan_receives D cc w i address pm cur (Suc j) (insert (ur_tx_hash r) dedup) rs = (hs', ds')"
      by fastforce
    from Cons.IH [OF rec] Cons.prems Some rec show ?thesis
      by (auto simp: send_if_eligible_Some)
  qed
qed

lemma scan_receives_complete:
  "scan_receives D cc w i address pm cur j dedup rs = (hs, ds) \<Longrightarrow> \<forall>k. sw_send_ok w i k \<Longrightarrow>
   r \<in> set rs \<Longrightarrow> eligible D cc cur r \<Longrightarrow> ur_tx_hash r \<in> dedup \<union> set hs"
  by (induction rs arbitrary: j dedup hs ds)
    (fastforce simp: send_if_eligible_Some send_if_eligible_None split: option.splits prod.splits)+

lemma address_scan_Some:
  assumes "address_scan D cc w i address pm since cur = Some (res, ds)"
  obtains (failed) e where "be_fetch_usdc_receives (cc_explorer cc) i address since cur = Some (Inl e)"
      and "ds = []" and "cr_confirmed_frontier res = None" and "cr_processed_tx_hashes res = []"
  | (fetched) fetch where "be_fetch_usdc_receives (cc_explorer cc) i address since cur = Some (Inr fetch)"
      and "scan_receives D cc w i address pm cur 0 {} (fr_receives fetch) =
             (cr_processed_tx_hashes res, ds)"
      and "cr_confirmed_frontier res = Some (min (fr_confirmed_frontier fetch)
             (sat_sub cur (confirmation_blocks_for (cc_config cc) (cc_chain cc))))"
      and "cr_errors res = []"
  using assms
  by (auto simp: address_scan_def Let_def split: option.splits sum.splits if_splits prod.splits)

lemma confirmed_below_frontier:
  assumes "cr_confirmed_frontier res = Some f"
    and "f \<le> sat_sub cur c" and "b < f"
  shows "c \<le> sat_sub cur b"
  using assms(2,3) less_sat_sub_confirmed [of b cur c] by (meson order_less_le_trans)

subsection \<open>All addresses of a chain\<close>

lemma address_scans_nth:
  assumes "address_scans D cc w since cur i dcs = Some rs"
  shows "length rs = length dcs \<and>
    (\<forall>k<length dcs. address_scan D cc w (i + k) (dac_address (dcs ! k)) (dac_payment_method_id (dcs ! k))
       since cur = Some (rs ! k))"
  using assms
proof (induction dcs arbitrary: i rs)
  case Nil
  then show ?case by simp
next
  case (Cons dc dcs)
  from Cons.prems obtain r rs' where rs: "rs = r # rs'"
    and r: "address_scan D cc w i (dac_address dc) (dac_payment_method_id dc) since cur = Some r"
    and rs': "address_scans D cc w since cur (Suc i) dcs = Some rs'"
    by (auto split: option.splits)
  from Cons.IH [OF rs'] r rs show ?case
    by (auto simp: nth_Cons split: nat.splits)
qed

lemma address_scans_elem:
  assumes "address_scans D cc w since cur i dcs = Some rs" and "x \<in> set rs"
  obtains k dc where "dc \<in> set dcs"
    and "address_scan D cc w k (dac_address dc) (dac_payment_method_id dc) since cur = Some x"
proof -
  from assms address_scans_nth [OF assms(1)] obtain k where "k < length dcs" "x = rs ! k"
    and "address_scan D cc w (i + k) (dac_address (dcs ! k)) (dac_payment_method_id (dcs ! k)) since cur = Some (rs ! k)"
    by (metis in_set_conv_nth)
  then show thesis by (intro that [of "dcs ! k" "i + k"]) auto
qed

lemma chain_run_Some:
  assumes "chain_run D cc w = Some (res, dss)"
  obtains (height_failed) e where "be_get_block_height (cc_explorer cc) = Some (Inl e)"
      and "dss = []" and "cr_confirmed_frontier res = None" and "cr_processed_tx_hashes res = []"
  | (no_start) cur where "be_get_block_height (cc_explorer cc) = Some (Inr cur)"
      and "since_block_of cc = None" and "dss = []" and "res = ChainResult [] None []"
  | (scanned) cur since rs where "be_get_block_height (cc_explorer cc) = Some (Inr cur)"
      and "since_block_of cc = Some since"
      and "address_scans D cc w since cur 0 (cfg_deposit_addresses (cc_config cc)) = Some rs"
      and "res = chain_result_sum (map fst rs)" and "dss = map snd rs"
  using assms
  by (auto simp: chain_run_def split: option.splits sum.splits if_splits)

subsection \<open>The scanned case, address by address\<close>

lemma address_scans_hashes:
  assumes "address_scans D cc w since cur i dcs = Some rs"
  shows "concat (map (\<lambda>r. cr_processed_tx_hashes (fst r)) rs) = map ed_tx_hash (concat (map snd rs))"
  using assms
proof (induction dcs arbitrary: i rs)
  case Nil
  then show ?case by simp
next
  case (Cons dc dcs)
  from Cons.prems obtain res ds rs' where rs: "rs = (res, ds) # rs'"
    and r: "address_scan D cc w i (dac_address dc) (dac_payment_method_id dc) since cur = Some (res, ds)"
    and rs': "address_scans D cc w since cur (Suc i) dcs = Some rs'"
    by (auto split: option.splits)
  from r have "cr_processed_tx_hashes res = map ed_tx_hash ds"
    by (rule address_scan_Some) (simp_all add: scan_receives_hashes)
  with Cons.IH [OF rs'] rs show ?case by simp
qed

lemma chain_run_hashes:
  assumes "chain_run D cc w = Some (res, dss)"
  shows "cr_processed_tx_hashes res = map ed_tx_hash (concat dss)"
  using assms
  by (rule chain_run_Some) (simp_all add: comp_def address_scans_hashes)

lemma chain_run_scanned:
  assumes run: "chain_run D cc w = Some (res, dss)"
    and height: "be_get_block_height (cc_explorer cc) = Some (Inr cur)"
    and since: "since_block_of cc = Some since"
  obtains rs where "res = chain_result_sum (map fst rs)" and "dss = map snd rs"
    and "length rs = length (cfg_deposit_addresses (cc_config cc))"
    and "\<forall>k<length rs.
      address_scan D cc w k (dac_address (cfg_deposit_addresses (cc_config cc) ! k))
        (dac_payment_method_id (cfg_deposit_addresses (cc_config cc) ! k)) since cur = Some (rs ! k)"
proof -
  from run show thesis
  proof (cases rule: chain_run_Some)
    case (scanned cur' since' rs)
    with height since have eq: "cur' = cur" "since' = since" by simp_all
    note nth = address_scans_nth [OF scanned(3) [unfolded eq]]
    show thesis by (rule that [of rs]) (use nth scanned(4,5) in simp_all)
  qed (use height since in simp_all)
qed

lemma chain_run_frontier:
  assumes "chain_run D cc w = Some (res, dss)"
    and "be_get_block_height (cc_explorer cc) = Some (Inr cur)" and "since_block_of cc = Some since"
    and f: "cr_confirmed_frontier res = Some f"
    and k: "k < length (cfg_deposit_addresses (cc_config cc))"
  obtains fetch hs where
    "be_fetch_usdc_receives (cc_explorer cc) k (dac_address (cfg_deposit_addresses (cc_config cc) ! k)) since cur =
       Some (Inr fetch)"
    and "f \<le> fr_confirmed_frontier fetch"
    and "f \<le> sat_sub cur (confirmation_blocks_for (cc_config cc) (cc_chain cc))"
    and "scan_receives D cc w k (dac_address (cfg_deposit_addresses (cc_config cc) ! k))
       (dac_payment_method_id (cfg_deposit_addresses (cc_config cc) ! k)) cur 0 {} (fr_receives fetch) = (hs, dss ! k)"
    and "set hs \<subseteq> set (cr_processed_tx_hashes res)"
proof -
  obtain rs where rs: "res = chain_result_sum (map fst rs)" "dss = map snd rs"
      "length rs = length (cfg_deposit_addresses (cc_config cc))"
    and scan: "\<forall>k<length rs.
      address_scan D cc w k (dac_address (cfg_deposit_addresses (cc_config cc) ! k))
        (dac_payment_method_id (cfg_deposit_addresses (cc_config cc) ! k)) since cur = Some (rs ! k)"
    by (rule chain_run_scanned [OF assms(1-3)])
  obtain r ds where rk: "rs ! k = (r, ds)" by fastforce
  have el: "r \<in> set (map fst rs)" using k rs(3) rk by (metis fst_conv image_eqI list.set_map nth_mem)
  from chain_result_sum_frontier_le [OF f [unfolded rs(1)] el] obtain g where
    g: "cr_confirmed_frontier r = Some g" "f \<le> g" by blast
  have sk: "address_scan D cc w k (dac_address (cfg_deposit_addresses (cc_config cc) ! k))
      (dac_payment_method_id (cfg_deposit_addresses (cc_config cc) ! k)) since cur = Some (r, ds)"
    using scan k rs(3) rk by simp
  have sub: "set (cr_processed_tx_hashes r) \<subseteq> set (cr_processed_tx_hashes res)"
    using el rs(1) by auto
  have dk: "dss ! k = ds" using k rs(2,3) rk by simp
  from sk show thesis
  proof (cases rule: address_scan_Some)
    case (failed e)
    with g show thesis by simp
  next
    case (fetched fetch)
    show thesis
      by (rule that [OF fetched(1) _ _ fetched(2) [folded dk] sub]) (use fetched(3) g in simp_all)
  qed
qed

text \<open>What the frontier has passed is either processed or was sent.\<close>

lemma chain_run_covers:
  assumes run: "chain_run D cc w = Some (res, dss)"
    and height: "be_get_block_height (cc_explorer cc) = Some (Inr cur)"
    and since: "since_block_of cc = Some since"
    and sends: "\<And>i j. sw_send_ok w i j"
    and f: "cr_confirmed_frontier res = Some f" and b: "ur_block_number r < f"
    and k: "k < length (cfg_deposit_addresses (cc_config cc))"
    and exact: "\<And>fetch. be_fetch_usdc_receives (cc_explorer cc) k
        (dac_address (cfg_deposit_addresses (cc_config cc) ! k)) since cur = Some (Inr fetch) \<Longrightarrow>
        ur_block_number r \<le> fr_confirmed_frontier fetch \<Longrightarrow> r \<in> set (fr_receives fetch)"
    and dust: "\<not> dec_lt D (ur_amount r) (USDC_DUST_THRESHOLD D)"
  shows "ur_tx_hash r \<in> st_processed_tx_hashes (cc_state cc) \<union> set (cr_processed_tx_hashes res)"
proof -
  obtain fetch hs where fetch: "be_fetch_usdc_receives (cc_explorer cc) k
      (dac_address (cfg_deposit_addresses (cc_config cc) ! k)) since cur = Some (Inr fetch)"
    and le: "f \<le> fr_confirmed_frontier fetch"
      "f \<le> sat_sub cur (confirmation_blocks_for (cc_config cc) (cc_chain cc))"
    and scan: "scan_receives D cc w k (dac_address (cfg_deposit_addresses (cc_config cc) ! k))
       (dac_payment_method_id (cfg_deposit_addresses (cc_config cc) ! k)) cur 0 {} (fr_receives fetch) = (hs, dss ! k)"
    and sub: "set hs \<subseteq> set (cr_processed_tx_hashes res)"
    by (rule chain_run_frontier [OF run height since f k])
  have r: "r \<in> set (fr_receives fetch)" using exact [OF fetch] b le(1) by simp
  have conf: "confirmation_blocks_for (cc_config cc) (cc_chain cc) \<le> sat_sub cur (ur_block_number r)"
    using less_sat_sub_confirmed b le(2) by (meson order_less_le_trans)
  show ?thesis
  proof (cases "ur_tx_hash r \<in> st_processed_tx_hashes (cc_state cc)")
    case False
    with dust conf have "eligible D cc cur r" by (simp add: eligible_def)
    with scan_receives_complete [OF scan _ r] sends sub show ?thesis by blast
  qed simp
qed

text \<open>A run that ends has sent what all its scans send.\<close>

lemma scans_send_all:
  "address_scans D cc w since cur i dcs = Some rs \<Longrightarrow>
   scans_send D cc w (\<lambda>_. True) since cur i dcs = map snd rs"
  by (induction dcs arbitrary: i rs) (auto split: option.splits)

lemma chain_sends_all:
  assumes "chain_run D cc w = Some (res, dss)"
  shows "chain_sends D cc w (Some (\<lambda>_. True)) = dss"
  using assms by (rule chain_run_Some) (simp_all add: chain_sends_def scans_send_all)

lemma scans_send_elem:
  assumes "ds \<in> set (scans_send D cc w returned since cur i dcs)" and "d \<in> set ds"
  obtains k dc res where "dc \<in> set dcs"
    and "address_scan D cc w k (dac_address dc) (dac_payment_method_id dc) since cur = Some (res, ds)"
proof -
  have "\<exists>k dc res. dc \<in> set dcs \<and>
      address_scan D cc w k (dac_address dc) (dac_payment_method_id dc) since cur = Some (res, ds)"
    using assms
  proof (induction dcs arbitrary: i)
    case (Cons dc dcs)
    from Cons.prems(1) consider
      (here) "ds = (case (if returned i
            then address_scan D cc w i (dac_address dc) (dac_payment_method_id dc) since cur
            else None) of None \<Rightarrow> [] | Some (res, ds) \<Rightarrow> ds)"
      | (later) "ds \<in> set (scans_send D cc w returned since cur (Suc i) dcs)" by auto
    then show ?case
    proof cases
      case here
      with Cons.prems(2) show ?thesis by (auto split: if_splits option.splits)
    next
      case later
      from Cons.IH [OF this Cons.prems(2)] show ?thesis by auto
    qed
  qed simp
  with that show thesis by blast
qed

text \<open>Where a deposit on the channel comes from, whether the run ends or not.\<close>

lemma chain_sends_receive:
  assumes "ds \<in> set (chain_sends D cc w progress)" and "d \<in> set ds"
  shows "\<exists>dc cur fetch r i since. dc \<in> set (cfg_deposit_addresses (cc_config cc)) \<and>
    be_get_block_height (cc_explorer cc) = Some (Inr cur) \<and>
    be_fetch_usdc_receives (cc_explorer cc) i (dac_address dc) since cur = Some (Inr fetch) \<and>
    r \<in> set (fr_receives fetch) \<and>
    \<not> dec_lt D (ur_amount r) (dec_literal D 10 1) \<and>
    ur_tx_hash r \<notin> st_processed_tx_hashes (cc_state cc) \<and>
    confirmation_blocks_for (cc_config cc) (cc_chain cc) \<le> sat_sub cur (ur_block_number r) \<and>
    ed_tx_hash d = ur_tx_hash r \<and> ed_usdc_amount d = ur_amount r \<and> ed_chain d = cc_chain cc \<and>
    ed_deposit_address d = dac_address dc \<and> ed_payment_method_id d = dac_payment_method_id dc"
proof -
  from assms(1) obtain returned cur since where cur: "be_get_block_height (cc_explorer cc) = Some (Inr cur)"
    and ds: "ds \<in> set (scans_send D cc w returned since cur 0 (cfg_deposit_addresses (cc_config cc)))"
    by (auto simp: chain_sends_def split: option.splits sum.splits) metis
  obtain i dc res where dc: "dc \<in> set (cfg_deposit_addresses (cc_config cc))"
    and scan: "address_scan D cc w i (dac_address dc) (dac_payment_method_id dc) since cur = Some (res, ds)"
    by (rule scans_send_elem [OF ds assms(2)])
  from scan show ?thesis
  proof (cases rule: address_scan_Some)
    case (failed e)
    with assms(2) show ?thesis by simp
  next
    case (fetched fetch)
    from scan_receives_sound [OF fetched(2) assms(2)] obtain r where "r \<in> set (fr_receives fetch)"
      "eligible D cc cur r" "ed_tx_hash d = ur_tx_hash r" "ed_usdc_amount d = ur_amount r"
      "ed_deposit_address d = dac_address dc" "ed_payment_method_id d = dac_payment_method_id dc"
      "ed_chain d = cc_chain cc" by blast
    with dc cur fetched(1) show ?thesis
      by (intro exI [of _ dc] exI [of _ cur] exI [of _ fetch] exI [of _ r] exI [of _ i] exI [of _ since])
        (simp add: eligible_def USDC_DUST_THRESHOLD_def)
  qed
qed

lemma chain_run_sends:
  "chain_run D cc w = Some (res, dss) \<Longrightarrow> ds \<in> set dss \<Longrightarrow> ds \<in> set (chain_sends D cc w (Some (\<lambda>_. True)))"
  by (simp add: chain_sends_all)

lemmas chain_run_sound_receive = chain_sends_receive [OF chain_run_sends]

lemma chain_run_sound:
  assumes "chain_run D cc w = Some (res, dss)" and "ds \<in> set dss" and "d \<in> set ds"
  shows "ed_tx_hash d \<notin> st_processed_tx_hashes (cc_state cc)"
  using chain_run_sound_receive [OF assms] by (elim exE conjE) simp

section \<open>Properties of the chain check\<close>

text \<open>
  The sample chain: Ethereum at block 22000200, with one confirmed receive of 500 USDC, one
  of half a USDC and one that is not confirmed yet.
\<close>

definition sample_explorer :: "rat block_explorer" where
  "sample_explorer =
     \<lparr>be_get_block_height = Some (Inr 22000200),
      be_fetch_usdc_receives = (\<lambda>i a s t. Some (Inr
        \<lparr>fr_receives = [sample_receive, sample_receive\<lparr>ur_tx_hash := ''0xd'', ur_amount := 1 / 2\<rparr>,
                        sample_receive\<lparr>ur_tx_hash := ''0xe'', ur_block_number := 22000190\<rparr>],
         fr_confirmed_frontier = t\<rparr>))\<rparr>"

definition sample_check :: "rat chain_deposit_check" where
  "sample_check = \<lparr>cc_config = sample_config, cc_state = default_state, cc_explorer = sample_explorer,
                   cc_chain = Ethereum\<rparr>"

definition sample_scan_world :: scan_world where
  "sample_scan_world = \<lparr>sw_now_height = 0, sw_now_fetch = (\<lambda>_. 0), sw_processed_at = (\<lambda>_ _. 0),
                        sw_send_ok = (\<lambda>_ _. True)\<rparr>"

lemma sample_chain_run:
  "chain_run rat_decimals sample_check sample_scan_world =
     Some (ChainResult [sample_hash] (Some 22000180) [], [[sample_deposit]])"
  by (simp add: chain_run_def sample_check_def sample_explorer_def sample_scan_world_def since_block_of_def
      default_state_def start_block_for_def sample_config_def address_scan_def send_if_eligible_def
      USDC_DUST_THRESHOLD_def confirmation_blocks_for_def sat_sub_def Let_def sample_receive_def
      chain_result_sum_def chain_result_zero chain_result_plus sample_deposit_def sample_hash_def
      u64_max_def)

text \<open>
  C19. Whatever a chain check puts on the channel comes from a receive the explorer returned for
  that address and is at least one USDC, not in the persisted dedup set, and confirmed by the
  configured depth; it keeps the receive's hash and amount and goes to the payment method of its
  address.
\<close>

theorem sent_deposits_are_eligible:
  assumes "chain_run D cc w = Some (res, dss)" and "ds \<in> set dss" and "d \<in> set ds"
  shows "\<exists>dc cur fetch r i since. dc \<in> set (cfg_deposit_addresses (cc_config cc)) \<and>
    be_get_block_height (cc_explorer cc) = Some (Inr cur) \<and>
    be_fetch_usdc_receives (cc_explorer cc) i (dac_address dc) since cur = Some (Inr fetch) \<and>
    r \<in> set (fr_receives fetch) \<and>
    \<not> dec_lt D (ur_amount r) (dec_literal D 10 1) \<and>
    ur_tx_hash r \<notin> st_processed_tx_hashes (cc_state cc) \<and>
    confirmation_blocks_for (cc_config cc) (cc_chain cc) \<le> sat_sub cur (ur_block_number r) \<and>
    ed_tx_hash d = ur_tx_hash r \<and> ed_usdc_amount d = ur_amount r \<and> ed_chain d = cc_chain cc \<and>
    ed_deposit_address d = dac_address dc \<and> ed_payment_method_id d = dac_payment_method_id dc"
  using assms by (rule chain_run_sound_receive)

theorem sent_deposits_are_eligible_witness:
  "\<exists>dc cur fetch r i since. dc \<in> set (cfg_deposit_addresses sample_config) \<and>
    be_fetch_usdc_receives sample_explorer i (dac_address dc) since cur = Some (Inr fetch) \<and>
    r \<in> set (fr_receives fetch) \<and> ed_tx_hash sample_deposit = ur_tx_hash r"
  using sent_deposits_are_eligible [OF sample_chain_run, of "[sample_deposit]" sample_deposit]
  unfolding sample_check_def chain_deposit_check.simps list.set insert_iff by blast

text \<open>
  The hashes a chain check reports as processed are exactly those of the deposits it sent,
  and one address never sends two deposits with the same transaction hash.
\<close>

theorem reported_hashes_are_sent:
  assumes "chain_run D cc w = Some (res, dss)"
  shows "cr_processed_tx_hashes res = map ed_tx_hash (concat dss) \<and>
    (\<forall>ds\<in>set dss. distinct (map ed_tx_hash ds))"
proof
  show "cr_processed_tx_hashes res = map ed_tx_hash (concat dss)"
    using assms by (rule chain_run_hashes)
  show "\<forall>ds\<in>set dss. distinct (map ed_tx_hash ds)"
    using assms
  proof (cases rule: chain_run_Some)
    case (scanned cur since rs)
    show ?thesis
    proof
      fix ds
      assume "ds \<in> set dss"
      with scanned(5) obtain r' where x: "(r', ds) \<in> set rs" by auto
      obtain i and dc :: deposit_address_config where
        scan: "address_scan D cc w i (dac_address dc) (dac_payment_method_id dc) since cur = Some (r', ds)"
        by (rule address_scans_elem [OF scanned(3) x], rule that)
      from scan show "distinct (map ed_tx_hash ds)"
        by (cases rule: address_scan_Some) (use scan_receives_distinct scan_receives_hashes in fastforce)+
    qed
  qed simp_all
qed

theorem reported_hashes_are_sent_witness:
  "[sample_hash] = map ed_tx_hash (concat [[sample_deposit]]) \<and> distinct (map ed_tx_hash [sample_deposit])"
  using reported_hashes_are_sent [OF sample_chain_run] by simp

text \<open>
  C18. A chain's frontier advances only when every address was fetched, and then to a block that
  no address's scan stopped short of and that lies at least the confirmation depth below the
  tip; a single failed address leaves the chain's frontier where it was.
\<close>

theorem frontier_waits_for_every_address:
  assumes "chain_run D cc w = Some (res, dss)"
    and "be_get_block_height (cc_explorer cc) = Some (Inr cur)" and "since_block_of cc = Some since"
    and "latest_seen_block res = Some f"
    and "k < length (cfg_deposit_addresses (cc_config cc))"
  shows "\<exists>fetch. be_fetch_usdc_receives (cc_explorer cc) k
        (dac_address (cfg_deposit_addresses (cc_config cc) ! k)) since cur = Some (Inr fetch) \<and>
      f \<le> fr_confirmed_frontier fetch \<and>
      f \<le> sat_sub cur (confirmation_blocks_for (cc_config cc) (cc_chain cc))"
proof -
  from assms(4) have "cr_confirmed_frontier res = Some f" by (simp add: latest_seen_block_Some)
  from chain_run_frontier [OF assms(1-3) this assms(5)] show ?thesis by metis
qed

theorem frontier_waits_for_every_address_witness:
  "\<exists>fetch. be_fetch_usdc_receives sample_explorer 0 sample_address 22000000 22000200 = Some (Inr fetch) \<and>
     (22000180 :: u64) \<le> fr_confirmed_frontier fetch"
proof -
  have h: "be_get_block_height (cc_explorer sample_check) = Some (Inr 22000200)"
    by (simp add: sample_check_def sample_explorer_def)
  have s: "since_block_of sample_check = Some 22000000"
    by (simp add: sample_check_def since_block_of_def default_state_def start_block_for_def sample_config_def)
  have f: "latest_seen_block (ChainResult [sample_hash] (Some 22000180) []) = Some 22000180"
    by (simp add: latest_seen_block_def u64_max_def)
  have k: "0 < length (cfg_deposit_addresses (cc_config sample_check))"
    by (simp add: sample_check_def sample_config_def)
  from frontier_waits_for_every_address [OF sample_chain_run h s f k] show ?thesis
    by (auto simp: sample_check_def sample_config_def)
qed



end
