(* ===== verification/Cb_Worker.thy ===== *)
theory Cb_Worker
  imports Sample_World
begin

text \<open>
  The Coinbase worker, \<open>src/src/cbworker.rs\<close>: the sell and withdraw pipeline of one
  deposit, the audit record it ends in, and the same job cut at its await points, one phase per
  external call, which is what \<open>Worker_Pipeline\<close> interleaves.
\<close>

definition MAX_CONCURRENT_JOBS :: nat where
  "MAX_CONCURRENT_JOBS = 5"

record 'd cb_worker =
  cw_max_auto_amount :: 'd
  cw_sell_settle_delay_secs :: u64

text \<open>
  The external calls of one job and their answers. A job sells, withdraws and notifies at most
  once each, so its world is one answer per call.
\<close>

record 'd job_world =
  jw_sell_usdc :: "'d \<Rightarrow> app_error + 'd sell_result"
  jw_withdraw_usd :: "'d \<Rightarrow> string \<Rightarrow> app_error + 'd withdrawal_result"
  jw_notify :: "string \<Rightarrow> app_error + unit"

datatype 'd action =
    SellUsdc 'd
  | SettleSleep u64
  | WithdrawUsd 'd string
  | Notify string

section \<open>The messages\<close>

definition threshold_message :: "'d decimal_lib \<Rightarrow> 'd cb_worker \<Rightarrow> 'd eligible_deposit \<Rightarrow> string" where
  "threshold_message D cw d =
     ''Deposit '' @ ed_tx_hash d @ '' on '' @ chain_to_string (ed_chain d) @ '' '' @ em_dash @ '' $'' @
     dec_to_string D (ed_usdc_amount d) @ '' exceeds threshold $'' @
     dec_to_string D (cw_max_auto_amount cw) @ ''. Recorded as Failed '' @ em_dash @
     '' manual intervention required.''"

definition sell_failed_message :: "'d decimal_lib \<Rightarrow> 'd eligible_deposit \<Rightarrow> app_error \<Rightarrow> string" where
  "sell_failed_message D d e =
     ''Sell failed for deposit '' @ ed_tx_hash d @ '' on '' @ chain_to_string (ed_chain d) @ '' '' @
     em_dash @ '' $'' @ dec_to_string D (ed_usdc_amount d) @ '' USDC. Error: '' @ app_error_to_string e"

definition withdrawal_failed_message :: "'d decimal_lib \<Rightarrow> 'd eligible_deposit \<Rightarrow> app_error \<Rightarrow> string" where
  "withdrawal_failed_message D d e =
     ''Withdrawal failed for deposit '' @ ed_tx_hash d @ '' on '' @ chain_to_string (ed_chain d) @ '' '' @
     em_dash @ '' $'' @ dec_to_string D (ed_usdc_amount d) @ '' USDC. Error: '' @ app_error_to_string e"

section \<open>The sequential pipeline\<close>

text \<open>The outcome and the external calls, in order. A failed notification is only logged.\<close>

definition fail_job ::
  "'d job_world \<Rightarrow> string \<Rightarrow> datetime \<Rightarrow> 'd bank_payment_outcome \<times> 'd action list" where
  "fail_job jw message processed_at =
     (case jw_notify jw message of
        Inl _ \<Rightarrow> (Failed message processed_at, [Notify message])
      | Inr _ \<Rightarrow> (Failed message processed_at, [Notify message]))"

definition liquidate_pipeline ::
  "'d decimal_lib \<Rightarrow> 'd cb_worker \<Rightarrow> 'd job_world \<Rightarrow> 'd eligible_deposit \<Rightarrow>
   'd bank_payment_outcome \<times> 'd action list" where
  "liquidate_pipeline D cw jw d =
     (if dec_lt D (cw_max_auto_amount cw) (ed_usdc_amount d)
      then fail_job jw (threshold_message D cw d) (ed_processed_at d)
      else case jw_sell_usdc jw (ed_usdc_amount d) of
        Inl e \<Rightarrow>
          (case fail_job jw (sell_failed_message D d e) (ed_processed_at d) of
             (out, acts) \<Rightarrow> (out, SellUsdc (ed_usdc_amount d) # acts))
      | Inr sell_result \<Rightarrow>
          (case jw_withdraw_usd jw (sr_usd_received sell_result) (ed_payment_method_id d) of
             Inl e \<Rightarrow>
               (case fail_job jw (withdrawal_failed_message D d e) (ed_processed_at d) of
                  (out, acts) \<Rightarrow>
                    (out, SellUsdc (ed_usdc_amount d) # SettleSleep (cw_sell_settle_delay_secs cw) #
                          WithdrawUsd (sr_usd_received sell_result) (ed_payment_method_id d) # acts))
           | Inr withdrawal \<Rightarrow>
               (Initiated (sr_order_id sell_result) (sr_usd_received sell_result)
                  (wr_withdrawal_transfer_id withdrawal) (wr_initiated_at withdrawal),
                [SellUsdc (ed_usdc_amount d), SettleSleep (cw_sell_settle_delay_secs cw),
                 WithdrawUsd (sr_usd_received sell_result) (ed_payment_method_id d)])))"

text \<open>The audit record; \<open>None\<close> is \<open>make_id\<close>'s panic.\<close>

definition liquidation_record ::
  "(datetime \<Rightarrow> string) \<Rightarrow> 'd eligible_deposit \<Rightarrow> 'd bank_payment_outcome \<Rightarrow> 'd liquidation_result option" where
  "liquidation_record ymd d outcome =
     map_option
       (\<lambda>ident. \<lparr>lr_payment = \<lparr>bp_id = ident, bp_deposit_address = ed_deposit_address d,
                   bp_chain = ed_chain d, bp_deposit_tx_hash = ed_tx_hash d,
                   bp_usdc_amount = ed_usdc_amount d, bp_payment_method_id = ed_payment_method_id d,
                   bp_outcome = outcome, bp_deposit_timestamp = ed_deposit_timestamp d,
                   bp_processed_at = ed_processed_at d\<rparr>,
                 lr_tx_hash = ed_tx_hash d\<rparr>)
       (make_id ymd (ed_processed_at d) (ed_tx_hash d))"

definition liquidate_one ::
  "'d decimal_lib \<Rightarrow> (datetime \<Rightarrow> string) \<Rightarrow> 'd cb_worker \<Rightarrow> 'd job_world \<Rightarrow> 'd eligible_deposit \<Rightarrow>
   'd liquidation_result option \<times> 'd action list" where
  "liquidate_one D ymd cw jw d =
     (case liquidate_pipeline D cw jw d of
        (outcome, acts) \<Rightarrow> (liquidation_record ymd d outcome, acts))"

section \<open>The job cut at its await points\<close>

datatype 'd phase =
    Ready
  | Settling "'d sell_result"
  | Withdrawing "'d sell_result"
  | Failing string
  | Finished "'d bank_payment_outcome"

fun job_step ::
  "'d decimal_lib \<Rightarrow> 'd cb_worker \<Rightarrow> 'd job_world \<Rightarrow> 'd eligible_deposit \<Rightarrow> 'd phase \<Rightarrow>
   ('d phase \<times> 'd action list) option" where
  "job_step D cw jw d Ready =
     (if dec_lt D (cw_max_auto_amount cw) (ed_usdc_amount d)
      then Some (Failing (threshold_message D cw d), [])
      else case jw_sell_usdc jw (ed_usdc_amount d) of
        Inl e \<Rightarrow> Some (Failing (sell_failed_message D d e), [SellUsdc (ed_usdc_amount d)])
      | Inr r \<Rightarrow> Some (Settling r, [SellUsdc (ed_usdc_amount d)]))"
| "job_step D cw jw d (Settling r) = Some (Withdrawing r, [SettleSleep (cw_sell_settle_delay_secs cw)])"
| "job_step D cw jw d (Withdrawing r) =
     (case jw_withdraw_usd jw (sr_usd_received r) (ed_payment_method_id d) of
        Inl e \<Rightarrow> Some (Failing (withdrawal_failed_message D d e),
                      [WithdrawUsd (sr_usd_received r) (ed_payment_method_id d)])
      | Inr w \<Rightarrow> Some (Finished (Initiated (sr_order_id r) (sr_usd_received r)
                        (wr_withdrawal_transfer_id w) (wr_initiated_at w)),
                      [WithdrawUsd (sr_usd_received r) (ed_payment_method_id d)]))"
| "job_step D cw jw d (Failing message) =
     Some (Finished (fst (fail_job jw message (ed_processed_at d))),
           snd (fail_job jw message (ed_processed_at d)))"
| "job_step D cw jw d (Finished out) = None"

text \<open>A phase's distance to the end.\<close>

fun phase_size :: "'d phase \<Rightarrow> nat" where
  "phase_size Ready = 5"
| "phase_size (Settling _) = 4"
| "phase_size (Withdrawing _) = 3"
| "phase_size (Failing _) = 2"
| "phase_size (Finished _) = 1"

text \<open>What is left to run from a phase: the outcome and the calls still to come.\<close>

function rest_of_job ::
  "'d decimal_lib \<Rightarrow> 'd cb_worker \<Rightarrow> 'd job_world \<Rightarrow> 'd eligible_deposit \<Rightarrow> 'd phase \<Rightarrow>
   'd bank_payment_outcome \<times> 'd action list" where
  "rest_of_job D cw jw d Ready = liquidate_pipeline D cw jw d"
| "rest_of_job D cw jw d (Settling r) =
     (fst (rest_of_job D cw jw d (Withdrawing r)),
      SettleSleep (cw_sell_settle_delay_secs cw) # snd (rest_of_job D cw jw d (Withdrawing r)))"
| "rest_of_job D cw jw d (Withdrawing r) =
     (case jw_withdraw_usd jw (sr_usd_received r) (ed_payment_method_id d) of
        Inl e \<Rightarrow>
          (case fail_job jw (withdrawal_failed_message D d e) (ed_processed_at d) of
             (out, acts) \<Rightarrow> (out, WithdrawUsd (sr_usd_received r) (ed_payment_method_id d) # acts))
      | Inr w \<Rightarrow> (Initiated (sr_order_id r) (sr_usd_received r)
                   (wr_withdrawal_transfer_id w) (wr_initiated_at w),
                 [WithdrawUsd (sr_usd_received r) (ed_payment_method_id d)]))"
| "rest_of_job D cw jw d (Failing message) = fail_job jw message (ed_processed_at d)"
| "rest_of_job D cw jw d (Finished out) = (out, [])"
  by pat_completeness auto
termination
  by (relation "measure (\<lambda>(D, cw, jw, d, ph). phase_size ph)") auto

section \<open>Lemmas\<close>

lemma fail_job_eq [simp]: "fail_job jw m t = (Failed m t, [Notify m])"
  by (simp add: fail_job_def split: sum.split)

text \<open>A step performs a prefix of what is left and leaves the rest.\<close>

lemma job_step_rest:
  "job_step D cw jw d ph = Some (ph', acts) \<Longrightarrow>
   rest_of_job D cw jw d ph =
     (fst (rest_of_job D cw jw d ph'), acts @ snd (rest_of_job D cw jw d ph'))"
  by (cases ph) (auto simp: liquidate_pipeline_def split: if_splits sum.splits)

lemma job_step_None: "job_step D cw jw d ph = None \<longleftrightarrow> (\<exists>out. ph = Finished out)"
  by (cases ph) (auto split: if_splits sum.splits)

lemma job_step_size: "job_step D cw jw d ph = Some (ph', acts) \<Longrightarrow> phase_size ph' < phase_size ph"
  by (cases ph) (auto split: if_splits sum.splits)

lemma phase_size_pos [simp]: "0 < phase_size ph"
  by (cases ph) simp_all

lemma liquidation_record_Some:
  "liquidation_record ymd d out = Some lr \<longleftrightarrow>
     (\<exists>ident. make_id ymd (ed_processed_at d) (ed_tx_hash d) = Some ident \<and>
        lr = \<lparr>lr_payment = \<lparr>bp_id = ident, bp_deposit_address = ed_deposit_address d,
                bp_chain = ed_chain d, bp_deposit_tx_hash = ed_tx_hash d,
                bp_usdc_amount = ed_usdc_amount d, bp_payment_method_id = ed_payment_method_id d,
                bp_outcome = out, bp_deposit_timestamp = ed_deposit_timestamp d,
                bp_processed_at = ed_processed_at d\<rparr>,
              lr_tx_hash = ed_tx_hash d\<rparr>)"
  by (auto simp: liquidation_record_def)

lemma liquidation_record_None:
  "liquidation_record ymd d out = None \<longleftrightarrow> make_id ymd (ed_processed_at d) (ed_tx_hash d) = None"
  by (simp add: liquidation_record_def)

text \<open>Served by an exchange that keeps its contract, an initiated withdrawal has an id to follow up.\<close>

context exchange_contract
begin

lemma initiated_id:
  assumes "\<And>a pm w. jw_withdraw_usd jw a pm = Inr w \<Longrightarrow> withdraw a pm = Inr w"
    and "liquidate_pipeline D cw jw d = (Initiated oid proceeds wid moment, acts)"
  shows "wid \<noteq> []"
proof -
  from assms(2) obtain a pm w where w: "jw_withdraw_usd jw a pm = Inr w" "wid = wr_withdrawal_transfer_id w"
    by (auto simp: liquidate_pipeline_def split: if_splits sum.splits prod.splits)
  show ?thesis unfolding w(2) by (rule transfer_id [OF assms(1) [OF w(1)]])
qed

end

section \<open>Properties of one job\<close>

fun is_notify :: "'d action \<Rightarrow> bool" where
  "is_notify (Notify _) = True"
| "is_notify _ = False"

text \<open>The sample exchange sells at par and pays out; its deposit stays below the threshold.\<close>

definition sample_job_world :: "rat job_world" where
  "sample_job_world =
     \<lparr>jw_sell_usdc = (\<lambda>a. Inr \<lparr>sr_order_id = ''trade-1'', sr_usdc_sold = a, sr_usd_received = a, sr_executed_at = 5\<rparr>),
      jw_withdraw_usd = (\<lambda>a pm. Inr \<lparr>wr_withdrawal_transfer_id = ''wd-1'', wr_usd_amount = a, wr_initiated_at = 40\<rparr>),
      jw_notify = (\<lambda>m. Inr ())\<rparr>"

definition sample_worker :: "rat cb_worker" where
  "sample_worker = \<lparr>cw_max_auto_amount = 10000, cw_sell_settle_delay_secs = 30\<rparr>"

lemma sample_pipeline:
  "liquidate_pipeline rat_decimals sample_worker sample_job_world sample_deposit =
     (Initiated ''trade-1'' 500 ''wd-1'' 40, [SellUsdc 500, SettleSleep 30, WithdrawUsd 500 ''pm-bank''])"
  by (simp add: liquidate_pipeline_def sample_worker_def sample_job_world_def sample_deposit_def)

text \<open>
  C13. A job sells only the deposit's own amount, at most once, and only when that amount does
  not exceed the configured maximum.
\<close>

theorem sells_within_threshold:
  assumes "liquidate_pipeline D cw jw d = (out, acts)" and "SellUsdc a \<in> set acts"
  shows "a = ed_usdc_amount d \<and> \<not> dec_lt D (cw_max_auto_amount cw) (ed_usdc_amount d) \<and>
    (\<exists>rest. acts = SellUsdc a # rest \<and> (\<forall>b. SellUsdc b \<notin> set rest))"
  using assms by (auto simp: liquidate_pipeline_def split: if_splits sum.splits prod.splits)

theorem sells_within_threshold_witness:
  "ed_usdc_amount sample_deposit = 500 \<and>
   \<not> dec_lt rat_decimals (cw_max_auto_amount sample_worker) (ed_usdc_amount sample_deposit)"
  using sells_within_threshold [OF sample_pipeline, of 500] by simp

text \<open>
  C14. A job withdraws only after its own sale succeeded and the settling delay has passed, and
  then exactly the proceeds of that sale to the deposit's payment method.
\<close>

theorem withdraws_own_proceeds:
  assumes "liquidate_pipeline D cw jw d = (out, acts)" and "WithdrawUsd a pm \<in> set acts"
  shows "\<exists>r. jw_sell_usdc jw (ed_usdc_amount d) = Inr r \<and> a = sr_usd_received r \<and>
     pm = ed_payment_method_id d \<and>
     (\<exists>rest. acts = SellUsdc (ed_usdc_amount d) # SettleSleep (cw_sell_settle_delay_secs cw) #
                    WithdrawUsd a pm # rest \<and> (\<forall>b q. WithdrawUsd b q \<notin> set rest))"
  using assms by (auto simp: liquidate_pipeline_def split: if_splits sum.splits prod.splits)

theorem withdraws_own_proceeds_witness:
  "\<exists>r. jw_sell_usdc sample_job_world 500 = Inr r \<and> 500 = sr_usd_received r"
  using withdraws_own_proceeds [OF sample_pipeline, of 500 "''pm-bank''"]
  by (simp add: sample_deposit_def) blast

text \<open>
  A job ends in \<open>Initiated\<close> exactly when the amount is within the threshold and both
  exchange calls succeed, and the record carries their ids and the proceeds; otherwise it ends in
  \<open>Failed\<close>, and then, and only then, it sends exactly one alert, whose text is the
  recorded error.
\<close>

theorem job_outcome:
  "(case liquidate_pipeline D cw jw d of
      (Initiated oid proceeds wid moment, acts) \<Rightarrow>
        \<not> dec_lt D (cw_max_auto_amount cw) (ed_usdc_amount d) \<and>
        (\<exists>r w. jw_sell_usdc jw (ed_usdc_amount d) = Inr r \<and>
           jw_withdraw_usd jw (sr_usd_received r) (ed_payment_method_id d) = Inr w \<and>
           oid = sr_order_id r \<and> proceeds = sr_usd_received r \<and>
           wid = wr_withdrawal_transfer_id w \<and> moment = wr_initiated_at w) \<and>
        filter is_notify acts = []
    | (Failed message moment, acts) \<Rightarrow>
        \<not> (\<not> dec_lt D (cw_max_auto_amount cw) (ed_usdc_amount d) \<and>
           (\<exists>r w. jw_sell_usdc jw (ed_usdc_amount d) = Inr r \<and>
              jw_withdraw_usd jw (sr_usd_received r) (ed_payment_method_id d) = Inr w)) \<and>
        moment = ed_processed_at d \<and> filter is_notify acts = [Notify message])"
  by (auto simp: liquidate_pipeline_def split: if_splits sum.splits prod.splits)

end
