(* ===== verification/Worker_Pipeline.thy ===== *)
theory Worker_Pipeline
  imports Cb_Worker "HOL-Library.Multiset"
begin

text \<open>
  Discovery and worker running together, \<open>tokio::join!\<close> in \<open>src/src/orchestrator.rs\<close>
  and \<open>CbWorker::run\<close> in \<open>src/src/cbworker.rs\<close>: address scans put deposits on a bounded
  channel while the worker keeps up to \<open>MAX_CONCURRENT_JOBS\<close> jobs in flight
  (\<open>buffer_unordered\<close>) and collects results in completion order. Which future runs next is
  the executor's choice, so a step is a relation; each step is one future moving between two
  await points. Deposits carry a number so that equal deposits stay apart.
\<close>

definition CHANNEL_CAPACITY :: nat where
  "CHANNEL_CAPACITY = 32"

type_synonym 'd tagged = "nat \<times> 'd eligible_deposit"

record 'd pipe_state =
  pp_senders :: "'d tagged list list"
  pp_channel :: "'d tagged list"
  pp_jobs :: "('d tagged \<times> 'd phase) list"
  pp_results :: "('d tagged \<times> 'd liquidation_result) list"
  pp_log :: "(nat \<times> 'd action) list"
  pp_panicked :: bool

definition pipe_init :: "'d tagged list list \<Rightarrow> 'd pipe_state" where
  "pipe_init senders = \<lparr>pp_senders = senders, pp_channel = [], pp_jobs = [], pp_results = [],
                        pp_log = [], pp_panicked = False\<rparr>"

text \<open>The parameters of a run: the library, the worker, and each job's world.\<close>

record 'd pipe_env =
  pe_dec :: "'d decimal_lib"
  pe_ymd :: "datetime \<Rightarrow> string"
  pe_worker :: "'d cb_worker"
  pe_world :: "nat \<Rightarrow> 'd job_world"

definition drop_nth :: "nat \<Rightarrow> 'a list \<Rightarrow> 'a list" where
  "drop_nth k xs = take k xs @ drop (Suc k) xs"

inductive pipe_step :: "'d pipe_env \<Rightarrow> 'd pipe_state \<Rightarrow> 'd pipe_state \<Rightarrow> bool" for E where
  send: "\<not> pp_panicked s \<Longrightarrow> i < length (pp_senders s) \<Longrightarrow> pp_senders s ! i = x # xs \<Longrightarrow>
     length (pp_channel s) < CHANNEL_CAPACITY \<Longrightarrow>
     pipe_step E s (s\<lparr>pp_senders := (pp_senders s)[i := xs], pp_channel := pp_channel s @ [x]\<rparr>)"
| recv: "\<not> pp_panicked s \<Longrightarrow> pp_channel s = x # ch \<Longrightarrow> length (pp_jobs s) < MAX_CONCURRENT_JOBS \<Longrightarrow>
     pipe_step E s (s\<lparr>pp_channel := ch, pp_jobs := pp_jobs s @ [(x, Ready)]\<rparr>)"
| work: "\<not> pp_panicked s \<Longrightarrow> k < length (pp_jobs s) \<Longrightarrow> pp_jobs s ! k = ((n, d), ph) \<Longrightarrow>
     job_step (pe_dec E) (pe_worker E) (pe_world E n) d ph = Some (ph', acts) \<Longrightarrow>
     pipe_step E s (s\<lparr>pp_jobs := (pp_jobs s)[k := ((n, d), ph')],
                      pp_log := pp_log s @ map (Pair n) acts\<rparr>)"
| finish: "\<not> pp_panicked s \<Longrightarrow> k < length (pp_jobs s) \<Longrightarrow> pp_jobs s ! k = ((n, d), Finished out) \<Longrightarrow>
     liquidation_record (pe_ymd E) d out = Some lr \<Longrightarrow>
     pipe_step E s (s\<lparr>pp_jobs := drop_nth k (pp_jobs s), pp_results := pp_results s @ [((n, d), lr)]\<rparr>)"
| panic: "\<not> pp_panicked s \<Longrightarrow> k < length (pp_jobs s) \<Longrightarrow> pp_jobs s ! k = ((n, d), Finished out) \<Longrightarrow>
     liquidation_record (pe_ymd E) d out = None \<Longrightarrow>
     pipe_step E s (s\<lparr>pp_panicked := True\<rparr>)"

declare pipe_step.intros [step_intros]

inductive_cases pipe_stepE: "pipe_step E s t"

text \<open>All futures have completed and every sender is dropped.\<close>

definition pipe_done :: "'d pipe_state \<Rightarrow> bool" where
  "pipe_done s \<longleftrightarrow> \<not> pp_panicked s \<and> (\<forall>xs\<in>set (pp_senders s). xs = []) \<and>
     pp_channel s = [] \<and> pp_jobs s = []"

abbreviation pipe_reaches :: "'d pipe_env \<Rightarrow> 'd pipe_state \<Rightarrow> 'd pipe_state \<Rightarrow> bool" where
  "pipe_reaches E \<equiv> (pipe_step E)\<^sup>*\<^sup>*"

section \<open>List facts\<close>

lemma mset_drop_nth: "k < length xs \<Longrightarrow> mset xs = add_mset (xs ! k) (mset (drop_nth k xs))"
  using arg_cong [OF id_take_nth_drop, of k xs mset] by (simp add: drop_nth_def)

lemma mset_update_remove: "k < length xs \<Longrightarrow>
   add_mset (xs ! k) (mset (xs[k := y])) = add_mset y (mset xs)"
  by (simp add: mset_update insert_DiffM)

lemma length_drop_nth [simp]: "k < length xs \<Longrightarrow> length (drop_nth k xs) = length xs - 1"
  by (simp add: drop_nth_def)

lemma set_drop_nth: "set (drop_nth k xs) \<subseteq> set xs"
  by (auto simp: drop_nth_def dest: in_set_takeD in_set_dropD)

section \<open>Bounds\<close>

definition pipe_bounded :: "'d pipe_state \<Rightarrow> bool" where
  "pipe_bounded s \<longleftrightarrow> length (pp_channel s) \<le> CHANNEL_CAPACITY \<and>
     length (pp_jobs s) \<le> MAX_CONCURRENT_JOBS"

lemma pipe_step_bounded: "pipe_step E s t \<Longrightarrow> pipe_bounded s \<Longrightarrow> pipe_bounded t"
  by (induction rule: pipe_step.induct) (auto simp: pipe_bounded_def)

section \<open>Conservation\<close>

text \<open>Every deposit is in exactly one place: with a sender, on the channel, in a job, in a result.\<close>

definition pipe_contents :: "'d pipe_state \<Rightarrow> 'd tagged multiset" where
  "pipe_contents s = mset (concat (pp_senders s)) + mset (pp_channel s) +
     mset (map fst (pp_jobs s)) + mset (map fst (pp_results s))"

lemma mset_concat_update:
  assumes "i < length xss" and "xss ! i = x # xs"
  shows "mset (concat xss) = add_mset x (mset (concat (xss[i := xs])))"
proof -
  have "mset (concat xss) = mset (concat (take i xss @ (x # xs) # drop (Suc i) xss))"
    using assms by (metis id_take_nth_drop)
  moreover have "xss[i := xs] = take i xss @ xs # drop (Suc i) xss"
    using assms(1) by (simp add: upd_conv_take_nth_drop)
  ultimately show ?thesis by simp
qed

lemma pipe_step_contents: "pipe_step E s t \<Longrightarrow> pipe_contents t = pipe_contents s"
proof (induction rule: pipe_step.induct)
  case (send s i x xs)
  then show ?case by (simp add: pipe_contents_def mset_concat_update)
next
  case (recv s x ch)
  then show ?case by (simp add: pipe_contents_def)
next
  case (work s k n d ph ph' acts)
  have "map fst ((pp_jobs s)[k := ((n, d), ph')]) = map fst (pp_jobs s)"
    using work(2,3) by (simp add: map_update list_update_same_conv)
  then show ?case by (simp add: pipe_contents_def)
next
  case (finish s k n d out lr)
  then have "mset (map fst (pp_jobs s)) = add_mset (n, d) (mset (map fst (drop_nth k (pp_jobs s))))"
    by (simp add: mset_drop_nth [of k "pp_jobs s"])
  then show ?case by (simp add: pipe_contents_def)
next
  case (panic s k n d out)
  then show ?case by (simp add: pipe_contents_def)
qed

section \<open>Each job's calls\<close>

definition job_log :: "'d pipe_state \<Rightarrow> nat \<Rightarrow> 'd action list" where
  "job_log s n = map snd (filter (\<lambda>e. fst e = n) (pp_log s))"

text \<open>
  The invariant of the run: numbers are unique; a deposit not yet taken has made no call; a job
  has made its calls up to its phase; a result is the record of its deposit's pipeline and its
  job has made all its calls.
\<close>

definition pipe_inv :: "'d pipe_env \<Rightarrow> 'd pipe_state \<Rightarrow> bool" where
  "pipe_inv E s \<longleftrightarrow>
     (\<forall>n d. (n, d) \<in># mset (concat (pp_senders s)) + mset (pp_channel s) \<longrightarrow> job_log s n = []) \<and>
     (\<forall>n d ph. ((n, d), ph) \<in> set (pp_jobs s) \<longrightarrow>
        liquidate_pipeline (pe_dec E) (pe_worker E) (pe_world E n) d =
          (fst (rest_of_job (pe_dec E) (pe_worker E) (pe_world E n) d ph),
           job_log s n @ snd (rest_of_job (pe_dec E) (pe_worker E) (pe_world E n) d ph))) \<and>
     (\<forall>n d lr. ((n, d), lr) \<in> set (pp_results s) \<longrightarrow>
        liquidate_one (pe_dec E) (pe_ymd E) (pe_worker E) (pe_world E n) d = (Some lr, job_log s n))"

text \<open>Numbers are unique in the whole state.\<close>

definition pipe_items :: "'d pipe_state \<Rightarrow> 'd tagged list" where
  "pipe_items s = concat (pp_senders s) @ pp_channel s @ map fst (pp_jobs s) @ map fst (pp_results s)"

lemma mset_pipe_items: "mset (pipe_items s) = pipe_contents s"
  by (simp add: pipe_items_def pipe_contents_def)

lemma pipe_step_distinct:
  assumes "pipe_step E s t" and "distinct (map fst (pipe_items s))"
  shows "distinct (map fst (pipe_items t))"
proof -
  have "mset (map fst (pipe_items t)) = mset (map fst (pipe_items s))"
    using pipe_step_contents [OF assms(1)] by (simp add: mset_pipe_items)
  then show ?thesis using assms(2) by (metis mset_eq_imp_distinct_iff)
qed

lemma job_number_unique:
  assumes "distinct (map fst (pipe_items s))" and "k < length (pp_jobs s)"
    and "pp_jobs s ! k = ((n, d), ph)"
  shows "(n, d') \<notin> set (concat (pp_senders s))" and "(n, d') \<notin> set (pp_channel s)"
    and "((n, d'), lr) \<notin> set (pp_results s)"
    and "j < length (pp_jobs s) \<Longrightarrow> pp_jobs s ! j = ((n, d'), ph') \<Longrightarrow> j = k"
proof -
  have n: "n \<in> fst ` fst ` set (pp_jobs s)"
    using assms(2,3) by (metis fst_conv image_eqI nth_mem)
  have dj: "fst ` set (concat (pp_senders s)) \<inter> fst ` fst ` set (pp_jobs s) = {}"
    "fst ` set (pp_channel s) \<inter> fst ` fst ` set (pp_jobs s) = {}"
    "fst ` fst ` set (pp_jobs s) \<inter> fst ` fst ` set (pp_results s) = {}"
    and di: "distinct (map (\<lambda>j. fst (fst j)) (pp_jobs s))"
    using assms(1) unfolding pipe_items_def by (simp_all add: comp_def) blast+
  show "(n, d') \<notin> set (concat (pp_senders s))" using dj(1) n by (metis disjoint_iff fst_conv image_eqI)
  show "(n, d') \<notin> set (pp_channel s)" using dj(2) n by (metis disjoint_iff fst_conv image_eqI)
  show "((n, d'), lr) \<notin> set (pp_results s)" using dj(3) n by (metis disjoint_iff fst_conv image_eqI)
  show "j = k" if "j < length (pp_jobs s)" "pp_jobs s ! j = ((n, d'), ph')"
    using nth_eq_iff_index_eq [OF di, of j k] that assms(2,3) by simp
qed

lemma job_log_append:
  "job_log (s\<lparr>pp_jobs := js, pp_log := pp_log s @ map (Pair n) acts\<rparr>) m =
     (if m = n then job_log s m @ acts else job_log s m)"
  by (simp add: job_log_def filter_map comp_def)

lemma job_log_frame [simp]:
  "job_log (s\<lparr>pp_senders := a, pp_channel := b\<rparr>) m = job_log s m"
  "job_log (s\<lparr>pp_channel := b, pp_jobs := c\<rparr>) m = job_log s m"
  "job_log (s\<lparr>pp_jobs := c, pp_results := r\<rparr>) m = job_log s m"
  "job_log (s\<lparr>pp_panicked := p\<rparr>) m = job_log s m"
  by (simp_all add: job_log_def)

lemma pipe_inv_init: "pipe_inv E (pipe_init senders)"
  by (simp add: pipe_inv_def pipe_init_def job_log_def)

lemma pipe_inv_senders_channel:
  assumes "pipe_inv E s" and "(n, d) \<in> set (concat (pp_senders s)) \<union> set (pp_channel s)"
  shows "job_log s n = []"
  using assms by (auto simp: pipe_inv_def)

lemma pipe_inv_job:
  assumes "pipe_inv E s" and "k < length (pp_jobs s)" and "pp_jobs s ! k = ((n, d), ph)"
  shows "liquidate_pipeline (pe_dec E) (pe_worker E) (pe_world E n) d =
          (fst (rest_of_job (pe_dec E) (pe_worker E) (pe_world E n) d ph),
           job_log s n @ snd (rest_of_job (pe_dec E) (pe_worker E) (pe_world E n) d ph))"
proof -
  have "((n, d), ph) \<in> set (pp_jobs s)" using assms(2,3) by (metis nth_mem)
  with assms(1) show ?thesis by (simp add: pipe_inv_def)
qed

lemma pipe_step_inv:
  assumes "pipe_step E s t" and "distinct (map fst (pipe_items s))" and "pipe_inv E s"
  shows "pipe_inv E t"
  using assms
proof (induction rule: pipe_step.induct)
  case (send s i x xs)
  have "set (concat (pp_senders s)) = insert x (set (concat ((pp_senders s)[i := xs])))"
    using arg_cong [OF mset_concat_update [OF send(2,3)], of set_mset] by simp
  then show ?case using send(6) by (auto simp: pipe_inv_def)
next
  case (recv s x ch)
  obtain n d where x: "x = (n, d)" by fastforce
  have "job_log s n = []"
    using recv(5) recv(2) by (intro pipe_inv_senders_channel [of E s n d]) (simp_all add: x)
  then show ?case using recv(2,5) by (auto simp: pipe_inv_def x)
next
  case (work s k n d ph ph' acts)
  note uniq = job_number_unique [OF work(5,2,3)]
  let ?rest = "rest_of_job (pe_dec E) (pe_worker E) (pe_world E n) d"
  have new: "liquidate_pipeline (pe_dec E) (pe_worker E) (pe_world E n) d =
      (fst (?rest ph'), (job_log s n @ acts) @ snd (?rest ph'))"
    using pipe_inv_job [OF work(6,2,3)] job_step_rest [OF work(4)] by simp
  have other: "((m, d'), ph'') \<in> set (pp_jobs s) \<and> m \<noteq> n \<or> m = n \<and> d' = d \<and> ph'' = ph'"
    if "((m, d'), ph'') \<in> set ((pp_jobs s)[k := ((n, d), ph')])" for m d' ph''
  proof -
    from that obtain j where "j < length ((pp_jobs s)[k := ((n, d), ph')])"
      and jv: "(pp_jobs s)[k := ((n, d), ph')] ! j = ((m, d'), ph'')"
      unfolding in_set_conv_nth by blast
    then have jl: "j < length (pp_jobs s)" by simp
    show ?thesis
    proof (cases "j = k")
      case True
      with jv jl show ?thesis by simp
    next
      case False
      with jv have js: "pp_jobs s ! j = ((m, d'), ph'')" by simp
      have "m \<noteq> n"
      proof
        assume "m = n"
        with uniq(4) [of j d' ph''] js jl have "j = k" by simp
        with False show False by simp
      qed
      moreover have "((m, d'), ph'') \<in> set (pp_jobs s)"
        using nth_mem [OF jl] js by simp
      ultimately show ?thesis by simp
    qed
  qed
  show ?case
    unfolding pipe_inv_def job_log_append
  proof (intro conjI allI impI)
    fix m d' assume "(m, d') \<in># mset (concat (pp_senders (s\<lparr>pp_jobs := (pp_jobs s)[k := ((n, d), ph')],
      pp_log := pp_log s @ map (Pair n) acts\<rparr>))) + mset (pp_channel (s\<lparr>pp_jobs := (pp_jobs s)[k := ((n, d), ph')],
      pp_log := pp_log s @ map (Pair n) acts\<rparr>))"
    then have m: "(m, d') \<in> set (concat (pp_senders s)) \<union> set (pp_channel s)" by simp
    then have "m \<noteq> n" using uniq(1,2) by blast
    then show "(if m = n then job_log s m @ acts else job_log s m) = []"
      using pipe_inv_senders_channel [OF work(6) m] by simp
  next
    fix m d' ph''
    assume "((m, d'), ph'') \<in> set (pp_jobs (s\<lparr>pp_jobs := (pp_jobs s)[k := ((n, d), ph')],
      pp_log := pp_log s @ map (Pair n) acts\<rparr>))"
    then have "((m, d'), ph'') \<in> set ((pp_jobs s)[k := ((n, d), ph')])" by simp
    from other [OF this]
    show "liquidate_pipeline (pe_dec E) (pe_worker E) (pe_world E m) d' =
        (fst (rest_of_job (pe_dec E) (pe_worker E) (pe_world E m) d' ph''),
         (if m = n then job_log s m @ acts else job_log s m) @
         snd (rest_of_job (pe_dec E) (pe_worker E) (pe_world E m) d' ph''))"
    proof
      assume "((m, d'), ph'') \<in> set (pp_jobs s) \<and> m \<noteq> n"
      with work(6) show ?thesis unfolding pipe_inv_def by simp
    next
      assume "m = n \<and> d' = d \<and> ph'' = ph'"
      with new show ?thesis by simp
    qed
  next
    fix m d' lr
    assume "((m, d'), lr) \<in> set (pp_results (s\<lparr>pp_jobs := (pp_jobs s)[k := ((n, d), ph')],
      pp_log := pp_log s @ map (Pair n) acts\<rparr>))"
    then have r: "((m, d'), lr) \<in> set (pp_results s)" by simp
    then have "m \<noteq> n" using uniq(3) by blast
    with r work(6) show "liquidate_one (pe_dec E) (pe_ymd E) (pe_worker E) (pe_world E m) d' =
        (Some lr, if m = n then job_log s m @ acts else job_log s m)"
      unfolding pipe_inv_def by simp
  qed
next
  case (finish s k n d out lr)
  have "liquidate_one (pe_dec E) (pe_ymd E) (pe_worker E) (pe_world E n) d = (Some lr, job_log s n)"
    using pipe_inv_job [OF finish(6,2,3)] finish(4) by (simp add: liquidate_one_def)
  then show ?case
    using finish(6) set_drop_nth [of k "pp_jobs s"] by (auto simp: pipe_inv_def)
next
  case (panic s k n d out)
  then show ?case by (simp add: pipe_inv_def)
qed

text \<open>All of it along a run.\<close>

lemma pipe_reaches_inv:
  assumes "pipe_reaches E (pipe_init senders) s" and "distinct (map fst (concat senders))"
  shows "pipe_inv E s \<and> pipe_bounded s \<and> distinct (map fst (pipe_items s)) \<and>
         pipe_contents s = mset (concat senders)"
  using assms(1)
proof (induction rule: rtranclp_induct)
  case base
  show ?case
    using assms(2) pipe_inv_init [of E senders]
    by (simp add: pipe_items_def pipe_bounded_def pipe_contents_def pipe_init_def)
next
  case (step s t)
  then show ?case
    using pipe_step_inv [OF step(2)] pipe_step_bounded [OF step(2)] pipe_step_distinct [OF step(2)]
      pipe_step_contents [OF step(2)] by auto
qed

section \<open>Progress and termination\<close>

text \<open>A run that has not finished and not panicked can move.\<close>

lemma pipe_progress:
  assumes "\<not> pp_panicked s" and "\<not> pipe_done s"
  shows "\<exists>t. pipe_step E s t"
proof (cases "pp_jobs s")
  case (Cons job js)
  obtain n d ph where job: "job = ((n, d), ph)" by (metis prod.collapse)
  have k: "0 < length (pp_jobs s)" "pp_jobs s ! 0 = ((n, d), ph)" using Cons job by simp_all
  show ?thesis
  proof (cases "job_step (pe_dec E) (pe_worker E) (pe_world E n) d ph")
    case None
    then obtain out where ph: "ph = Finished out" by (auto simp: job_step_None)
    show ?thesis
      using pipe_step.finish [OF assms(1) k(1) k(2) [unfolded ph], of E]
        pipe_step.panic [OF assms(1) k(1) k(2) [unfolded ph], of E]
      by (cases "liquidation_record (pe_ymd E) d out") blast+
  next
    case (Some r)
    then show ?thesis using pipe_step.work [OF assms(1) k] by (metis prod.collapse)
  qed
next
  case Nil
  show ?thesis
  proof (cases "pp_channel s")
    case (Cons x ch)
    then show ?thesis
      using pipe_step.recv [OF assms(1) Cons, of E] Nil by (auto simp: MAX_CONCURRENT_JOBS_def)
  next
    case channel: Nil
    from assms Nil channel obtain i where "i < length (pp_senders s)" "pp_senders s ! i \<noteq> []"
      by (auto simp: pipe_done_def in_set_conv_nth)
    then show ?thesis
      using pipe_step.send [OF assms(1), of i] channel
      by (cases "pp_senders s ! i") (auto simp: CHANNEL_CAPACITY_def)
  qed
qed

definition pipe_size :: "'d pipe_state \<Rightarrow> nat" where
  "pipe_size s = 7 * length (concat (pp_senders s)) + 6 * length (pp_channel s) +
     sum_list (map (\<lambda>j. phase_size (snd j)) (pp_jobs s)) + (if pp_panicked s then 0 else 1)"

lemma sum_list_drop_nth:
  assumes "k < length xs"
  shows "sum_list (map f xs) = f (xs ! k) + sum_list (map f (drop_nth k xs) :: nat list)"
  using arg_cong [OF mset_drop_nth [OF assms], of "\<lambda>m. sum_mset (image_mset f m)"]
  by (simp add: sum_mset_sum_list flip: mset_map)

lemma pipe_step_size: "pipe_step E s t \<Longrightarrow> pipe_size t < pipe_size s"
proof (induction rule: pipe_step.induct)
  case (send s i x xs)
  have "length (concat (pp_senders s)) = Suc (length (concat ((pp_senders s)[i := xs])))"
    using arg_cong [OF mset_concat_update [OF send(2,3)], of size] by simp
  then show ?case by (simp add: pipe_size_def)
next
  case (recv s x ch)
  then show ?case by (simp add: pipe_size_def)
next
  case (work s k n d ph ph' acts)
  have "map (\<lambda>j. phase_size (snd j)) ((pp_jobs s)[k := ((n, d), ph')]) =
      (map (\<lambda>j. phase_size (snd j)) (pp_jobs s))[k := phase_size ph']"
    by (simp add: map_update)
  moreover have "phase_size ph \<le> sum_list (map (\<lambda>j. phase_size (snd j)) (pp_jobs s))"
    using work(2,3) elem_le_sum_list [of k "map (\<lambda>j. phase_size (snd j)) (pp_jobs s)"] by simp
  ultimately show ?case
    using work job_step_size [OF work(4)] by (simp add: pipe_size_def sum_list_update)
next
  case (finish s k n d out lr)
  then show ?case by (simp add: pipe_size_def sum_list_drop_nth [of k "pp_jobs s"])
next
  case (panic s k n d out)
  then show ?case by (simp add: pipe_size_def)
qed

lemma pipe_terminates: "wfp (\<lambda>t s. pipe_step E s t)"
  by (rule wfp_if_convertible_to_nat [of _ pipe_size]) (rule pipe_step_size)

section \<open>A reference executor\<close>

text \<open>
  One executor among those \<open>pipe_step\<close> allows: it drives the oldest job to its end before it
  takes the next deposit.
\<close>

definition pipe_next :: "'d pipe_env \<Rightarrow> 'd pipe_state \<Rightarrow> 'd pipe_state option" where
  "pipe_next E s =
     (if pp_panicked s then None
      else case pp_jobs s of
        ((n, d), ph) # js \<Rightarrow>
          (case job_step (pe_dec E) (pe_worker E) (pe_world E n) d ph of
             Some (ph', acts) \<Rightarrow>
               Some (s\<lparr>pp_jobs := ((n, d), ph') # js, pp_log := pp_log s @ map (Pair n) acts\<rparr>)
           | None \<Rightarrow>
               (case ph of
                  Finished out \<Rightarrow>
                    (case liquidation_record (pe_ymd E) d out of
                       Some lr \<Rightarrow> Some (s\<lparr>pp_jobs := js, pp_results := pp_results s @ [((n, d), lr)]\<rparr>)
                     | None \<Rightarrow> Some (s\<lparr>pp_panicked := True\<rparr>))
                | _ \<Rightarrow> None))
      | [] \<Rightarrow>
          (case pp_channel s of
             x # ch \<Rightarrow> Some (s\<lparr>pp_channel := ch, pp_jobs := [(x, Ready)]\<rparr>)
           | [] \<Rightarrow>
               (case List.find (\<lambda>i. pp_senders s ! i \<noteq> []) [0..<length (pp_senders s)] of
                  None \<Rightarrow> None
                | Some i \<Rightarrow> Some (s\<lparr>pp_senders := (pp_senders s)[i := tl (pp_senders s ! i)],
                                   pp_channel := [hd (pp_senders s ! i)]\<rparr>))))"

lemma pipe_next_step:
  assumes "pipe_next E s = Some t"
  shows "pipe_step E s t"
proof -
  have np: "\<not> pp_panicked s" using assms by (auto simp: pipe_next_def)
  show ?thesis
  proof (cases "pp_jobs s")
    case (Cons job js)
    obtain n d ph where job: "job = ((n, d), ph)" by (metis prod.collapse)
    have k: "0 < length (pp_jobs s)" "pp_jobs s ! 0 = ((n, d), ph)" using Cons job by simp_all
    show ?thesis
    proof (cases "job_step (pe_dec E) (pe_worker E) (pe_world E n) d ph")
      case (Some r)
      then show ?thesis
        using assms np pipe_step.work [OF np k, of E "fst r" "snd r"]
        by (cases r) (simp add: pipe_next_def Cons job)
    next
      case None
      then obtain out where ph: "ph = Finished out" by (auto simp: job_step_None)
      show ?thesis
        using assms np pipe_step.finish [OF np k(1) k(2) [unfolded ph], of E]
          pipe_step.panic [OF np k(1) k(2) [unfolded ph], of E]
        by (cases "liquidation_record (pe_ymd E) d out")
          (simp_all add: pipe_next_def Cons job ph drop_nth_def)
    qed
  next
    case Nil
    show ?thesis
    proof (cases "pp_channel s")
      case (Cons x ch)
      then show ?thesis
        using assms np Nil pipe_step.recv [OF np Cons, of E]
        by (simp add: pipe_next_def MAX_CONCURRENT_JOBS_def)
    next
      case ch: Nil
      from assms np Nil ch obtain i where i: "i < length (pp_senders s)" "pp_senders s ! i \<noteq> []"
        and t: "t = s\<lparr>pp_senders := (pp_senders s)[i := tl (pp_senders s ! i)],
                     pp_channel := [hd (pp_senders s ! i)]\<rparr>"
        by (auto simp: pipe_next_def find_Some_iff split: option.splits)
      show ?thesis
        using pipe_step.send [OF np i(1), of "hd (pp_senders s ! i)" "tl (pp_senders s ! i)" E] i ch t
        by (simp add: CHANNEL_CAPACITY_def)
    qed
  qed
qed

lemma pipe_next_None:
  assumes "pipe_next E s = None" and "\<not> pp_panicked s"
  shows "pipe_done s"
proof (cases "pp_jobs s")
  case (Cons job js)
  obtain n d ph where job: "job = ((n, d), ph)" by (metis prod.collapse)
  have "\<exists>out. ph = Finished out"
    using assms Cons job
    by (cases "job_step (pe_dec E) (pe_worker E) (pe_world E n) d ph")
      (simp_all add: pipe_next_def job_step_None split: prod.splits)
  with assms Cons job show ?thesis
    by (auto simp: pipe_next_def split: option.splits)
next
  case Nil
  with assms show ?thesis
    by (auto simp: pipe_next_def pipe_done_def find_None_iff in_set_conv_nth split: option.splits list.splits)
qed

function pipe_run :: "'d pipe_env \<Rightarrow> 'd pipe_state \<Rightarrow> 'd pipe_state" where
  "pipe_run E s = (case pipe_next E s of None \<Rightarrow> s | Some t \<Rightarrow> pipe_run E t)"
  by pat_completeness auto
termination
  by (relation "measure (\<lambda>(E, s). pipe_size s)") (auto dest: pipe_next_step pipe_step_size)

declare pipe_run.simps [simp del]

lemma pipe_run_reaches: "pipe_reaches E s (pipe_run E s)"
proof (induction E s rule: pipe_run.induct)
  case (1 E s)
  show ?case
  proof (cases "pipe_next E s")
    case None
    then show ?thesis by (simp add: pipe_run.simps [of E s])
  next
    case (Some t)
    with 1 pipe_next_step [OF Some] show ?thesis
      by (simp add: pipe_run.simps [of E s] converse_rtranclp_into_rtranclp)
  qed
qed

lemma pipe_run_ends: "pipe_done (pipe_run E s) \<or> pp_panicked (pipe_run E s)"
proof (induction E s rule: pipe_run.induct)
  case (1 E s)
  then show ?case
    using pipe_next_None [of E s] by (auto simp: pipe_run.simps [of E s] split: option.split)
qed

section \<open>Panics\<close>

text \<open>Only a deposit whose audit id cannot be built panics the worker.\<close>

lemma pipe_step_panic:
  assumes "pipe_step E s t" and "pp_panicked t" and "\<not> pp_panicked s"
  shows "\<exists>n d. (n, d) \<in># pipe_contents t \<and> make_id (pe_ymd E) (ed_processed_at d) (ed_tx_hash d) = None"
  using assms(1)
proof cases
  case (panic k n d out)
  then have "(n, d) \<in> fst ` set (pp_jobs s)" by (metis fst_conv image_eqI nth_mem)
  then show ?thesis
    using panic by (auto simp: pipe_contents_def liquidation_record_None)
qed (use assms in simp_all)

lemma pipe_reaches_panic:
  assumes "pipe_reaches E (pipe_init senders) s" and "pp_panicked s"
  shows "\<exists>(n, d)\<in>set (concat senders). make_id (pe_ymd E) (ed_processed_at d) (ed_tx_hash d) = None"
proof -
  have contents: "pipe_contents t = mset (concat senders)" if "pipe_reaches E (pipe_init senders) t" for t
    using that by (induction rule: rtranclp_induct)
      (simp_all add: pipe_step_contents, simp add: pipe_contents_def pipe_init_def)
  show ?thesis
    using assms
  proof (induction rule: rtranclp_induct)
    case base
    then show ?case by (simp add: pipe_init_def)
  next
    case (step s t)
    show ?case
    proof (cases "pp_panicked s")
      case True
      with step show ?thesis by simp
    next
      case False
      from pipe_step_panic [OF step(2,4) False] obtain n d where
        "(n, d) \<in># pipe_contents t" and n: "make_id (pe_ymd E) (ed_processed_at d) (ed_tx_hash d) = None" by blast
      moreover have "pipe_contents t = mset (concat senders)"
        using step(1,2) by (intro contents) simp
      ultimately have "(n, d) \<in> set (concat senders)" by (metis set_mset_mset)
      with n show ?thesis by blast
    qed
  qed
qed

section \<open>What is in a run's results and log\<close>

lemma pipe_results_of_done:
  assumes reach: "pipe_reaches E (pipe_init senders) s" and tags: "distinct (map fst (concat senders))"
    and fin: "pipe_done s"
  shows "mset (map fst (pp_results s)) = mset (concat senders)"
    and "((n, d), lr) \<in> set (pp_results s) \<Longrightarrow>
      liquidate_one (pe_dec E) (pe_ymd E) (pe_worker E) (pe_world E n) d = (Some lr, job_log s n)"
proof -
  note inv = pipe_reaches_inv [OF reach tags]
  have "concat (pp_senders s) = []" and "pp_channel s = []" and "pp_jobs s = []"
    using fin by (simp_all add: pipe_done_def)
  then show "mset (map fst (pp_results s)) = mset (concat senders)"
    using inv by (simp add: pipe_contents_def del: concat_eq_Nil_conv)
  show "liquidate_one (pe_dec E) (pe_ymd E) (pe_worker E) (pe_world E n) d = (Some lr, job_log s n)"
    if "((n, d), lr) \<in> set (pp_results s)"
    using inv that by (simp add: pipe_inv_def)
qed

lemma pipe_step_log_known:
  assumes "pipe_step E s t" and "fst ` set (pp_log s) \<subseteq> fst ` set_mset (pipe_contents s)"
  shows "fst ` set (pp_log t) \<subseteq> fst ` set_mset (pipe_contents t)"
  unfolding pipe_step_contents [OF assms(1)]
  using assms
proof (induction rule: pipe_step.induct)
  case (work s k n d ph ph' acts)
  then have "(n, d) \<in> fst ` set (pp_jobs s)" by (metis fst_conv image_eqI nth_mem)
  then have "n \<in> fst ` set_mset (pipe_contents s)" by (force simp: pipe_contents_def)
  moreover have "fst ` set (map (Pair n) acts) \<subseteq> {n}" by auto
  ultimately have "fst ` set (map (Pair n) acts) \<subseteq> fst ` set_mset (pipe_contents s)" by blast
  then show ?case using work(5) by (simp add: image_Un)
qed simp_all

text \<open>At every instant a job's calls are a prefix of its sequential pipeline's.\<close>

lemma pipe_reaches_prefix:
  assumes reach: "pipe_reaches E (pipe_init senders) s" and tags: "distinct (map fst (concat senders))"
    and nd: "(n, d) \<in> set (concat senders)"
  shows "\<exists>rest. snd (liquidate_pipeline (pe_dec E) (pe_worker E) (pe_world E n) d) = job_log s n @ rest"
proof -
  note inv = pipe_reaches_inv [OF reach tags]
  from inv nd have "(n, d) \<in># pipe_contents s" by (metis set_mset_mset)
  then consider "(n, d) \<in> set (concat (pp_senders s)) \<union> set (pp_channel s)"
    | ph where "((n, d), ph) \<in> set (pp_jobs s)" | lr where "((n, d), lr) \<in> set (pp_results s)"
    by (auto simp: pipe_contents_def)
  then show ?thesis
  proof cases
    case 1
    with inv have "job_log s n = []" by (intro pipe_inv_senders_channel [of E s n d]) simp_all
    then show ?thesis by simp
  next
    case 2
    with inv show ?thesis by (auto simp: pipe_inv_def)
  next
    case 3
    with inv have "liquidate_one (pe_dec E) (pe_ymd E) (pe_worker E) (pe_world E n) d = (Some lr, job_log s n)"
      by (simp add: pipe_inv_def)
    then show ?thesis by (auto simp: liquidate_one_def split: prod.splits)
  qed
qed

lemma pipe_reaches_log_known:
  assumes reach: "pipe_reaches E (pipe_init senders) s" and "(n, a) \<in> set (pp_log s)"
  shows "n \<in> fst ` set (concat senders)"
proof -
  have "fst ` set (pp_log s) \<subseteq> fst ` set_mset (pipe_contents s) \<and> pipe_contents s = mset (concat senders)"
    using reach
  proof (induction rule: rtranclp_induct)
    case base
    show ?case by (simp add: pipe_init_def pipe_contents_def)
  next
    case (step s t)
    then have "fst ` set (pp_log t) \<subseteq> fst ` set_mset (pipe_contents t)"
      by (intro pipe_step_log_known [OF step(2)]) blast
    then show ?case using step(3) pipe_step_contents [OF step(2)] by (metis (no_types))
  qed
  with assms(2) show ?thesis by force
qed

section \<open>Properties of the worker\<close>

text \<open>The sample run: one deposit, driven by the reference executor.\<close>

definition sample_env :: "rat pipe_env" where
  "sample_env = \<lparr>pe_dec = rat_decimals, pe_ymd = sample_ymd, pe_worker = sample_worker,
                 pe_world = (\<lambda>_. sample_job_world)\<rparr>"

definition sample_start :: "rat pipe_state" where
  "sample_start = pipe_init [[(0, sample_deposit)]]"

lemma sample_run_done: "pipe_done (pipe_run sample_env sample_start)"
proof -
  have "make_id (pe_ymd sample_env) (ed_processed_at sample_deposit) (ed_tx_hash sample_deposit) \<noteq> None"
    by (simp add: sample_deposit_def sample_hash_def make_id_ascii is_ascii_def)
  then have "\<not> pp_panicked (pipe_run sample_env sample_start)"
    using pipe_reaches_panic [of sample_env "[[(0, sample_deposit)]]", folded sample_start_def, OF pipe_run_reaches]
    by auto
  then show ?thesis using pipe_run_ends by blast
qed

lemma sample_run_reaches: "pipe_reaches sample_env (pipe_init [[(0, sample_deposit)]]) (pipe_run sample_env sample_start)"
  using pipe_run_reaches [of sample_env sample_start] by (simp add: sample_start_def)

text \<open>
  C9. Whatever order the executor runs the jobs in, a run that completes has exactly one result
  per deposit sent, and it is the record the deposit's own sequential pipeline yields; the calls
  made for the deposit are that pipeline's.
\<close>

theorem worker_refines_sequential:
  assumes "pipe_reaches E (pipe_init senders) s" and "distinct (map fst (concat senders))"
    and "pipe_done s"
  shows "mset (map fst (pp_results s)) = mset (concat senders) \<and>
    (\<forall>((n, d), lr)\<in>set (pp_results s).
       liquidate_one (pe_dec E) (pe_ymd E) (pe_worker E) (pe_world E n) d = (Some lr, job_log s n))"
  using pipe_results_of_done [OF assms] by blast

theorem worker_refines_sequential_witness:
  "mset (map fst (pp_results (pipe_run sample_env sample_start))) = {#(0, sample_deposit)#}"
  using worker_refines_sequential [OF sample_run_reaches _ sample_run_done] by simp

text \<open>
  Any two completed runs over the same deposits, however they interleave, produce the same
  results up to order and the same calls for every deposit.
\<close>

theorem worker_schedule_independent:
  assumes "pipe_reaches E (pipe_init senders) s" and "pipe_done s"
    and "pipe_reaches E (pipe_init senders) t" and "pipe_done t"
    and "distinct (map fst (concat senders))"
  shows "mset (pp_results s) = mset (pp_results t) \<and> (\<forall>n. job_log s n = job_log t n)"
proof -
  let ?lr = "\<lambda>(n, d). the (fst (liquidate_one (pe_dec E) (pe_ymd E) (pe_worker E) (pe_world E n) d))"
  have res: "mset (pp_results u) = image_mset (\<lambda>x. (x, ?lr x)) (mset (concat senders))"
    if u: "pipe_reaches E (pipe_init senders) u" "pipe_done u" for u
  proof -
    note r = pipe_results_of_done [OF u(1) assms(5) u(2)]
    have "p = (fst p, ?lr (fst p))" if "p \<in> set (pp_results u)" for p
      using r(2) [of "fst (fst p)" "snd (fst p)" "snd p"] that by (cases p) auto
    then have "map (\<lambda>p. (fst p, ?lr (fst p))) (pp_results u) = pp_results u"
      by (intro map_idI) simp
    then have "mset (pp_results u) = image_mset (\<lambda>x. (x, ?lr x)) (mset (map fst (pp_results u)))"
      by (simp flip: mset_map add: comp_def)
    then show ?thesis using r(1) by simp
  qed
  have log: "job_log u n = (if n \<in> fst ` set (concat senders) then
      snd (liquidate_one (pe_dec E) (pe_ymd E) (pe_worker E) (pe_world E n) (the (map_of (concat senders) n))) else [])"
    if u: "pipe_reaches E (pipe_init senders) u" "pipe_done u" for u n
  proof (cases "n \<in> fst ` set (concat senders)")
    case False
    then have "filter (\<lambda>e. fst e = n) (pp_log u) = []"
      using pipe_reaches_log_known [OF u(1)] by (auto simp: filter_empty_conv)
    then show ?thesis using False by (simp add: job_log_def)
  next
    case True
    then obtain d where d: "(n, d) \<in> set (concat senders)" by force
    note r = pipe_results_of_done [OF u(1) assms(5) u(2)]
    from d r(1) have "(n, d) \<in> set (map fst (pp_results u))" by (metis set_mset_mset)
    then obtain lr where "((n, d), lr) \<in> set (pp_results u)" by auto
    from r(2) [OF this] True d show ?thesis
      by (simp add: map_of_is_SomeI [OF assms(5) d])
  qed
  show ?thesis using res [OF assms(1,2)] res [OF assms(3,4)] log [OF assms(1,2)] log [OF assms(3,4)] by simp
qed

theorem worker_schedule_independent_witness:
  "mset (pp_results (pipe_run sample_env sample_start)) = mset (pp_results (pipe_run sample_env sample_start)) \<and>
   (\<forall>n. job_log (pipe_run sample_env sample_start) n = job_log (pipe_run sample_env sample_start) n)"
  by (rule worker_schedule_independent
      [OF sample_run_reaches sample_run_done sample_run_reaches sample_run_done]) simp

text \<open>
  C10. At every instant of every run, also one that is cut off there, every exchange or alert
  call made belongs to a deposit that discovery sent, and the calls made for a deposit are an
  initial part of its pipeline's: no call twice, none out of order.
\<close>

theorem calls_are_pipeline_prefixes:
  assumes "pipe_reaches E (pipe_init senders) s" and "distinct (map fst (concat senders))"
  shows "(\<forall>(n, a)\<in>set (pp_log s). \<exists>d. (n, d) \<in> set (concat senders)) \<and>
    (\<forall>(n, d)\<in>set (concat senders). \<exists>rest.
       snd (liquidate_pipeline (pe_dec E) (pe_worker E) (pe_world E n) d) = job_log s n @ rest)"
  using pipe_reaches_log_known [OF assms(1)] pipe_reaches_prefix [OF assms] by fastforce

theorem calls_are_pipeline_prefixes_witness:
  "\<exists>rest. snd (liquidate_pipeline (pe_dec sample_env) (pe_worker sample_env) (pe_world sample_env 0) sample_deposit) =
     job_log (pipe_run sample_env sample_start) 0 @ rest"
  using calls_are_pipeline_prefixes [OF sample_run_reaches] by simp

text \<open>
  The channel never holds more than 32 deposits and at most 5 jobs are in flight.
\<close>

theorem worker_bounds:
  assumes "pipe_reaches E (pipe_init senders) s"
  shows "length (pp_channel s) \<le> 32 \<and> length (pp_jobs s) \<le> 5"
proof -
  have "pipe_bounded s" using assms
  proof (induction rule: rtranclp_induct)
    case base
    show ?case by (simp add: pipe_bounded_def pipe_init_def)
  next
    case (step s t)
    then show ?case using pipe_step_bounded by blast
  qed
  then show ?thesis by (simp add: pipe_bounded_def CHANNEL_CAPACITY_def MAX_CONCURRENT_JOBS_def)
qed

theorem worker_bounds_witness: "length (pp_jobs (pipe_run sample_env sample_start)) \<le> 5"
  using worker_bounds [OF sample_run_reaches] by simp



end
