(* ===== verification/Deposit_Check.thy ===== *)
theory Deposit_Check
  imports Chain_Check Worker_Pipeline
begin

text \<open>
  One deposit check pass, \<open>DepositCheck::run\<close> of \<open>src/src/orchestrator.rs\<close>: the chain
  checks of every chain that has an explorer, the worker fed by them, and the merge of both
  results into the persisted state. Chain checks read the state as it was when the pass began
  and never wait for the worker's results, so what they send is computed first; the order in
  which sends and jobs interleave is \<open>pipe_step\<close>'s. The receiver lives until every sender is
  dropped, so no send fails.
\<close>

section \<open>Discovery\<close>

record 'd deposit_check =
  dk_config :: "'d crypto_sweep_config"
  dk_state :: "'d persisted_state"
  dk_explorers :: "chain \<rightharpoonup> 'd block_explorer"

text \<open>
  What a pass meets outside the explorers: each chain's clocks, the exchange and notifier as
  each job meets them, and the clock when a chain's result is merged.
\<close>

record 'd pass_world =
  pw_scan :: "chain \<Rightarrow> scan_world"
  pw_job :: "nat \<Rightarrow> 'd job_world"
  pw_merged_at :: "chain \<Rightarrow> datetime"

definition chain_check_of :: "'d deposit_check \<Rightarrow> chain \<Rightarrow> 'd block_explorer \<Rightarrow> 'd chain_deposit_check" where
  "chain_check_of dk c explorer =
     \<lparr>cc_config = dk_config dk, cc_state = dk_state dk, cc_explorer = explorer, cc_chain = c\<rparr>"

definition sending :: "scan_world \<Rightarrow> scan_world" where
  "sending w = w\<lparr>sw_send_ok := \<lambda>_ _. True\<rparr>"

text \<open>
  \<open>Chain::iter().filter_map(..)\<close> and \<open>join_all\<close>: results in the order of the chains;
  \<open>None\<close> when one of the checks does not return.
\<close>

fun discover ::
  "'d decimal_lib \<Rightarrow> 'd deposit_check \<Rightarrow> 'd pass_world \<Rightarrow> chain list \<Rightarrow>
   ((chain \<times> chain_result) list \<times> 'd eligible_deposit list list) option" where
  "discover D dk pw [] = Some ([], [])"
| "discover D dk pw (c # cs) =
     (case dk_explorers dk c of
        None \<Rightarrow> discover D dk pw cs
      | Some explorer \<Rightarrow>
          (case chain_run D (chain_check_of dk c explorer) (sending (pw_scan pw c)) of
             None \<Rightarrow> None
           | Some (res, dss) \<Rightarrow>
               (case discover D dk pw cs of
                  None \<Rightarrow> None
                | Some (rs, dss') \<Rightarrow> Some ((c, res) # rs, dss @ dss'))))"

text \<open>
  What the chains have for the channel before they have all ended, given how far each has come.
\<close>

fun discover_sends ::
  "'d decimal_lib \<Rightarrow> 'd deposit_check \<Rightarrow> 'd pass_world \<Rightarrow> (chain \<Rightarrow> scan_progress) \<Rightarrow> chain list \<Rightarrow>
   'd eligible_deposit list list" where
  "discover_sends D dk pw progress [] = []"
| "discover_sends D dk pw progress (c # cs) =
     (case dk_explorers dk c of
        None \<Rightarrow> []
      | Some explorer \<Rightarrow> chain_sends D (chain_check_of dk c explorer) (sending (pw_scan pw c)) (progress c)) @
     discover_sends D dk pw progress cs"

section \<open>Merging\<close>

definition merge_last_seen ::
  "datetime \<Rightarrow> chain \<Rightarrow> chain_result \<Rightarrow> 'd persisted_state \<Rightarrow> 'd persisted_state" where
  "merge_last_seen now c res st =
     (case latest_seen_block res of
        Some block \<Rightarrow> st\<lparr>st_last_seen_block :=
           (st_last_seen_block st)(c \<mapsto> \<lparr>lsb_block_number = block, lsb_updated_at = now\<rparr>)\<rparr>
      | None \<Rightarrow> st)"

text \<open>\<open>for hash in result.processed_tx_hashes { state.processed_tx_hashes.insert(hash); }\<close>\<close>

fun insert_hashes :: "string list \<Rightarrow> 'd persisted_state \<Rightarrow> 'd persisted_state" where
  "insert_hashes [] st = st"
| "insert_hashes (h # hs) st =
     insert_hashes hs (st\<lparr>st_processed_tx_hashes := insert h (st_processed_tx_hashes st)\<rparr>)"

fun merge_discovery ::
  "(chain \<Rightarrow> datetime) \<Rightarrow> (chain \<times> chain_result) list \<Rightarrow> 'd persisted_state \<times> string list \<Rightarrow>
   'd persisted_state \<times> string list" where
  "merge_discovery now [] (st, errors) = (st, errors)"
| "merge_discovery now ((c, res) # rs) (st, errors) =
     merge_discovery now rs
       (insert_hashes (cr_processed_tx_hashes res) (merge_last_seen (now c) c res st),
        errors @ cr_errors res)"

fun merge_liquidations :: "'d liquidation_result list \<Rightarrow> 'd persisted_state \<Rightarrow> 'd persisted_state" where
  "merge_liquidations [] st = st"
| "merge_liquidations (l # ls) st =
     merge_liquidations ls
       (st\<lparr>st_bank_payments := (st_bank_payments st)(bp_id (lr_payment l) \<mapsto> lr_payment l),
           st_processed_tx_hashes := insert (lr_tx_hash l) (st_processed_tx_hashes st)\<rparr>)"

section \<open>The pass\<close>

definition worker_of :: "'d crypto_sweep_config \<Rightarrow> 'd cb_worker" where
  "worker_of config = \<lparr>cw_max_auto_amount = cfg_max_auto_amount config,
                       cw_sell_settle_delay_secs = cfg_sell_settle_delay_secs config\<rparr>"

definition pass_env ::
  "'d decimal_lib \<Rightarrow> (datetime \<Rightarrow> string) \<Rightarrow> 'd deposit_check \<Rightarrow> 'd pass_world \<Rightarrow> 'd pipe_env" where
  "pass_env D ymd dk pw = \<lparr>pe_dec = D, pe_ymd = ymd, pe_worker = worker_of (dk_config dk), pe_world = pw_job pw\<rparr>"

fun tag_senders :: "nat \<Rightarrow> 'a list list \<Rightarrow> (nat \<times> 'a) list list" where
  "tag_senders n [] = []"
| "tag_senders n (ds # dss) = List.enumerate n ds # tag_senders (n + length ds) dss"

definition pass_state ::
  "'d deposit_check \<Rightarrow> 'd pass_world \<Rightarrow> (chain \<times> chain_result) list \<Rightarrow> 'd liquidation_result list \<Rightarrow>
   'd persisted_state \<times> string list" where
  "pass_state dk pw chain_results liquidations =
     (case merge_discovery (pw_merged_at pw) chain_results (dk_state dk, []) of
        (st, errors) \<Rightarrow> (merge_liquidations liquidations st, errors))"

text \<open>
  A pass that returns: the final state, the errors and the external calls in the order the
  executor made them.
\<close>

inductive deposit_check_run ::
  "'d decimal_lib \<Rightarrow> (datetime \<Rightarrow> string) \<Rightarrow> 'd deposit_check \<Rightarrow> 'd pass_world \<Rightarrow>
   'd persisted_state \<Rightarrow> string list \<Rightarrow> (nat \<times> 'd action) list \<Rightarrow> bool" for D ymd dk pw where
  joined: "discover D dk pw chain_iter = Some (chain_results, senders) \<Longrightarrow>
     pipe_reaches (pass_env D ymd dk pw) (pipe_init (tag_senders 0 senders)) s \<Longrightarrow> pipe_done s \<Longrightarrow>
     pass_state dk pw chain_results (map snd (pp_results s)) = (st, errors) \<Longrightarrow>
     deposit_check_run D ymd dk pw st errors (pp_log s)"

inductive_cases deposit_check_runE: "deposit_check_run D ymd dk pw st errors calls"

section \<open>Tags\<close>

lemma concat_tag_senders: "concat (tag_senders n dss) = List.enumerate n (concat dss)"
  by (induction n dss rule: tag_senders.induct) (simp_all add: enumerate_append_eq)

lemma distinct_tags: "distinct (map fst (concat (tag_senders n dss)))"
  by (simp add: concat_tag_senders)

section \<open>What the merges do\<close>

lemma insert_hashes_simps [simp]:
  "st_processed_tx_hashes (insert_hashes hs st) = st_processed_tx_hashes st \<union> set hs"
  "st_bank_payments (insert_hashes hs st) = st_bank_payments st"
  "st_last_seen_block (insert_hashes hs st) = st_last_seen_block st"
  by (induction hs st rule: insert_hashes.induct) auto

lemma merge_last_seen_simps [simp]:
  "st_processed_tx_hashes (merge_last_seen now c res st) = st_processed_tx_hashes st"
  "st_bank_payments (merge_last_seen now c res st) = st_bank_payments st"
  by (simp_all add: merge_last_seen_def split: option.split)

lemma st_last_seen_merge_last_seen [simp]:
  "st_last_seen_block (merge_last_seen now c res st) c' =
     (case latest_seen_block res of
        Some block \<Rightarrow> if c' = c then Some \<lparr>lsb_block_number = block, lsb_updated_at = now\<rparr>
                     else st_last_seen_block st c'
      | None \<Rightarrow> st_last_seen_block st c')"
  by (simp add: merge_last_seen_def split: option.split)

lemma merge_discovery_simps [simp]:
  "st_processed_tx_hashes (fst (merge_discovery now rs p)) =
     st_processed_tx_hashes (fst p) \<union> (\<Union>(c, r)\<in>set rs. set (cr_processed_tx_hashes r))"
  "st_bank_payments (fst (merge_discovery now rs p)) = st_bank_payments (fst p)"
  "snd (merge_discovery now rs p) = snd p @ concat (map (cr_errors \<circ> snd) rs)"
  by (induction now rs p rule: merge_discovery.induct) auto

lemma merge_discovery_last_seen:
  assumes "distinct (map fst rs)"
  shows "st_last_seen_block (fst (merge_discovery now rs p)) c =
     (case Option.bind (map_of rs c) latest_seen_block of
        Some block \<Rightarrow> Some \<lparr>lsb_block_number = block, lsb_updated_at = now c\<rparr>
      | None \<Rightarrow> st_last_seen_block (fst p) c)"
  using assms
proof (induction now rs p rule: merge_discovery.induct)
  case (1 now st errors)
  then show ?case by simp
next
  case (2 now c' res rs st errors)
  have "map_of rs c = None" if "c = c'"
    using 2(2) that by (simp add: map_of_eq_None_iff)
  with 2 show ?case by (auto split: option.split)
qed

lemma merge_liquidations_simps [simp]:
  "st_processed_tx_hashes (merge_liquidations ls st) = st_processed_tx_hashes st \<union> set (map lr_tx_hash ls)"
  "st_last_seen_block (merge_liquidations ls st) = st_last_seen_block st"
  by (induction ls st rule: merge_liquidations.induct) auto

lemma merge_liquidations_other:
  "i \<notin> (bp_id \<circ> lr_payment) ` set ls \<Longrightarrow> st_bank_payments (merge_liquidations ls st) i = st_bank_payments st i"
  by (induction ls st rule: merge_liquidations.induct) auto

lemma merge_liquidations_some:
  "i \<in> (bp_id \<circ> lr_payment) ` set ls \<Longrightarrow>
   \<exists>l\<in>set ls. bp_id (lr_payment l) = i \<and> st_bank_payments (merge_liquidations ls st) i = Some (lr_payment l)"
proof (induction ls st rule: merge_liquidations.induct)
  case (1 st)
  then show ?case by simp
next
  case (2 l ls st)
  show ?case
  proof (cases "i \<in> (bp_id \<circ> lr_payment) ` set ls")
    case True
    from 2(1) [OF this] show ?thesis by auto
  next
    case False
    with 2(2) show ?thesis by (auto simp: merge_liquidations_other)
  qed
qed

section \<open>What discovery sends\<close>

lemma discover_hashes:
  "discover D dk pw cs = Some (rs, dss) \<Longrightarrow>
   (\<Union>(c, r)\<in>set rs. set (cr_processed_tx_hashes r)) = ed_tx_hash ` set (concat dss)"
proof (induction cs arbitrary: rs dss)
  case Nil
  then show ?case by simp
next
  case (Cons c cs)
  show ?case
  proof (cases "dk_explorers dk c")
    case None
    with Cons show ?thesis by simp
  next
    case (Some ex)
    with Cons.prems obtain res dc rs' dss' where
      run: "chain_run D (chain_check_of dk c ex) (sending (pw_scan pw c)) = Some (res, dc)"
      and rest: "discover D dk pw cs = Some (rs', dss')"
      and eq: "rs = (c, res) # rs'" "dss = dc @ dss'"
      by (auto split: option.splits)
    show ?thesis
      using Cons.IH [OF rest] chain_run_hashes [OF run] by (simp add: eq image_Un)
  qed
qed

lemma discover_chains:
  "discover D dk pw cs = Some (rs, dss) \<Longrightarrow> map fst rs = filter (\<lambda>c. dk_explorers dk c \<noteq> None) cs"
  by (induction cs arbitrary: rs dss) (auto split: option.splits)

lemma discover_result:
  assumes "discover D dk pw cs = Some (rs, dss)" and "c \<in> set cs" and "dk_explorers dk c = Some ex"
  obtains res dc where "(c, res) \<in> set rs" and "set dc \<subseteq> set dss"
    and "chain_run D (chain_check_of dk c ex) (sending (pw_scan pw c)) = Some (res, dc)"
proof -
  have "\<exists>res dc. (c, res) \<in> set rs \<and> set dc \<subseteq> set dss \<and>
      chain_run D (chain_check_of dk c ex) (sending (pw_scan pw c)) = Some (res, dc)"
    using assms(1,2)
  proof (induction cs arbitrary: rs dss)
    case Nil
    then show ?case by simp
  next
    case (Cons c' cs)
    show ?case
    proof (cases "c' = c")
      case True
      with Cons.prems assms(3) show ?thesis by (auto split: option.splits)
    next
      case False
      with Cons.prems(2) have m: "c \<in> set cs" by simp
      from Cons.prems(1) have "\<exists>rs' dss'. discover D dk pw cs = Some (rs', dss') \<and>
          set rs' \<subseteq> set rs \<and> set dss' \<subseteq> set dss"
        by (auto split: option.splits)
      then obtain rs' dss' where rest: "discover D dk pw cs = Some (rs', dss')"
        and sub: "set rs' \<subseteq> set rs" "set dss' \<subseteq> set dss" by blast
      from Cons.IH [OF rest m] sub show ?thesis by blast
    qed
  qed
  then show thesis using that by blast
qed

lemma discover_deposit:
  assumes "discover D dk pw cs = Some (rs, dss)" and "ds \<in> set dss"
  obtains c ex res dc where "c \<in> set cs" and "dk_explorers dk c = Some ex" and "ds \<in> set dc"
    and "chain_run D (chain_check_of dk c ex) (sending (pw_scan pw c)) = Some (res, dc)"
proof -
  have "\<exists>c ex res dc. c \<in> set cs \<and> dk_explorers dk c = Some ex \<and> ds \<in> set dc \<and>
      chain_run D (chain_check_of dk c ex) (sending (pw_scan pw c)) = Some (res, dc)"
    using assms
  proof (induction cs arbitrary: rs dss)
    case Nil
    then show ?case by simp
  next
    case (Cons c cs)
    show ?case
    proof (cases "dk_explorers dk c")
      case None
      with Cons show ?thesis by auto
    next
      case (Some ex)
      with Cons.prems(1) obtain res dc rs' dss' where
        run: "chain_run D (chain_check_of dk c ex) (sending (pw_scan pw c)) = Some (res, dc)"
        and rest: "discover D dk pw cs = Some (rs', dss')" and eq: "dss = dc @ dss'"
        by (auto split: option.splits)
      from eq Cons.prems(2) consider "ds \<in> set dc" | "ds \<in> set dss'" by auto
      then show ?thesis
      proof cases
        case 1
        with Some run show ?thesis by (metis list.set_intros(1))
      next
        case 2
        from Cons.IH [OF rest 2] show ?thesis by auto
      qed
    qed
  qed
  then show thesis using that by blast
qed

lemma discover_sends_all:
  "discover D dk pw cs = Some (rs, dss) \<Longrightarrow> discover_sends D dk pw (\<lambda>_. Some (\<lambda>_. True)) cs = dss"
  by (induction cs arbitrary: rs dss) (auto simp: chain_sends_all split: option.splits)

lemma discover_sends_elem:
  assumes "ds \<in> set (discover_sends D dk pw progress cs)"
  obtains c ex where "dk_explorers dk c = Some ex"
    and "ds \<in> set (chain_sends D (chain_check_of dk c ex) (sending (pw_scan pw c)) (progress c))"
proof -
  have "\<exists>c ex. dk_explorers dk c = Some ex \<and>
      ds \<in> set (chain_sends D (chain_check_of dk c ex) (sending (pw_scan pw c)) (progress c))"
    using assms
  proof (induction cs)
    case (Cons c cs)
    then show ?case by (cases "dk_explorers dk c") auto
  qed simp
  with that show thesis by blast
qed

section \<open>What the pass does\<close>

lemma pass_env_simps [simp]:
  "pe_dec (pass_env D ymd dk pw) = D" "pe_ymd (pass_env D ymd dk pw) = ymd"
  "pe_worker (pass_env D ymd dk pw) = worker_of (dk_config dk)"
  "pe_world (pass_env D ymd dk pw) = pw_job pw"
  by (simp_all add: pass_env_def)

text \<open>The results of a finished pass: one per deposit, the record of its own pipeline.\<close>

lemma pass_results:
  assumes reach: "pipe_reaches (pass_env D ymd dk pw) (pipe_init (tag_senders 0 dss)) s" and fin: "pipe_done s"
  shows "mset (map fst (pp_results s)) = mset (List.enumerate 0 (concat dss))"
    and "((n, d), lr) \<in> set (pp_results s) \<Longrightarrow>
      liquidate_one D ymd (worker_of (dk_config dk)) (pw_job pw n) d = (Some lr, job_log s n)"
proof -
  note inv = pipe_reaches_inv [OF reach distinct_tags]
  have "concat (pp_senders s) = []" and "pp_channel s = []" and "pp_jobs s = []"
    using fin by (simp_all add: pipe_done_def)
  then show "mset (map fst (pp_results s)) = mset (List.enumerate 0 (concat dss))"
    using inv by (simp add: pipe_contents_def concat_tag_senders del: concat_eq_Nil_conv)
  show "liquidate_one D ymd (worker_of (dk_config dk)) (pw_job pw n) d = (Some lr, job_log s n)"
    if "((n, d), lr) \<in> set (pp_results s)"
    using inv that unfolding pipe_inv_def by (metis pass_env_simps)
qed

lemma liquidate_one_fields:
  assumes "liquidate_one D ymd cw jw d = (Some lr, acts)"
  shows "lr_tx_hash lr = ed_tx_hash d"
    and "make_id ymd (ed_processed_at d) (ed_tx_hash d) = Some (bp_id (lr_payment lr))"
  using assms by (auto simp: liquidate_one_def liquidation_record_Some split: prod.splits)

lemma liquidate_one_record:
  assumes "make_id ymd (ed_processed_at d) (ed_tx_hash d) = Some i"
  obtains lr acts where "liquidate_one D ymd cw jw d = (Some lr, acts)" and "lr_tx_hash lr = ed_tx_hash d"
    and "bp_id (lr_payment lr) = i" and "bp_deposit_tx_hash (lr_payment lr) = ed_tx_hash d"
proof -
  obtain out acts where "liquidate_pipeline D cw jw d = (out, acts)" by fastforce
  with assms show thesis
    by (intro that [where acts = acts]) (auto simp: liquidate_one_def liquidation_record_def)
qed

lemma pass_result_of:
  assumes reach: "pipe_reaches (pass_env D ymd dk pw) (pipe_init (tag_senders 0 dss)) s" and fin: "pipe_done s"
    and n: "n < length (concat dss)"
  obtains lr where "((n, concat dss ! n), lr) \<in> set (pp_results s)"
    and "liquidate_one D ymd (worker_of (dk_config dk)) (pw_job pw n) (concat dss ! n) = (Some lr, job_log s n)"
proof -
  have "(n, concat dss ! n) \<in> set (List.enumerate 0 (concat dss))"
    using n by (simp add: in_set_enumerate_eq)
  then have "(n, concat dss ! n) \<in> set (map fst (pp_results s))"
    using pass_results(1) [OF reach fin] by (metis set_mset_mset)
  then obtain lr where lr: "((n, concat dss ! n), lr) \<in> set (pp_results s)" by auto
  from that [OF lr pass_results(2) [OF reach fin lr]] show thesis .
qed

lemma pass_result_from:
  assumes reach: "pipe_reaches (pass_env D ymd dk pw) (pipe_init (tag_senders 0 dss)) s" and fin: "pipe_done s"
    and lr: "((n, d), lr) \<in> set (pp_results s)"
  shows "n < length (concat dss) \<and> d = concat dss ! n"
proof -
  have "(n, d) \<in> set (map fst (pp_results s))" using lr by force
  then have "(n, d) \<in> set (List.enumerate 0 (concat dss))"
    using pass_results(1) [OF reach fin] by (metis set_mset_mset)
  then show ?thesis by (auto simp: in_set_enumerate_eq)
qed

section \<open>The final state of a pass\<close>

lemma pass_final:
  assumes "deposit_check_run D ymd dk pw st errors calls"
  obtains rs dss s where "discover D dk pw chain_iter = Some (rs, dss)"
    and "pipe_reaches (pass_env D ymd dk pw) (pipe_init (tag_senders 0 dss)) s" and "pipe_done s"
    and "calls = pp_log s"
    and "st_processed_tx_hashes st = st_processed_tx_hashes (dk_state dk) \<union> ed_tx_hash ` set (concat dss)"
    and "errors = concat (map (cr_errors \<circ> snd) rs)"
    and "\<And>c. st_last_seen_block st c =
       (case Option.bind (map_of rs c) latest_seen_block of
          Some block \<Rightarrow> Some \<lparr>lsb_block_number = block, lsb_updated_at = pw_merged_at pw c\<rparr>
        | None \<Rightarrow> st_last_seen_block (dk_state dk) c)"
    and "\<And>i. i \<notin> (bp_id \<circ> lr_payment) ` set (map snd (pp_results s)) \<Longrightarrow>
       st_bank_payments st i = st_bank_payments (dk_state dk) i"
    and "\<And>i. i \<in> (bp_id \<circ> lr_payment) ` set (map snd (pp_results s)) \<Longrightarrow>
       \<exists>l\<in>set (map snd (pp_results s)). bp_id (lr_payment l) = i \<and> st_bank_payments st i = Some (lr_payment l)"
  using assms
proof cases
  case (joined rs dss s)
  let ?m = "merge_discovery (pw_merged_at pw) rs (dk_state dk, [])"
  let ?ls = "map snd (pp_results s)"
  have st: "st = merge_liquidations ?ls (fst ?m)" "errors = snd ?m"
    using joined(5) unfolding pass_state_def by (simp_all del: merge_discovery_simps split: prod.splits)
  have "lr_tx_hash ` set ?ls \<subseteq> ed_tx_hash ` set (concat dss)"
  proof
    fix h
    assume "h \<in> lr_tx_hash ` set ?ls"
    then obtain n d lr where lr: "((n, d), lr) \<in> set (pp_results s)" "h = lr_tx_hash lr" by auto
    from liquidate_one_fields(1) [OF pass_results(2) [OF joined(3,4) lr(1)]]
      pass_result_from [OF joined(3,4) lr(1)] lr(2)
    show "h \<in> ed_tx_hash ` set (concat dss)" by (metis imageI nth_mem)
  qed
  then have hashes: "st_processed_tx_hashes st = st_processed_tx_hashes (dk_state dk) \<union> ed_tx_hash ` set (concat dss)"
    using discover_hashes [OF joined(2)] by (auto simp: st(1))
  have "distinct (map fst rs)" using discover_chains [OF joined(2)] by simp
  note seen = merge_discovery_last_seen [OF this, of "pw_merged_at pw" "(dk_state dk, [])"]
  show thesis
  proof (rule that [OF joined(2-4) joined(1) hashes])
    show "errors = concat (map (cr_errors \<circ> snd) rs)" by (simp add: st(2))
    show "st_last_seen_block st c =
       (case Option.bind (map_of rs c) latest_seen_block of
          Some block \<Rightarrow> Some \<lparr>lsb_block_number = block, lsb_updated_at = pw_merged_at pw c\<rparr>
        | None \<Rightarrow> st_last_seen_block (dk_state dk) c)" for c
      by (simp add: st(1) seen split: option.split)
    show "st_bank_payments st i = st_bank_payments (dk_state dk) i"
      if "i \<notin> (bp_id \<circ> lr_payment) ` set ?ls" for i
      using merge_liquidations_other [OF that, of "fst ?m"] by (simp add: st(1))
    show "\<exists>l\<in>set ?ls. bp_id (lr_payment l) = i \<and> st_bank_payments st i = Some (lr_payment l)"
      if "i \<in> (bp_id \<circ> lr_payment) ` set ?ls" for i
      using merge_liquidations_some [OF that, of "fst ?m"] by (simp add: st(1))
  qed
qed

text \<open>The audit ids of the deposits of a pass, as far as their hashes can be cut.\<close>

definition audit_id :: "(datetime \<Rightarrow> string) \<Rightarrow> 'd eligible_deposit \<Rightarrow> string option" where
  "audit_id ymd d = make_id ymd (ed_processed_at d) (ed_tx_hash d)"

lemma pass_ids:
  assumes "pipe_reaches (pass_env D ymd dk pw) (pipe_init (tag_senders 0 dss)) s" and "pipe_done s"
  shows "i \<in> (bp_id \<circ> lr_payment) ` set (map snd (pp_results s)) \<longleftrightarrow>
    (\<exists>d\<in>set (concat dss). audit_id ymd d = Some i)"
proof
  assume "i \<in> (bp_id \<circ> lr_payment) ` set (map snd (pp_results s))"
  then obtain n d lr where lr: "((n, d), lr) \<in> set (pp_results s)" "i = bp_id (lr_payment lr)" by auto
  from liquidate_one_fields(2) [OF pass_results(2) [OF assms lr(1)]] pass_result_from [OF assms lr(1)] lr(2)
  show "\<exists>d\<in>set (concat dss). audit_id ymd d = Some i" unfolding audit_id_def by (metis nth_mem)
next
  assume "\<exists>d\<in>set (concat dss). audit_id ymd d = Some i"
  then obtain n where n: "n < length (concat dss)" "audit_id ymd (concat dss ! n) = Some i"
    by (metis in_set_conv_nth)
  obtain lr where lr: "((n, concat dss ! n), lr) \<in> set (pp_results s)"
    and one: "liquidate_one D ymd (worker_of (dk_config dk)) (pw_job pw n) (concat dss ! n) = (Some lr, job_log s n)"
    by (rule pass_result_of [OF assms n(1)])
  from liquidate_one_fields(2) [OF one] n(2) have "bp_id (lr_payment lr) = i" by (simp add: audit_id_def)
  moreover have "lr \<in> set (map snd (pp_results s))" using lr by force
  ultimately show "i \<in> (bp_id \<circ> lr_payment) ` set (map snd (pp_results s))" by auto
qed

text \<open>With distinct ids every deposit keeps its own record.\<close>

lemma pass_own_record:
  assumes run: "deposit_check_run D ymd dk pw st errors calls"
    and disc: "discover D dk pw chain_iter = Some (rs, dss)"
    and ids: "distinct (map (audit_id ymd) (concat dss))" and n: "n < length (concat dss)"
  obtains lr acts where
    "liquidate_one D ymd (worker_of (dk_config dk)) (pw_job pw n) (concat dss ! n) = (Some lr, acts)"
    and "audit_id ymd (concat dss ! n) = Some (bp_id (lr_payment lr))"
    and "st_bank_payments st (bp_id (lr_payment lr)) = Some (lr_payment lr)"
  using run
proof (rule pass_final)
  fix rs' dss' s
  assume d': "discover D dk pw chain_iter = Some (rs', dss')"
    and reach': "pipe_reaches (pass_env D ymd dk pw) (pipe_init (tag_senders 0 dss')) s" and fin: "pipe_done s"
    and some: "\<And>i. i \<in> (bp_id \<circ> lr_payment) ` set (map snd (pp_results s)) \<Longrightarrow>
       \<exists>l\<in>set (map snd (pp_results s)). bp_id (lr_payment l) = i \<and> st_bank_payments st i = Some (lr_payment l)"
  have "dss' = dss" using d' disc by simp
  with reach' have reach: "pipe_reaches (pass_env D ymd dk pw) (pipe_init (tag_senders 0 dss)) s" by simp
  obtain lr where lr: "((n, concat dss ! n), lr) \<in> set (pp_results s)"
    and one: "liquidate_one D ymd (worker_of (dk_config dk)) (pw_job pw n) (concat dss ! n) = (Some lr, job_log s n)"
    by (rule pass_result_of [OF reach fin n])
  have idn: "audit_id ymd (concat dss ! n) = Some (bp_id (lr_payment lr))"
    using liquidate_one_fields(2) [OF one] by (simp add: audit_id_def)
  have "lr \<in> set (map snd (pp_results s))" using lr by force
  then have "bp_id (lr_payment lr) \<in> (bp_id \<circ> lr_payment) ` set (map snd (pp_results s))" by auto
  from some [OF this] obtain m d l where l: "((m, d), l) \<in> set (pp_results s)"
    and lid: "bp_id (lr_payment l) = bp_id (lr_payment lr)"
    and stl: "st_bank_payments st (bp_id (lr_payment lr)) = Some (lr_payment l)" by auto
  have m: "m < length (concat dss) \<and> d = concat dss ! m" by (rule pass_result_from [OF reach fin l])
  have onel: "liquidate_one D ymd (worker_of (dk_config dk)) (pw_job pw m) d = (Some l, job_log s m)"
    by (rule pass_results(2) [OF reach fin l])
  have "audit_id ymd (concat dss ! m) = audit_id ymd (concat dss ! n)"
    using liquidate_one_fields(2) [OF onel] m lid idn by (simp add: audit_id_def)
  then have "m = n" using nth_eq_iff_index_eq [OF ids, of m n] m n by simp
  with onel one m have "l = lr" by simp
  with stl have "st_bank_payments st (bp_id (lr_payment lr)) = Some (lr_payment lr)" by simp
  from that [OF one idn this] show thesis .
qed

lemma pass_hashes:
  assumes "deposit_check_run D ymd dk pw st errors calls"
    and "discover D dk pw chain_iter = Some (rs, dss)"
  shows "st_processed_tx_hashes st = st_processed_tx_hashes (dk_state dk) \<union> ed_tx_hash ` set (concat dss)"
  using assms(1) by (rule pass_final) (use assms(2) in simp)

text \<open>Records under ids that no deposit of the pass has are untouched.\<close>

lemma pass_untouched:
  assumes run: "deposit_check_run D ymd dk pw st errors calls"
    and disc: "discover D dk pw chain_iter = Some (rs, dss)"
    and i: "\<forall>d\<in>set (concat dss). audit_id ymd d \<noteq> Some i"
  shows "st_bank_payments st i = st_bank_payments (dk_state dk) i"
  using run
proof (rule pass_final)
  fix rs' dss' s
  assume d': "discover D dk pw chain_iter = Some (rs', dss')"
    and reach: "pipe_reaches (pass_env D ymd dk pw) (pipe_init (tag_senders 0 dss')) s" and fin: "pipe_done s"
    and other: "\<And>i. i \<notin> (bp_id \<circ> lr_payment) ` set (map snd (pp_results s)) \<Longrightarrow>
       st_bank_payments st i = st_bank_payments (dk_state dk) i"
  have "dss' = dss" using d' disc by simp
  with i have "i \<notin> (bp_id \<circ> lr_payment) ` set (map snd (pp_results s))"
    using pass_ids [OF reach fin, of i] by simp
  then show ?thesis by (rule other)
qed

text \<open>Discovery never sends a hash of the dedup set it started from.\<close>

lemma discover_fresh:
  assumes "discover D dk pw cs = Some (rs, dss)" and "d \<in> set (concat dss)"
  shows "ed_tx_hash d \<notin> st_processed_tx_hashes (dk_state dk)"
proof -
  from assms(2) obtain ds where ds: "ds \<in> set dss" "d \<in> set ds" by auto
  obtain c ex res dc where "ds \<in> set dc"
    and run: "chain_run D (chain_check_of dk c ex) (sending (pw_scan pw c)) = Some (res, dc)"
    by (rule discover_deposit [OF assms(1) ds(1)])
  from chain_run_sound [OF run this(1) ds(2)] show ?thesis by (simp add: chain_check_of_def)
qed

section \<open>A sample pass\<close>

definition sample_pass :: "rat deposit_check" where
  "sample_pass = \<lparr>dk_config = sample_config, dk_state = default_state,
                  dk_explorers = [Ethereum \<mapsto> sample_explorer]\<rparr>"

definition sample_pass_world :: "rat pass_world" where
  "sample_pass_world = \<lparr>pw_scan = (\<lambda>_. sample_scan_world), pw_job = (\<lambda>_. sample_job_world),
                        pw_merged_at = (\<lambda>_. 50)\<rparr>"

lemma sample_discover:
  "discover rat_decimals sample_pass sample_pass_world chain_iter =
     Some ([(Ethereum, ChainResult [sample_hash] (Some 22000180) [])], [[sample_deposit]])"
proof -
  have "chain_check_of sample_pass Ethereum sample_explorer = sample_check"
    by (simp add: chain_check_of_def sample_pass_def sample_check_def)
  moreover have "sending sample_scan_world = sample_scan_world"
    by (simp add: sending_def sample_scan_world_def)
  moreover have "pw_scan sample_pass_world c = sample_scan_world" for c
    by (simp add: sample_pass_world_def)
  moreover have "dk_explorers sample_pass = [Ethereum \<mapsto> sample_explorer]"
    by (simp add: sample_pass_def)
  ultimately show ?thesis by (simp add: chain_iter_def sample_chain_run)
qed

lemma sample_pass_env: "pass_env rat_decimals sample_ymd sample_pass sample_pass_world = sample_env"
  by (simp add: pass_env_def sample_env_def sample_pass_def sample_pass_world_def worker_of_def
      sample_worker_def sample_config_def)

lemma sample_pass_runs:
  "\<exists>st errors calls. deposit_check_run rat_decimals sample_ymd sample_pass sample_pass_world st errors calls"
proof -
  have "pipe_reaches sample_env (pipe_init (tag_senders 0 [[sample_deposit]])) (pipe_run sample_env sample_start)"
    using sample_run_reaches by simp
  with sample_discover sample_run_done show ?thesis
    by (metis (no_types, lifting) deposit_check_run.joined prod.collapse sample_pass_env)
qed

section \<open>Properties of the pass\<close>

text \<open>
  C8. After a completed pass the dedup set is the old one and the hashes of exactly the deposits
  sent; an audit record exists for the id of every deposit sent; and no record under another id
  was touched.
\<close>

theorem pass_accounts_for_every_deposit:
  assumes "deposit_check_run D ymd dk pw st errors calls"
    and "discover D dk pw chain_iter = Some (rs, dss)"
  shows "st_processed_tx_hashes st = st_processed_tx_hashes (dk_state dk) \<union> ed_tx_hash ` set (concat dss) \<and>
    (\<forall>d\<in>set (concat dss). \<exists>i p. audit_id ymd d = Some i \<and> st_bank_payments st i = Some p \<and> bp_id p = i) \<and>
    (\<forall>i. (\<forall>d\<in>set (concat dss). audit_id ymd d \<noteq> Some i) \<longrightarrow>
         st_bank_payments st i = st_bank_payments (dk_state dk) i)"
  using assms(1)
proof (rule pass_final)
  fix rs' dss' s
  assume d': "discover D dk pw chain_iter = Some (rs', dss')"
    and reach': "pipe_reaches (pass_env D ymd dk pw) (pipe_init (tag_senders 0 dss')) s" and fin: "pipe_done s"
    and hashes: "st_processed_tx_hashes st = st_processed_tx_hashes (dk_state dk) \<union> ed_tx_hash ` set (concat dss')"
    and other: "\<And>i. i \<notin> (bp_id \<circ> lr_payment) ` set (map snd (pp_results s)) \<Longrightarrow>
       st_bank_payments st i = st_bank_payments (dk_state dk) i"
    and some: "\<And>i. i \<in> (bp_id \<circ> lr_payment) ` set (map snd (pp_results s)) \<Longrightarrow>
       \<exists>l\<in>set (map snd (pp_results s)). bp_id (lr_payment l) = i \<and> st_bank_payments st i = Some (lr_payment l)"
  have eq: "dss' = dss" using d' assms(2) by simp
  note ids = pass_ids [OF reach' [unfolded eq] fin]
  show ?thesis
  proof (intro conjI ballI allI impI)
    show "st_processed_tx_hashes st = st_processed_tx_hashes (dk_state dk) \<union> ed_tx_hash ` set (concat dss)"
      using hashes eq by simp
  next
    fix d assume d: "d \<in> set (concat dss)"
    then obtain n where n: "n < length (concat dss)" "d = concat dss ! n" by (metis in_set_conv_nth)
    obtain lr where "liquidate_one D ymd (worker_of (dk_config dk)) (pw_job pw n) (concat dss ! n) = (Some lr, job_log s n)"
      by (rule pass_result_of [OF reach' [unfolded eq] fin n(1)])
    from liquidate_one_fields(2) [OF this] n(2) have "audit_id ymd d = Some (bp_id (lr_payment lr))"
      by (simp add: audit_id_def)
    with some [of "bp_id (lr_payment lr)"] ids d
    show "\<exists>i p. audit_id ymd d = Some i \<and> st_bank_payments st i = Some p \<and> bp_id p = i" by metis
  next
    fix i assume "\<forall>d\<in>set (concat dss). audit_id ymd d \<noteq> Some i"
    with ids other [of i] show "st_bank_payments st i = st_bank_payments (dk_state dk) i" by blast
  qed
qed

theorem pass_accounts_for_every_deposit_witness:
  "\<exists>st errors calls. deposit_check_run rat_decimals sample_ymd sample_pass sample_pass_world st errors calls \<and>
     st_processed_tx_hashes st = {sample_hash} \<and>
     (\<exists>i p. audit_id sample_ymd sample_deposit = Some i \<and> st_bank_payments st i = Some p)"
proof -
  obtain st errors calls where
    run: "deposit_check_run rat_decimals sample_ymd sample_pass sample_pass_world st errors calls"
    using sample_pass_runs by blast
  have "st_processed_tx_hashes (dk_state sample_pass) = {}" "ed_tx_hash sample_deposit = sample_hash"
    by (simp_all add: sample_pass_def default_state_def sample_deposit_def)
  with run pass_accounts_for_every_deposit [OF run sample_discover] show ?thesis by auto
qed

text \<open>
  C24. When the audit ids of the deposits of a pass are distinct, each deposit's record is there
  after the pass, under its own id, with the outcome of its own pipeline.
\<close>

theorem pass_keeps_every_record:
  assumes "deposit_check_run D ymd dk pw st errors calls"
    and "discover D dk pw chain_iter = Some (rs, dss)"
    and "distinct (map (audit_id ymd) (concat dss))" and "n < length (concat dss)"
  shows "\<exists>p. st_bank_payments st (bp_id p) = Some p \<and> audit_id ymd (concat dss ! n) = Some (bp_id p) \<and>
    bp_deposit_tx_hash p = ed_tx_hash (concat dss ! n) \<and> bp_usdc_amount p = ed_usdc_amount (concat dss ! n) \<and>
    bp_outcome p = fst (liquidate_pipeline D (worker_of (dk_config dk)) (pw_job pw n) (concat dss ! n))"
proof (rule pass_own_record [OF assms])
  fix lr acts
  assume one: "liquidate_one D ymd (worker_of (dk_config dk)) (pw_job pw n) (concat dss ! n) = (Some lr, acts)"
    and "audit_id ymd (concat dss ! n) = Some (bp_id (lr_payment lr))"
    and "st_bank_payments st (bp_id (lr_payment lr)) = Some (lr_payment lr)"
  then show ?thesis
    by (intro exI [of _ "lr_payment lr"])
      (auto simp: liquidate_one_def liquidation_record_Some split: prod.splits)
qed

theorem pass_keeps_every_record_witness:
  "\<exists>st errors calls p. deposit_check_run rat_decimals sample_ymd sample_pass sample_pass_world st errors calls \<and>
     st_bank_payments st (bp_id p) = Some p \<and> bp_outcome p = Initiated ''trade-1'' 500 ''wd-1'' 40"
proof -
  obtain st errors calls where
    run: "deposit_check_run rat_decimals sample_ymd sample_pass sample_pass_world st errors calls"
    using sample_pass_runs by blast
  have "worker_of (dk_config sample_pass) = sample_worker" "pw_job sample_pass_world 0 = sample_job_world"
    by (simp_all add: sample_pass_def sample_pass_world_def worker_of_def sample_worker_def sample_config_def)
  with run pass_keeps_every_record [OF run sample_discover, of 0] show ?thesis
    by (fastforce simp: sample_pipeline)
qed

text \<open>
  The interleaving does not matter: two completed passes over the same inputs end with the
  same dedup set, the same frontiers, the same errors and, when the deposits' audit ids are
  distinct, the same audit records.
\<close>

theorem pass_schedule_independent:
  assumes "deposit_check_run D ymd dk pw st errors calls"
    and "deposit_check_run D ymd dk pw st' errors' calls'"
    and "discover D dk pw chain_iter = Some (rs, dss)"
  shows "st_processed_tx_hashes st = st_processed_tx_hashes st' \<and> errors = errors' \<and>
    st_last_seen_block st = st_last_seen_block st' \<and>
    (\<not> distinct (map (audit_id ymd) (concat dss)) \<or> st_bank_payments st = st_bank_payments st')"
proof -
  have final: "st_processed_tx_hashes u = st_processed_tx_hashes (dk_state dk) \<union> ed_tx_hash ` set (concat dss) \<and>
      es = concat (map (cr_errors \<circ> snd) rs) \<and>
      (\<forall>c. st_last_seen_block u c = (case Option.bind (map_of rs c) latest_seen_block of
          Some block \<Rightarrow> Some \<lparr>lsb_block_number = block, lsb_updated_at = pw_merged_at pw c\<rparr>
        | None \<Rightarrow> st_last_seen_block (dk_state dk) c))"
    if "deposit_check_run D ymd dk pw u es cs" for u es cs
    using that by (rule pass_final) (use assms(3) in simp)
  have pay: "st_bank_payments u i = (if \<exists>n<length (concat dss). audit_id ymd (concat dss ! n) = Some i
      then map_option lr_payment (fst (liquidate_one D ymd (worker_of (dk_config dk))
        (pw_job pw (SOME n. n < length (concat dss) \<and> audit_id ymd (concat dss ! n) = Some i))
        (concat dss ! (SOME n. n < length (concat dss) \<and> audit_id ymd (concat dss ! n) = Some i))))
      else st_bank_payments (dk_state dk) i)"
    if run: "deposit_check_run D ymd dk pw u es cs" and ids: "distinct (map (audit_id ymd) (concat dss))" for u es cs i
  proof (cases "\<exists>n<length (concat dss). audit_id ymd (concat dss ! n) = Some i")
    case False
    then have "\<forall>d\<in>set (concat dss). audit_id ymd d \<noteq> Some i" by (metis in_set_conv_nth)
    with pass_untouched [OF run assms(3)] False show ?thesis by (simp only: if_False)
  next
    case True
    let ?n = "SOME n. n < length (concat dss) \<and> audit_id ymd (concat dss ! n) = Some i"
    have n: "?n < length (concat dss) \<and> audit_id ymd (concat dss ! ?n) = Some i"
      using someI_ex [OF True] .
    obtain lr acts where
      one: "liquidate_one D ymd (worker_of (dk_config dk)) (pw_job pw ?n) (concat dss ! ?n) = (Some lr, acts)"
      and "audit_id ymd (concat dss ! ?n) = Some (bp_id (lr_payment lr))"
      and "st_bank_payments u (bp_id (lr_payment lr)) = Some (lr_payment lr)"
      by (rule pass_own_record [OF run assms(3) ids conjunct1 [OF n]])
    with n True show ?thesis by (simp only: if_True one fst_conv option.map) simp
  qed
  have "st_bank_payments st = st_bank_payments st'" if "distinct (map (audit_id ymd) (concat dss))"
    using pay [OF assms(1) that] pay [OF assms(2) that] by (intro ext) simp
  moreover have "st_last_seen_block st = st_last_seen_block st'"
    using final [OF assms(1)] final [OF assms(2)] by (intro ext) simp
  ultimately show ?thesis using final [OF assms(1)] final [OF assms(2)] by blast
qed

theorem pass_schedule_independent_witness:
  "\<exists>st errors calls. deposit_check_run rat_decimals sample_ymd sample_pass sample_pass_world st errors calls \<and>
     st_bank_payments st = st_bank_payments st"
proof -
  obtain st errors calls where
    run: "deposit_check_run rat_decimals sample_ymd sample_pass sample_pass_world st errors calls"
    using sample_pass_runs by blast
  with pass_schedule_independent [OF run run sample_discover] show ?thesis by auto
qed

text \<open>
  A deposit sent in a completed pass is never sent again while its hash stays in the dedup
  set: a later pass that starts from a state with at least those hashes sends none of them, on
  any chain, whatever the explorers answer.
\<close>

theorem later_pass_never_resends:
  assumes "deposit_check_run D ymd dk pw st errors calls"
    and "discover D dk pw chain_iter = Some (rs, dss)"
    and "st_processed_tx_hashes st \<subseteq> st_processed_tx_hashes (dk_state dk')"
    and "discover D dk' pw' chain_iter = Some (rs', dss')"
  shows "ed_tx_hash ` set (concat dss) \<inter> ed_tx_hash ` set (concat dss') = {}"
proof -
  have sub: "ed_tx_hash ` set (concat dss) \<subseteq> st_processed_tx_hashes (dk_state dk')"
    by (rule subset_trans [OF _ assms(3)]) (simp only: pass_hashes [OF assms(1,2)] Un_upper2)
  show ?thesis
  proof (rule equals0I)
    fix h
    assume h: "h \<in> ed_tx_hash ` set (concat dss) \<inter> ed_tx_hash ` set (concat dss')"
    then have "h \<in> st_processed_tx_hashes (dk_state dk')" by (rule subsetD [OF sub, OF IntD1])
    moreover from h obtain d where "h = ed_tx_hash d" and d: "d \<in> set (concat dss')"
      by (rule imageE [OF IntD2])
    ultimately show False using discover_fresh [OF assms(4) d] by (simp only: not_True_eq_False) 
  qed
qed

theorem later_pass_never_resends_witness:
  "\<exists>st. sample_hash \<in> st_processed_tx_hashes st \<and>
     (\<forall>rs dss. discover rat_decimals (sample_pass\<lparr>dk_state := st\<rparr>) sample_pass_world chain_iter = Some (rs, dss) \<longrightarrow>
        sample_hash \<notin> ed_tx_hash ` set (concat dss))"
proof -
  obtain st errors calls where
    run: "deposit_check_run rat_decimals sample_ymd sample_pass sample_pass_world st errors calls"
    using sample_pass_runs by blast
  have "sample_hash \<in> st_processed_tx_hashes st"
    using run by (rule pass_final) (simp add: sample_discover sample_deposit_def)
  moreover have "sample_hash \<notin> ed_tx_hash ` set (concat dss)"
    if "discover rat_decimals (sample_pass\<lparr>dk_state := st\<rparr>) sample_pass_world chain_iter = Some (rs, dss)" for rs dss
    using later_pass_never_resends [OF run sample_discover _ that] by (simp add: sample_deposit_def)
  ultimately show ?thesis by blast
qed



end
