(* ===== verification/Sweep_Persistence.thy ===== *)
theory Sweep_Persistence
  imports Sample_World
begin

text \<open>
  State persistence, \<open>src/src/persistence.rs\<close>: loading, the write-then-rename save,
  pruning, and the lock. A disk is the contents of its files. An operation of the file system may
  fail; the failures a call meets are an argument. A save returns, besides its result, every disk
  it passes through, so that a kill at any point leaves one of them. Serde's JSON is a
  parameter; \<open>State_Json\<close> gives it and proves the round trip assumed of it here.
\<close>

section \<open>Paths\<close>

text \<open>
  \<open>Path::parent\<close>, \<open>file_name\<close> and \<open>with_extension\<close> on a path whose last component
  is a plain file name (no trailing slash, not \<open>.\<close> or \<open>..\<close>).
\<close>

type_synonym path = string

definition file_name :: "path \<Rightarrow> string" where
  "file_name p = rev (takeWhile (\<lambda>c. c \<noteq> CHR ''/'') (rev p))"

text \<open>Everything before the file name, with its slash.\<close>

definition dir_prefix :: "path \<Rightarrow> string" where
  "dir_prefix p = rev (dropWhile (\<lambda>c. c \<noteq> CHR ''/'') (rev p))"

definition parent :: "path \<Rightarrow> path option" where
  "parent p = (if p = '''' \<or> p = ''/'' then None
               else if dir_prefix p = ''/'' then Some ''/''
               else Some (butlast (dir_prefix p)))"

text \<open>The stem is what precedes the last dot, unless that dot is the first character.\<close>

definition file_stem :: "string \<Rightarrow> string" where
  "file_stem f =
     (case dropWhile (\<lambda>c. c \<noteq> CHR ''.'') (rev f) of
        [] \<Rightarrow> f
      | [_] \<Rightarrow> f
      | _ # s \<Rightarrow> rev s)"

definition with_extension :: "path \<Rightarrow> string \<Rightarrow> path" where
  "with_extension p ext = dir_prefix p @ file_stem (file_name p) @ ''.'' @ ext"

lemma dir_prefix_file_name: "dir_prefix p @ file_name p = p"
  by (simp add: dir_prefix_def file_name_def flip: rev_append)

lemma file_stem_cases:
  "file_stem f = f \<or> (\<exists>e. CHR ''.'' \<notin> set e \<and> f = file_stem f @ ''.'' @ e)"
proof (cases "dropWhile (\<lambda>c. c \<noteq> CHR ''.'') (rev f)")
  case Nil
  then have "file_stem f = f" unfolding file_stem_def by (simp only: list.case)
  then show ?thesis ..
next
  case (Cons c s)
  let ?t = "takeWhile (\<lambda>c. c \<noteq> CHR ''.'') (rev f)"
  have "c = CHR ''.''" using hd_dropWhile [of "\<lambda>c. c \<noteq> CHR ''.''" "rev f"] Cons by simp
  with Cons have "rev f = ?t @ CHR ''.'' # s" by (metis takeWhile_dropWhile_id)
  then have f: "f = rev s @ ''.'' @ rev ?t" by (metis append.assoc append_Cons append_Nil rev.simps(2) rev_append rev_rev_ident)
  have "CHR ''.'' \<notin> set (rev ?t)" by (auto dest: set_takeWhileD)
  moreover have "s \<noteq> [] \<Longrightarrow> file_stem f = rev s" using Cons by (auto simp: file_stem_def split: list.splits)
  moreover have "s = [] \<Longrightarrow> file_stem f = f" using Cons by (simp add: file_stem_def)
  ultimately show ?thesis
    using f by (cases "s = []") (simp, intro disjI2 exI [of _ "rev ?t"], simp)
qed

text \<open>The temporary file is never the state file, whatever path is configured.\<close>

lemma json_tmp_differs: "with_extension p ''json.tmp'' \<noteq> p"
proof
  assume "with_extension p ''json.tmp'' = p"
  then have eq: "file_stem (file_name p) @ ''.json.tmp'' = file_name p"
    using dir_prefix_file_name [of p] unfolding with_extension_def by (metis append_same_eq same_append_eq append_Cons append_Nil)
  from file_stem_cases [of "file_name p"] show False
  proof
    assume "file_stem (file_name p) = file_name p"
    with eq show False by (metis append_self_conv list.discI)
  next
    assume "\<exists>e. CHR ''.'' \<notin> set e \<and> file_name p = file_stem (file_name p) @ ''.'' @ e"
    then obtain e where e: "CHR ''.'' \<notin> set e" "file_name p = file_stem (file_name p) @ ''.'' @ e" by blast
    from eq e(2) have "''.json.tmp'' = ''.'' @ e" by (metis same_append_eq)
    then have "e = ''json.tmp''" by simp
    with e(1) show False by simp
  qed
qed

section \<open>The disk and its failures\<close>

type_synonym disk = "path \<rightharpoonup> string"

record 'd state_json =
  js_from_str :: "string \<Rightarrow> string + 'd persisted_state"
  js_to_string_pretty :: "'d persisted_state \<Rightarrow> string + string"

text \<open>
  The failures one save meets; a failing write reports the number of bytes it had written
  (\<open>None\<close>: the file could not be opened).
\<close>

record save_faults =
  sf_create_dir :: "io_error option"
  sf_write :: "(io_error \<times> nat option) option"
  sf_rename :: "io_error option"

definition no_faults :: save_faults where
  "no_faults = \<lparr>sf_create_dir = None, sf_write = None, sf_rename = None\<rparr>"

section \<open>Load and save\<close>

text \<open>\<open>fault\<close> is the error of a read that fails for another reason than a missing file.\<close>

definition read_to_string :: "io_error option \<Rightarrow> path \<Rightarrow> disk \<Rightarrow> io_error + string" where
  "read_to_string fault p dsk =
     (case fault of
        Some e \<Rightarrow> Inl e
      | None \<Rightarrow> (case dsk p of
                   None \<Rightarrow> Inl (IoError NotFound ''No such file or directory (os error 2)'')
                 | Some c \<Rightarrow> Inr c))"

definition load_state ::
  "'d state_json \<Rightarrow> io_error option \<Rightarrow> path \<Rightarrow> disk \<Rightarrow> app_error + 'd persisted_state" where
  "load_state J fault p dsk =
     (case read_to_string fault p dsk of
        Inr contents \<Rightarrow> (case js_from_str J contents of Inl e \<Rightarrow> Inl (Json e) | Inr state \<Rightarrow> Inr state)
      | Inl e \<Rightarrow> (if io_kind e = NotFound then Inr default_state else Inl (Io e)))"

text \<open>The disks a write passes through: the file is truncated, then grows byte by byte.\<close>

definition write_cuts :: "path \<Rightarrow> string \<Rightarrow> nat \<Rightarrow> disk \<Rightarrow> disk list" where
  "write_cuts p contents n dsk = map (\<lambda>k. dsk(p \<mapsto> take k contents)) [0..<Suc n]"

definition rename_file :: "path \<Rightarrow> path \<Rightarrow> disk \<Rightarrow> disk" where
  "rename_file src dst dsk = (case dsk src of None \<Rightarrow> dsk | Some c \<Rightarrow> dsk(src := None, dst := Some c))"

definition save_state ::
  "'d state_json \<Rightarrow> path \<Rightarrow> 'd persisted_state \<Rightarrow> save_faults \<Rightarrow> disk \<Rightarrow> (app_error + unit) \<times> disk list" where
  "save_state J p st flt dsk =
     (case (case parent p of None \<Rightarrow> None | Some _ \<Rightarrow> sf_create_dir flt) of
        Some e \<Rightarrow> (Inl (Io e), [dsk])
      | None \<Rightarrow>
          (let tmp = with_extension p ''json.tmp'' in
           case js_to_string_pretty J st of
             Inl e \<Rightarrow> (Inl (Json e), [dsk])
           | Inr json \<Rightarrow>
               (case sf_write flt of
                  Some (e, None) \<Rightarrow> (Inl (Io e), [dsk])
                | Some (e, Some n) \<Rightarrow> (Inl (Io e), dsk # write_cuts tmp json n dsk)
                | None \<Rightarrow>
                    (let cuts = dsk # write_cuts tmp json (length json) dsk in
                     case sf_rename flt of
                       Some e \<Rightarrow> (Inl (Io e), cuts)
                     | None \<Rightarrow> (Inr (), cuts @ [rename_file tmp p (dsk(tmp \<mapsto> json))])))))"

section \<open>Pruning\<close>

definition prune_stale_entries :: "datetime \<Rightarrow> 'd persisted_state \<Rightarrow> 'd persisted_state" where
  "prune_stale_entries now st =
     (let cutoff = now - duration_days 90;
          stale_tx_hashes = bp_deposit_tx_hash ` {p \<in> ran (st_bank_payments st). bp_processed_at p < cutoff}
      in st\<lparr>st_bank_payments :=
              (\<lambda>i. case st_bank_payments st i of
                     None \<Rightarrow> None
                   | Some p \<Rightarrow> if bp_processed_at p \<ge> cutoff then Some p else None),
            st_processed_tx_hashes := st_processed_tx_hashes st - stale_tx_hashes\<rparr>)"

section \<open>The lock\<close>

text \<open>
  \<open>held\<close>: the advisory lock on the file is taken by another open handle. \<open>open_fault\<close>: the
  failure of opening or creating the lock file. A missing file is created, an existing one keeps
  its bytes; this is done before the lock is tried.
\<close>

definition acquire_lock :: "path \<Rightarrow> io_error option \<Rightarrow> bool \<Rightarrow> disk \<Rightarrow> (app_error + unit) \<times> disk" where
  "acquire_lock p open_fault held dsk =
     (case open_fault of
        Some e \<Rightarrow> (Inl (Io e), dsk)
      | None \<Rightarrow>
          (if held then Inl (Io (IoError WouldBlock ''Resource temporarily unavailable (os error 11)''))
           else Inr (),
           if dsk p = None then dsk(p \<mapsto> []) else dsk))"

lemma acquire_lock_Inr:
  "fst (acquire_lock p flt held dsk) = Inr () \<longleftrightarrow> flt = None \<and> \<not> held"
  by (auto simp: acquire_lock_def split: option.splits)

lemma acquire_lock_disk:
  assumes "acquire_lock p flt held dsk = (r, dsk')"
  shows "q \<noteq> p \<or> dsk p \<noteq> None \<Longrightarrow> dsk' q = dsk q" and "dsk p \<noteq> None \<Longrightarrow> dsk' = dsk"
  using assms by (auto simp: acquire_lock_def split: option.splits if_splits)

section \<open>A state store\<close>

text \<open>
  What a caller of \<open>load_state\<close> and \<open>save_state\<close> relies on: a save that reports success is
  what the next load returns, and a save cut off anywhere, or failing, leaves either the state
  that was stored before or the new one.
\<close>

locale state_store =
  fixes load :: "'k \<Rightarrow> app_error + 'd persisted_state"
    and save :: "'d persisted_state \<Rightarrow> 'f \<Rightarrow> 'k \<Rightarrow> (app_error + unit) \<times> 'k list"
    and lawful :: bool
  assumes saved: "lawful \<Longrightarrow> save st flt dsk = (Inr (), cuts) \<Longrightarrow> cuts \<noteq> [] \<and> load (last cuts) = Inr st"
    and cut: "lawful \<Longrightarrow> save st flt dsk = (r, cuts) \<Longrightarrow> dsk' \<in> set cuts \<Longrightarrow>
          load dsk' = load dsk \<or> load dsk' = Inr st"
begin

lemma history:
  assumes "lawful" and "\<And>i. i < n \<Longrightarrow> d (Suc i) \<in> set (snd (save (s i) (f i) (d i)))"
  shows "load (d n) = load (d 0) \<or> (\<exists>i<n. load (d n) = Inr (s i))"
  using assms(2)
proof (induction n)
  case 0
  then show ?case by simp
next
  case (Suc n)
  have "load (d (Suc n)) = load (d n) \<or> load (d (Suc n)) = Inr (s n)"
    by (rule cut [OF assms(1)]) (rule prod.collapse [symmetric], rule Suc.prems, simp)
  moreover have "load (d n) = load (d 0) \<or> (\<exists>i<n. load (d n) = Inr (s i))"
    by (rule Suc.IH) (simp add: Suc.prems)
  ultimately show ?case by (metis less_Suc_eq)
qed

end

text \<open>Serde's documented round trip for the derived implementations.\<close>

definition json_roundtrip :: "'d state_json \<Rightarrow> bool" where
  "json_roundtrip J \<longleftrightarrow> (\<forall>st s. js_to_string_pretty J st = Inr s \<longrightarrow> js_from_str J s = Inr st)"

lemma write_cuts_other: "q \<noteq> p \<Longrightarrow> dsk' \<in> set (write_cuts p c n dsk) \<Longrightarrow> dsk' q = dsk q"
  by (auto simp: write_cuts_def)

lemma load_state_cong: "dsk' p = dsk p \<Longrightarrow> load_state J None p dsk' = load_state J None p dsk"
  by (simp add: load_state_def read_to_string_def)

lemma load_renamed:
  assumes "json_roundtrip J" and "js_to_string_pretty J st = Inr json"
  shows "load_state J None p (rename_file (with_extension p ''json.tmp'') p
           (dsk(with_extension p ''json.tmp'' \<mapsto> json))) = Inr st"
  using assms json_tmp_differs [of p]
  by (simp add: load_state_def read_to_string_def rename_file_def json_roundtrip_def)

text \<open>The three ways a save ends: nothing written, the temporary written, everything done.\<close>

lemma save_state_outcome:
  assumes "save_state J p st flt dsk = (r, cuts)"
  obtains (untouched) e where "r = Inl e" and "cuts = [dsk]"
  | (written) e json n where "r = Inl e"
      and "cuts = dsk # write_cuts (with_extension p ''json.tmp'') json n dsk"
  | (renamed) json where "r = Inr ()" and "js_to_string_pretty J st = Inr json"
      and "cuts = (dsk # write_cuts (with_extension p ''json.tmp'') json (length json) dsk) @
             [rename_file (with_extension p ''json.tmp'') p (dsk(with_extension p ''json.tmp'' \<mapsto> json))]"
proof (cases "case parent p of None \<Rightarrow> None | Some _ \<Rightarrow> sf_create_dir flt")
  case (Some e)
  with assms show ?thesis by (intro untouched [of "Io e"]) (simp_all add: save_state_def)
next
  case dir: None
  show ?thesis
  proof (cases "js_to_string_pretty J st")
    case (Inl e)
    with assms dir show ?thesis by (intro untouched [of "Json e"]) (simp_all add: save_state_def Let_def)
  next
    case json: (Inr json)
    show ?thesis
    proof (cases "sf_write flt")
      case (Some w)
      then obtain e m where w: "sf_write flt = Some (e, m)" by (cases w) simp
      show ?thesis
      proof (cases m)
        case None
        with assms dir json w show ?thesis
          by (intro untouched [of "Io e"]) (simp_all add: save_state_def Let_def)
      next
        case (Some n)
        with assms dir json w show ?thesis
          by (intro written [of "Io e" json n]) (simp_all add: save_state_def Let_def)
      qed
    next
      case w: None
      show ?thesis
      proof (cases "sf_rename flt")
        case (Some e)
        with assms dir json w show ?thesis
          by (intro written [of "Io e" json "length json"]) (simp_all add: save_state_def Let_def)
      next
        case None
        with assms dir json w show ?thesis
          by (intro renamed [of json]) (simp_all add: save_state_def Let_def)
      qed
    qed
  qed
qed

lemma save_state_cut:
  assumes "json_roundtrip J" and save: "save_state J p st flt dsk = (r, cuts)" and el: "dsk' \<in> set cuts"
  shows "load_state J None p dsk' = load_state J None p dsk \<or> load_state J None p dsk' = Inr st"
proof -
  note other = write_cuts_other [OF json_tmp_differs [THEN not_sym]]
  from save show ?thesis
  proof (cases rule: save_state_outcome)
    case untouched
    with el show ?thesis by simp
  next
    case (written e json n)
    with el consider "dsk' = dsk" | "dsk' \<in> set (write_cuts (with_extension p ''json.tmp'') json n dsk)" by auto
    then show ?thesis by cases (simp, intro disjI1 load_state_cong, rule other)
  next
    case (renamed json)
    with el consider "dsk' = dsk"
      | "dsk' \<in> set (write_cuts (with_extension p ''json.tmp'') json (length json) dsk)"
      | "dsk' = rename_file (with_extension p ''json.tmp'') p (dsk(with_extension p ''json.tmp'' \<mapsto> json))"
      by auto
    then show ?thesis
      by cases (simp, intro disjI1 load_state_cong, erule other, simp add: load_renamed [OF assms(1) renamed(2)])
  qed
qed

lemma save_state_saved:
  assumes "json_roundtrip J" and "save_state J p st flt dsk = (Inr (), cuts)"
  shows "cuts \<noteq> [] \<and> load_state J None p (last cuts) = Inr st"
  using assms(2) by (cases rule: save_state_outcome) (simp_all add: load_renamed [OF assms(1)])

lemma save_state_nonempty: "save_state J p st flt dsk = (r, cuts) \<Longrightarrow> cuts \<noteq> []"
  by (cases rule: save_state_outcome) auto

lemma save_state_failed:
  assumes "save_state J p st flt dsk = (Inl e, cuts)"
  shows "last cuts p = dsk p"
  using assms
proof (cases rule: save_state_outcome)
  case (written e json n)
  then show ?thesis using json_tmp_differs [of p, THEN not_sym] by (simp add: write_cuts_def)
qed simp_all

lemma save_state_succeeds:
  assumes "js_to_string_pretty J st = Inr json"
  shows "\<exists>cuts. save_state J p st no_faults dsk = (Inr (), cuts)"
  using assms by (cases "parent p") (simp_all add: save_state_def no_faults_def Let_def)

lemma save_state_frame:
  assumes "save_state J p st flt dsk = (r, cuts)" and "dsk' \<in> set cuts"
    and "q \<noteq> p" and "q \<noteq> with_extension p ''json.tmp''"
  shows "dsk' q = dsk q"
  using assms
  by (cases rule: save_state_outcome) (auto simp: rename_file_def write_cuts_def)

interpretation store: state_store "load_state J None p" "save_state J p" "json_roundtrip J"
  for J :: "'d state_json" and p :: path
proof (unfold_locales, goal_cases)
  case (1 st flt dsk cuts)
  then show ?case by (rule save_state_saved)
next
  case (2 st flt dsk r cuts dsk')
  then show ?case by (rule save_state_cut)
qed

section \<open>Properties of the store\<close>

text \<open>A codec for the empty state and one other.\<close>

definition sample_payment :: "rat bank_payment" where
  "sample_payment =
     \<lparr>bp_id = ''20260328-0xabc123'', bp_deposit_address = sample_address, bp_chain = Ethereum,
      bp_deposit_tx_hash = sample_hash, bp_usdc_amount = 500, bp_payment_method_id = ''pm-bank'',
      bp_outcome = Initiated ''trade-1'' 500 ''wd-1'' 40, bp_deposit_timestamp = 0, bp_processed_at = 0\<rparr>"

definition sample_state :: "rat persisted_state" where
  "sample_state =
     \<lparr>st_bank_payments = [''20260328-0xabc123'' \<mapsto> sample_payment], st_processed_tx_hashes = {sample_hash},
      st_last_seen_block = [Ethereum \<mapsto> \<lparr>lsb_block_number = 22000180, lsb_updated_at = 0\<rparr>]\<rparr>"

definition sample_json :: "rat persisted_state \<Rightarrow> rat state_json" where
  "sample_json one =
     \<lparr>js_from_str = (\<lambda>s. if s = ''{}'' then Inr default_state
                        else if s = ''{one}'' then Inr one else Inl ''expected value''),
      js_to_string_pretty = (\<lambda>st. if st = default_state then Inr ''{}''
                        else if st = one then Inr ''{one}'' else Inl ''unsupported'')\<rparr>"

lemma sample_json_roundtrip: "json_roundtrip (sample_json one)"
  by (simp add: json_roundtrip_def sample_json_def split: if_splits)

lemma sample_state_not_default: "sample_state \<noteq> default_state"
  by (simp add: sample_state_def default_state_def)

definition sample_path :: path where
  "sample_path = ''/root/.cryptosweep/state.json''"

lemma sample_tmp: "with_extension sample_path ''json.tmp'' = ''/root/.cryptosweep/state.json.tmp''"
  by (simp add: sample_path_def with_extension_def dir_prefix_def file_name_def file_stem_def)

definition sample_disk :: disk where
  "sample_disk = [sample_path \<mapsto> ''{}'']"

lemma sample_save:
  "save_state (sample_json sample_state) sample_path sample_state no_faults sample_disk =
     (Inr (), sample_disk # write_cuts (with_extension sample_path ''json.tmp'') ''{one}'' 5 sample_disk @
        [rename_file (with_extension sample_path ''json.tmp'') sample_path
           (sample_disk(with_extension sample_path ''json.tmp'' \<mapsto> ''{one}''))])"
  by (simp add: save_state_def no_faults_def sample_json_def sample_state_not_default Let_def
      eval_nat_numeral split: option.split)

text \<open>
  C15. Whatever the configured path, a save that is killed at any point, or fails at any file
  operation, leaves a disk from which loading yields either what it yielded before or the state
  being saved, never a torn mixture.
\<close>

theorem save_is_atomic:
  assumes "json_roundtrip J" and "save_state J p st flt dsk = (r, cuts)" and "dsk' \<in> set cuts"
  shows "load_state J None p dsk' = load_state J None p dsk \<or> load_state J None p dsk' = Inr st"
  using assms by (rule store.cut)

theorem save_is_atomic_witness:
  "load_state (sample_json sample_state) None sample_path (sample_disk(with_extension sample_path ''json.tmp'' \<mapsto> ''{o'')) =
     load_state (sample_json sample_state) None sample_path sample_disk \<or>
   load_state (sample_json sample_state) None sample_path (sample_disk(with_extension sample_path ''json.tmp'' \<mapsto> ''{o'')) =
     Inr sample_state"
proof (rule save_is_atomic [OF sample_json_roundtrip sample_save])
  have "sample_disk(with_extension sample_path ''json.tmp'' \<mapsto> take 2 ''{one}'') \<in>
      set (write_cuts (with_extension sample_path ''json.tmp'') ''{one}'' 5 sample_disk)"
    unfolding write_cuts_def set_map by (rule imageI) simp
  then show "sample_disk(with_extension sample_path ''json.tmp'' \<mapsto> ''{o'') \<in>
      set (sample_disk # write_cuts (with_extension sample_path ''json.tmp'') ''{one}'' 5 sample_disk @
        [rename_file (with_extension sample_path ''json.tmp'') sample_path
           (sample_disk(with_extension sample_path ''json.tmp'' \<mapsto> ''{one}''))])"
    by simp
qed

text \<open>
  Over any number of runs, each ending its save normally, with an error or killed in the
  middle, what is loaded next is the state at the start or one that some run saved.
\<close>

theorem saves_history:
  assumes "json_roundtrip J"
    and "\<forall>i<n. d (Suc i) \<in> set (snd (save_state J p (s i) (f i) (d i)))"
  shows "load_state J None p (d n) = load_state J None p (d 0) \<or>
    (\<exists>i<n. load_state J None p (d n) = Inr (s i))"
  by (rule store.history [OF assms(1)]) (use assms(2) in blast)

theorem saves_history_witness:
  "load_state (sample_json sample_state) None sample_path sample_disk = load_state (sample_json sample_state) None sample_path sample_disk \<or>
   (\<exists>i<2::nat. load_state (sample_json sample_state) None sample_path sample_disk = Inr sample_state)"
  by (rule saves_history [OF sample_json_roundtrip, where n = "2" and s = "\<lambda>_. sample_state"
        and f = "\<lambda>_. no_faults" and d = "\<lambda>_. sample_disk"]) (simp add: sample_save)

text \<open>
  A save that reports success is what the next load returns; one that reports an error
  leaves the state file as it was; and no save touches any other file than the state file and
  its temporary.
\<close>

theorem save_result:
  assumes "json_roundtrip J" and "save_state J p st flt dsk = (r, cuts)"
  shows "(case r of
            Inr _ \<Rightarrow> load_state J None p (last cuts) = Inr st
          | Inl _ \<Rightarrow> last cuts p = dsk p) \<and>
    (\<forall>dsk'\<in>set cuts. \<forall>q. q \<noteq> p \<and> q \<noteq> with_extension p ''json.tmp'' \<longrightarrow> dsk' q = dsk q)"
proof
  show "case r of Inr _ \<Rightarrow> load_state J None p (last cuts) = Inr st | Inl _ \<Rightarrow> last cuts p = dsk p"
  proof (cases r)
    case (Inr u)
    with assms(2) have "save_state J p st flt dsk = (Inr (), cuts)" by simp
    from save_state_saved [OF assms(1) this] Inr show ?thesis by simp
  next
    case (Inl e)
    with assms(2) have "save_state J p st flt dsk = (Inl e, cuts)" by simp
    from save_state_failed [OF this] Inl show ?thesis by simp
  qed
  show "\<forall>dsk'\<in>set cuts. \<forall>q. q \<noteq> p \<and> q \<noteq> with_extension p ''json.tmp'' \<longrightarrow> dsk' q = dsk q"
    using save_state_frame [OF assms(2)] by blast
qed

theorem save_result_witness:
  "load_state (sample_json sample_state) None sample_path
     (rename_file (with_extension sample_path ''json.tmp'') sample_path
        (sample_disk(with_extension sample_path ''json.tmp'' \<mapsto> ''{one}''))) = Inr sample_state"
  using save_result [OF sample_json_roundtrip sample_save] by simp


end
