(* ===== verification/Sweep_Notifier.thy ===== *)
theory Sweep_Notifier
  imports Sample_World
begin

text \<open>
  The Telegram notifier, \<open>src/src/notifier/mod.rs\<close>: the chat id is parsed with the standard
  library's \<open>str::parse::<i64>\<close>, which is written out; sending is teloxide's and stays a
  parameter.
\<close>

section \<open>\<open>i64::from_str\<close>\<close>

datatype int_error = Empty | InvalidDigit | PosOverflow | NegOverflow

fun int_error_to_string :: "int_error \<Rightarrow> string" where
  "int_error_to_string Empty = ''cannot parse integer from empty string''"
| "int_error_to_string InvalidDigit = ''invalid digit found in string''"
| "int_error_to_string PosOverflow = ''number too large to fit in target type''"
| "int_error_to_string NegOverflow = ''number too small to fit in target type''"

definition i64_min :: int where "i64_min = - (2 ^ 63)"
definition i64_max :: int where "i64_max = 2 ^ 63 - 1"

definition digit_of :: "char \<Rightarrow> nat option" where
  "digit_of c = (let n = (of_char c :: nat) in if 48 \<le> n \<and> n \<le> 57 then Some (n - 48) else None)"

text \<open>The checked loop: an invalid digit is found before the overflow it would cause.\<close>

fun parse_digits :: "bool \<Rightarrow> int \<Rightarrow> string \<Rightarrow> int_error + int" where
  "parse_digits neg acc [] = Inr acc"
| "parse_digits neg acc (c # s) =
     (case digit_of c of
        None \<Rightarrow> Inl InvalidDigit
      | Some d \<Rightarrow>
          (let acc' = (if neg then acc * 10 - int d else acc * 10 + int d) in
           if acc' < i64_min then Inl NegOverflow
           else if i64_max < acc' then Inl PosOverflow
           else parse_digits neg acc' s))"

fun parse_i64 :: "string \<Rightarrow> int_error + int" where
  "parse_i64 [] = Inl Empty"
| "parse_i64 [c] = (if c = CHR ''+'' \<or> c = CHR ''-'' then Inl InvalidDigit else parse_digits False 0 [c])"
| "parse_i64 (c # d # s) =
     (if c = CHR ''-'' then parse_digits True 0 (d # s)
      else if c = CHR ''+'' then parse_digits False 0 (d # s)
      else parse_digits False 0 (c # d # s))"

section \<open>The notifier\<close>

record telegram_notifier =
  tn_bot :: string
  tn_chat_id :: int

definition telegram_notifier_new :: "string \<Rightarrow> string \<Rightarrow> app_error + telegram_notifier" where
  "telegram_notifier_new bot_token chat_id =
     (case parse_i64 chat_id of
        Inl e \<Rightarrow> Inl (Config (''telegram_chat_id must be a valid i64: '' @ int_error_to_string e))
      | Inr parsed_id \<Rightarrow> Inr \<lparr>tn_bot = bot_token, tn_chat_id = parsed_id\<rparr>)"

text \<open>\<open>send bot chat message\<close> is teloxide's \<open>send_message\<close>.\<close>

definition notify ::
  "(string \<Rightarrow> int \<Rightarrow> string \<Rightarrow> string + unit) \<Rightarrow> telegram_notifier \<Rightarrow> string \<Rightarrow> app_error + unit" where
  "notify send n message =
     (case send (tn_bot n) (tn_chat_id n) message of
        Inl e \<Rightarrow> Inl (Notification (''Telegram send failed: '' @ e))
      | Inr _ \<Rightarrow> Inr ())"

section \<open>Lemmas\<close>

definition show_int :: "int \<Rightarrow> string" where
  "show_int n = (if n < 0 then CHR ''-'' # show_nat (nat (- n)) else show_nat (nat n))"

lemma digit_of_digit_char: "digit_of (digit_char n) = Some (n mod 10)"
proof -
  have "n mod 10 < 10" by simp
  then have "n mod 10 = 0 \<or> n mod 10 = 1 \<or> n mod 10 = 2 \<or> n mod 10 = 3 \<or> n mod 10 = 4 \<or>
      n mod 10 = 5 \<or> n mod 10 = 6 \<or> n mod 10 = 7 \<or> n mod 10 = 8 \<or> n mod 10 = 9" by presburger
  then show ?thesis unfolding digit_char_def by (elim disjE) (simp_all add: digit_of_def)
qed

lemma show_nat_not_Nil [simp]: "show_nat n \<noteq> []"
  by (subst show_nat.simps) simp

lemma digit_char_not_sign: "digit_char n \<noteq> CHR ''-'' \<and> digit_char n \<noteq> CHR ''+''"
  using digit_of_digit_char [of n] by (auto simp: digit_of_def)

lemma hd_show_nat: "hd (show_nat n) \<noteq> CHR ''-'' \<and> hd (show_nat n) \<noteq> CHR ''+''"
proof (induction n rule: show_nat.induct)
  case (1 n)
  then show ?case
    by (cases "n < 10") (simp_all add: show_nat.simps [of n] digit_char_not_sign)
qed

lemma parse_digits_append:
  "parse_digits neg acc s = Inr m \<Longrightarrow> parse_digits neg acc (s @ t) = parse_digits neg m t"
proof (induction s arbitrary: acc)
  case Nil
  then show ?case by simp
next
  case (Cons c s)
  from Cons.prems Cons.IH show ?case
    by (auto simp: Let_def split: option.splits if_splits)
qed

lemma parse_show_nat:
  "int n \<le> (if neg then 2 ^ 63 else 2 ^ 63 - 1) \<Longrightarrow>
   parse_digits neg 0 (show_nat n) = Inr (if neg then - int n else int n)"
proof (induction n rule: show_nat.induct)
  case (1 n)
  show ?case
  proof (cases "n < 10")
    case True
    then show ?thesis
      by (simp add: show_nat.simps [of n] digit_of_digit_char Let_def i64_min_def i64_max_def)
  next
    case False
    have le: "int (n div 10) \<le> (if neg then 2 ^ 63 else 2 ^ 63 - 1)"
      using 1(2) by (auto split: if_splits)
    have n: "int (n div 10) * 10 + int (n mod 10) = int n" by presburger
    have n': "- int (n div 10) * 10 - int (n mod 10) = - int n" using n by linarith
    note IH = 1(1) [OF False le]
    have "parse_digits neg 0 (show_nat n) =
        parse_digits neg (if neg then - int (n div 10) else int (n div 10)) [digit_char (n mod 10)]"
      using parse_digits_append [OF IH] False by (simp add: show_nat.simps [of n])
    also have "\<dots> = Inr (if neg then - int n else int n)"
      using 1(2) n n' by (cases neg) (simp_all add: digit_of_digit_char Let_def i64_min_def i64_max_def)
    finally show ?thesis .
  qed
qed

lemma parse_digits_range:
  "parse_digits neg acc s = Inr m \<Longrightarrow> i64_min \<le> acc \<Longrightarrow> acc \<le> i64_max \<Longrightarrow> i64_min \<le> m \<and> m \<le> i64_max"
  by (induction s arbitrary: acc) (auto simp: Let_def split: option.splits if_splits)

section \<open>Properties\<close>

text \<open>
  The notifier accepts the decimal text of every 64-bit chat id, group ids with their minus
  sign included, and keeps its value; every other outcome of construction is a configuration
  error, never an id outside the range.
\<close>

theorem chat_id_roundtrip:
  assumes "- (2 ^ 63) \<le> n" and "n < 2 ^ 63"
  shows "telegram_notifier_new bot_token (show_int n) = Inr \<lparr>tn_bot = bot_token, tn_chat_id = n\<rparr> \<and>
    (case telegram_notifier_new bot_token chat of
       Inr t \<Rightarrow> - (2 ^ 63) \<le> tn_chat_id t \<and> tn_chat_id t < 2 ^ 63
     | Inl e \<Rightarrow> \<exists>m. e = Config m)"
proof
  have "parse_i64 (show_int n) = Inr n"
  proof (cases "n < 0")
    case True
    have "parse_digits True 0 (show_nat (nat (- n))) = Inr n"
      using parse_show_nat [of "nat (- n)" True] True assms(1) by simp
    then show ?thesis using True by (cases "show_nat (nat (- n))") (simp_all add: show_int_def)
  next
    case False
    have "parse_digits False 0 (show_nat (nat n)) = Inr n"
      using parse_show_nat [of "nat n" False] False assms(2) by simp
    with False hd_show_nat [of "nat n"] show ?thesis
      by (cases "show_nat (nat n)" rule: parse_i64.cases) (simp_all add: show_int_def del: parse_digits.simps)
  qed
  then show "telegram_notifier_new bot_token (show_int n) = Inr \<lparr>tn_bot = bot_token, tn_chat_id = n\<rparr>"
    by (simp add: telegram_notifier_new_def)
  have "i64_min \<le> m \<and> m \<le> i64_max" if "parse_i64 chat = Inr m" for m
    using that parse_digits_range [of _ 0]
    by (cases chat rule: parse_i64.cases)
      (auto simp: i64_min_def i64_max_def simp del: parse_digits.simps split: if_splits)
  then show "case telegram_notifier_new bot_token chat of
       Inr t \<Rightarrow> - (2 ^ 63) \<le> tn_chat_id t \<and> tn_chat_id t < 2 ^ 63 | Inl e \<Rightarrow> \<exists>m. e = Config m"
    by (auto simp: telegram_notifier_new_def i64_min_def i64_max_def split: sum.splits)
qed

theorem chat_id_roundtrip_witness:
  "telegram_notifier_new ''t'' (show_int (- 1001234567890)) = Inr \<lparr>tn_bot = ''t'', tn_chat_id = - 1001234567890\<rparr>"
  using chat_id_roundtrip [of "- 1001234567890" "''t''"] by simp

end
