(* ===== verification/Coinbase_Auth.thy ===== *)
theory Coinbase_Auth
  imports Sample_World
begin

text \<open>
  Coinbase authentication, \<open>src/src/coinbase/auth.rs\<close>: the JWT of a request and the
  parsing of the signing key. JSON rendering, base64url, P-256 and UUIDs are crates and stay
  parameters. Arithmetic on the time stamp is the release build's, modulo \<open>2 ^ 64\<close>.
\<close>

datatype http_method = Get | Post

fun http_method_to_string :: "http_method \<Rightarrow> string" where
  "http_method_to_string Get = ''GET''"
| "http_method_to_string Post = ''POST''"

text \<open>The JSON objects the code builds: string and unsigned integer members.\<close>

datatype json_value = JString string | JNumber u64

type_synonym json_object = "(string \<times> json_value) list"

record 'k auth_lib =
  au_json_to_string :: "json_object \<Rightarrow> string"
  au_base64url :: "string \<Rightarrow> string"
  au_sign :: "'k \<Rightarrow> string \<Rightarrow> string"
  au_from_pkcs8_pem :: "string \<Rightarrow> string + 'k"
  au_from_sec1_pem :: "string \<Rightarrow> string + 'k"

section \<open>String operations\<close>

text \<open>\<open>str::replace\<close> of the two characters backslash, n by a newline; of \<open>-\<close> by nothing.\<close>

fun unescape_newlines :: "string \<Rightarrow> string" where
  "unescape_newlines [] = []"
| "unescape_newlines [c] = [c]"
| "unescape_newlines (c # d # s) =
     (if c = CHR 0x5C \<and> d = CHR ''n'' then CHR 0x0A # unescape_newlines s
      else c # unescape_newlines (d # s))"

definition remove_dashes :: "string \<Rightarrow> string" where
  "remove_dashes s = filter (\<lambda>c. c \<noteq> CHR ''-'') s"

section \<open>The token\<close>

definition jwt_header :: "string \<Rightarrow> string \<Rightarrow> json_object" where
  "jwt_header key_name nonce =
     [(''alg'', JString ''ES256''), (''typ'', JString ''JWT''), (''kid'', JString key_name),
      (''nonce'', JString nonce)]"

definition jwt_claims :: "string \<Rightarrow> u64 \<Rightarrow> http_method \<Rightarrow> string \<Rightarrow> json_object" where
  "jwt_claims key_name now meth path =
     [(''sub'', JString key_name), (''iss'', JString ''cdp''), (''nbf'', JNumber now),
      (''exp'', JNumber (now + 120)),
      (''uri'', JString (http_method_to_string meth @ '' api.coinbase.com'' @ path))]"

text \<open>
  The system clock, in nanoseconds since the epoch, as Unix seconds; \<open>None\<close> before the epoch,
  where \<open>expect\<close> panics.
\<close>

definition current_timestamp :: "datetime \<Rightarrow> u64 option" where
  "current_timestamp t = (if t < 0 then None else Some (of_int (t div 10 ^ 9)))"

text \<open>\<open>uuid\<close> is the fresh UUID. The result is \<open>None\<close> for the panic.\<close>

definition build_jwt ::
  "'k auth_lib \<Rightarrow> datetime \<Rightarrow> string \<Rightarrow> string \<Rightarrow> 'k \<Rightarrow> http_method \<Rightarrow> string \<Rightarrow> string option" where
  "build_jwt A clock uuid key_name signing_key meth path =
     (case current_timestamp clock of
        None \<Rightarrow> None
      | Some now \<Rightarrow>
          (let nonce = remove_dashes uuid;
               header_b64 = au_base64url A (au_json_to_string A (jwt_header key_name nonce));
               claims_b64 = au_base64url A (au_json_to_string A (jwt_claims key_name now meth path));
               signing_input = header_b64 @ ''.'' @ claims_b64;
               sig_b64 = au_base64url A (au_sign A signing_key signing_input)
           in Some (signing_input @ ''.'' @ sig_b64)))"

definition parse_pem_key :: "'k auth_lib \<Rightarrow> string \<Rightarrow> app_error + 'k" where
  "parse_pem_key A pem =
     (let normalized = unescape_newlines pem in
      case au_from_pkcs8_pem A normalized of
        Inr key \<Rightarrow> Inr key
      | Inl _ \<Rightarrow>
          (case au_from_sec1_pem A normalized of
             Inr key \<Rightarrow> Inr key
           | Inl e \<Rightarrow> Inl (Coinbase (''Invalid ECDSA P-256 key: '' @ e))))"

section \<open>What a verifier reads\<close>

text \<open>
  The verifier's side: cut the token at its dots, decode header and claims, check the signature
  over the first two parts.
\<close>

record 'k jwt_verifier =
  ve_unbase64url :: "string \<Rightarrow> string option"
  ve_parse_json :: "string \<Rightarrow> json_object option"
  ve_check :: "'k \<Rightarrow> string \<Rightarrow> string \<Rightarrow> bool"

fun split_dots :: "string \<Rightarrow> string list" where
  "split_dots [] = [[]]"
| "split_dots (c # s) =
     (if c = CHR ''.'' then [] # split_dots s
      else case split_dots s of [] \<Rightarrow> [[c]] | p # ps \<Rightarrow> (c # p) # ps)"

definition verify_jwt :: "'k jwt_verifier \<Rightarrow> 'k \<Rightarrow> string \<Rightarrow> (json_object \<times> json_object) option" where
  "verify_jwt V key token =
     (case split_dots token of
        [h, c, s] \<Rightarrow>
          (case (ve_unbase64url V h, ve_unbase64url V c, ve_unbase64url V s) of
             (Some hj, Some cj, Some sig) \<Rightarrow>
               (if ve_check V key (h @ ''.'' @ c) sig then
                  (case (ve_parse_json V hj, ve_parse_json V cj) of
                     (Some ho, Some co) \<Rightarrow> Some (ho, co)
                   | _ \<Rightarrow> None)
                else None)
           | _ \<Rightarrow> None)
      | _ \<Rightarrow> None)"

text \<open>The crates' documented behaviour: the base64url alphabet has no dot; decoding undoes encoding.\<close>

definition verifier_laws :: "'k auth_lib \<Rightarrow> 'k jwt_verifier \<Rightarrow> bool" where
  "verifier_laws A V \<longleftrightarrow>
     (\<forall>s. CHR ''.'' \<notin> set (au_base64url A s)) \<and>
     (\<forall>s. ve_unbase64url V (au_base64url A s) = Some s) \<and>
     (\<forall>ob. ve_parse_json V (au_json_to_string A ob) = Some ob) \<and>
     (\<forall>k m. ve_check V k m (au_sign A k m))"

lemma split_dots_no_dot: "CHR ''.'' \<notin> set s \<Longrightarrow> split_dots s = [s]"
  by (induction s) auto

lemma split_dots_append: "CHR ''.'' \<notin> set s \<Longrightarrow> split_dots (s @ CHR ''.'' # t) = s # split_dots t"
  by (induction s) auto

lemma jwt_verified:
  assumes "verifier_laws A V" and "current_timestamp clock = Some now"
    and "build_jwt A clock uuid key_name key meth path = Some token"
  shows "verify_jwt V key token =
    Some (jwt_header key_name (remove_dashes uuid), jwt_claims key_name now meth path)"
proof -
  let ?h = "au_base64url A (au_json_to_string A (jwt_header key_name (remove_dashes uuid)))"
  let ?c = "au_base64url A (au_json_to_string A (jwt_claims key_name now meth path))"
  let ?s = "au_base64url A (au_sign A key (?h @ ''.'' @ ?c))"
  have tok: "token = ?h @ CHR ''.'' # ?c @ CHR ''.'' # ?s"
    using assms(2,3) by (simp add: build_jwt_def Let_def)
  have nodot: "CHR ''.'' \<notin> set (au_base64url A s)" for s
    using assms(1) by (simp add: verifier_laws_def)
  have "split_dots token = [?h, ?c, ?s]"
    unfolding tok by (simp add: split_dots_append split_dots_no_dot nodot)
  then show ?thesis using assms(1) by (simp add: verify_jwt_def verifier_laws_def)
qed

section \<open>Properties\<close>

text \<open>
  A verifier accepts the token built for a request and reads from it the key name, a
  lifetime of 120 seconds from the clock, and the request's method and path.
\<close>

theorem jwt_verifies:
  assumes "verifier_laws A V" and "current_timestamp clock = Some now"
    and "build_jwt A clock uuid key_name key meth path = Some token"
  shows "verify_jwt V key token =
    Some (jwt_header key_name (remove_dashes uuid), jwt_claims key_name now meth path)"
  using assms by (rule jwt_verified)

text \<open>
  Crates for the witness: a dot-free escape as the base64 alphabet, a tagged encoding as JSON,
  and a signature that carries its key and message.
\<close>

fun escape_dots :: "string \<Rightarrow> string" where
  "escape_dots [] = []"
| "escape_dots (c # s) = (if c = CHR ''.'' then ''_d'' else if c = CHR ''_'' then ''__'' else [c]) @ escape_dots s"

fun unescape_dots :: "string \<Rightarrow> string" where
  "unescape_dots [] = []"
| "unescape_dots [c] = [c]"
| "unescape_dots (c # d # s) =
     (if c = CHR ''_'' then (if d = CHR ''d'' then CHR ''.'' else CHR ''_'') # unescape_dots s
      else c # unescape_dots (d # s))"

fun put_str :: "string \<Rightarrow> string" where
  "put_str [] = ''e''"
| "put_str (c # s) = CHR ''x'' # c # put_str s"

fun get_str :: "string \<Rightarrow> (string \<times> string) option" where
  "get_str [] = None"
| "get_str [m] = (if m = CHR ''e'' then Some ([], []) else None)"
| "get_str (m # c # s) =
     (if m = CHR ''e'' then Some ([], c # s) else map_option (\<lambda>(t, r). (c # t, r)) (get_str s))"

fun put_object :: "json_object \<Rightarrow> string" where
  "put_object [] = []"
| "put_object ((k, JString v) # ob) = CHR ''s'' # put_str k @ put_str v @ put_object ob"
| "put_object ((k, JNumber n) # ob) =
     CHR ''n'' # put_str k @ put_str (replicate (unat n) CHR ''1'') @ put_object ob"

fun get_object :: "nat \<Rightarrow> string \<Rightarrow> json_object option" where
  "get_object 0 s = None"
| "get_object (Suc n) [] = Some []"
| "get_object (Suc n) (t # s) =
     (case get_str s of
        None \<Rightarrow> None
      | Some (k, r) \<Rightarrow>
          (case get_str r of
             None \<Rightarrow> None
           | Some (v, r') \<Rightarrow>
               map_option ((#) (k, if t = CHR ''s'' then JString v else JNumber (of_nat (length v))))
                 (get_object n r')))"

definition sample_auth :: "string auth_lib" where
  "sample_auth =
     \<lparr>au_json_to_string = put_object, au_base64url = escape_dots, au_sign = (\<lambda>k m. put_str k @ m),
      au_from_pkcs8_pem = (\<lambda>s. if s = ''pem'' then Inr ''key'' else Inl ''not PKCS#8''),
      au_from_sec1_pem = (\<lambda>s. Inl ''not SEC1'')\<rparr>"

definition sample_verifier :: "string jwt_verifier" where
  "sample_verifier =
     \<lparr>ve_unbase64url = Some \<circ> unescape_dots, ve_parse_json = (\<lambda>s. get_object (Suc (length s)) s),
      ve_check = (\<lambda>k m sig. sig = put_str k @ m)\<rparr>"

lemma unescape_dots_Cons: "c \<noteq> CHR ''_'' \<Longrightarrow> unescape_dots (c # s) = c # unescape_dots s"
  by (cases s) simp_all

lemma unescape_escape_dots: "unescape_dots (escape_dots s) = s"
  by (induction s) (simp_all add: unescape_dots_Cons)

lemma get_put_str: "get_str (put_str s @ r) = Some (s, r)"
  by (induction s) (simp, cases r, simp_all)

lemma get_put_object: "length ob < n \<Longrightarrow> get_object n (put_object ob) = Some ob"
proof (induction ob arbitrary: n)
  case Nil
  then show ?case by (cases n) simp_all
next
  case (Cons m ob)
  obtain k v where m: "m = (k, v)" by fastforce
  from Cons show ?case by (cases n; cases v) (simp_all add: m get_put_str)
qed

lemma length_put_object: "length ob \<le> length (put_object ob)"
  by (induction ob rule: put_object.induct) simp_all

lemma sample_verifier_laws: "verifier_laws sample_auth sample_verifier"
proof -
  have "CHR ''.'' \<notin> set (escape_dots s)" for s by (induction s) auto
  moreover have "get_object (Suc (length (put_object ob))) (put_object ob) = Some ob" for ob
    using length_put_object [of ob] by (intro get_put_object) simp
  ultimately show ?thesis
    by (simp add: verifier_laws_def sample_auth_def sample_verifier_def unescape_escape_dots)
qed

theorem jwt_verifies_witness:
  "\<exists>token. verify_jwt sample_verifier ''key'' token =
     Some (jwt_header ''organizations/o/apiKeys/k'' ''00ff'',
           jwt_claims ''organizations/o/apiKeys/k'' 1774656000 Get ''/v2/accounts'')"
  using jwt_verifies [OF sample_verifier_laws, of "1774656000 * 10 ^ 9" 1774656000 "''00-ff''" "''organizations/o/apiKeys/k''"
      "''key''" Get "''/v2/accounts''"]
  by (auto simp: build_jwt_def Let_def remove_dashes_def current_timestamp_def)

lemma unescape_plain: "CHR 0x5C \<notin> set s \<Longrightarrow> unescape_newlines s = s"
  by (induction s rule: unescape_newlines.induct) auto

lemma unescape_Cons: "c \<noteq> CHR 0x5C \<Longrightarrow> unescape_newlines (c # s) = c # unescape_newlines s"
  by (cases s) simp_all

lemma unescape_escaped:
  "CHR 0x5C \<notin> set pem \<Longrightarrow>
   unescape_newlines (concat (map (\<lambda>c. if c = CHR 0x0A then [CHR 0x5C, CHR ''n''] else [c]) pem)) = pem"
  by (induction pem) (auto simp: unescape_Cons)

text \<open>
  The key text is normalised before it is parsed: a key pasted with escaped newlines, as in
  a TOML string, parses to the same key as the text with real newlines; PKCS#8 is tried first,
  SEC1 second, and a text neither accepts is a Coinbase error.
\<close>

theorem escaped_key_parses_alike:
  assumes "CHR 0x5C \<notin> set pem"
  shows "parse_pem_key A (concat (map (\<lambda>c. if c = CHR 0x0A then [CHR 0x5C, CHR ''n''] else [c]) pem)) =
      parse_pem_key A pem \<and>
    (case parse_pem_key A pem of
       Inr key \<Rightarrow> au_from_pkcs8_pem A pem = Inr key \<or>
                  (\<exists>e. au_from_pkcs8_pem A pem = Inl e \<and> au_from_sec1_pem A pem = Inr key)
     | Inl e \<Rightarrow> \<exists>m. e = Coinbase m)"
  using unescape_plain [OF assms] unescape_escaped [OF assms]
  by (auto simp: parse_pem_key_def Let_def split: sum.splits)

theorem escaped_key_parses_alike_witness:
  "parse_pem_key sample_auth ''pem'' = Inr ''key''"
  using escaped_key_parses_alike [of "''pem''" sample_auth] by (simp add: parse_pem_key_def sample_auth_def)

end
