(* ===== verification/Coinbase_Models.thy ===== *)
theory Coinbase_Models
  imports Sample_World
begin

text \<open>
  The Coinbase request and response types, \<open>src/src/coinbase/models.rs\<close>. The derived
  (de)serialisers are in \<open>Coinbase_Wire\<close>; \<open>#[serde(default)]\<close> fields are always present
  once deserialised.
\<close>

section \<open>v2 API: accounts\<close>

record currency_info =
  ci_code :: string

record money_amount =
  ma_amount :: string
  ma_currency :: string

record coinbase_account =
  ca_id :: string
  ca_name :: string
  ca_currency :: currency_info
  ca_balance :: money_amount

record 't v2_list_response =
  v2l_data :: "'t list"

record 't v2_data_response =
  v2d_data :: 't

section \<open>v3 API: conversions\<close>

record convert_amount =
  cva_value :: "string option"
  cva_currency :: "string option"

record convert_fee =
  cvf_title :: "string option"
  cvf_amount :: "convert_amount option"

record convert_trade =
  ct_id :: "string option"
  ct_status :: "string option"
  ct_user_entered_amount :: "convert_amount option"
  ct_total :: "convert_amount option"
  ct_subtotal :: "convert_amount option"
  ct_total_fee :: "convert_fee option"
  ct_source_currency :: "string option"
  ct_target_currency :: "string option"
  ct_exchange_rate :: "convert_amount option"

record convert_quote_request =
  qr_from_account :: string
  qr_to_account :: string
  qr_amount :: string

record convert_quote_response =
  qs_trade :: "convert_trade option"

record convert_commit_request =
  cq_from_account :: string
  cq_to_account :: string

record convert_trade_response =
  cs_trade :: "convert_trade option"

section \<open>v2 API: withdrawals\<close>

record withdrawal_request =
  wq_amount :: string
  wq_currency :: string
  wq_payment_method :: string
  wq_commit :: bool

record cancellation_reason =
  cn_message :: string
  cn_code :: string

record withdrawal_transfer =
  wt_id :: string
  wt_amount :: "convert_amount option"
  wt_committed :: "bool option"
  wt_status :: string
  wt_cancellation_reason :: "cancellation_reason option"

record transfer_response =
  tr_transfer :: withdrawal_transfer

section \<open>v3 API: payment methods\<close>

record payment_method =
  pm_id :: string
  pm_name :: string
  pm_method_type :: string
  pm_currency :: "string option"
  pm_allow_withdraw :: "bool option"
  pm_allow_deposit :: "bool option"

record v3_payment_methods_response =
  v3_payment_methods :: "payment_method list"

end
