(* ===== verification/Coinbase_Live.thy ===== *)
theory Coinbase_Live
  imports Coinbase_Auth Coinbase_Models Cb_Worker
begin

text \<open>
  The live Coinbase client, \<open>src/src/coinbase/mod.rs\<close>: the authenticated request, its
  typed GET and POST, the account look-up, and the two exchange operations. A call threads the
  list of requests already sent; reqwest is a function of that list and the request, so a server
  that answers differently over time is covered. Serde's derived code and the JWT's crates are
  parameters.
\<close>

section \<open>Requests and replies\<close>

record http_request =
  hq_method :: http_method
  hq_url :: string
  hq_authorization :: string
  hq_body :: "string option"

text \<open>\<open>Reply status body\<close>: the body is \<open>None\<close> when reading it failed.\<close>

datatype http_reply = SendError string | Reply nat "string option"

type_synonym trace = "http_request list"

record ('k, 'd) coinbase_lib =
  cl_auth :: "'k auth_lib"
  cl_dec :: "'d decimal_lib"
  cl_status_text :: "nat \<Rightarrow> string"
  cl_quote_request_json :: "convert_quote_request \<Rightarrow> string + string"
  cl_commit_request_json :: "convert_commit_request \<Rightarrow> string + string"
  cl_withdrawal_request_json :: "withdrawal_request \<Rightarrow> string + string"
  cl_quote_response :: "string \<Rightarrow> string + convert_quote_response"
  cl_trade_response :: "string \<Rightarrow> string + convert_trade_response"
  cl_transfer_response :: "string \<Rightarrow> string + transfer_response"
  cl_account_response :: "string \<Rightarrow> string + coinbase_account v2_data_response"
  cl_accounts_response :: "string \<Rightarrow> string + coinbase_account v2_list_response"

text \<open>What a client meets: the server, and the clock and fresh UUID of each request.\<close>

record coinbase_world =
  cx_http :: "trace \<Rightarrow> http_request \<Rightarrow> http_reply"
  cx_system_time :: "trace \<Rightarrow> datetime"
  cx_uuid :: "trace \<Rightarrow> string"
  cx_now :: "trace \<Rightarrow> datetime"

record 'k live_coinbase_client =
  lc_api_key :: string
  lc_signing_key :: 'k
  lc_usdc_account_id :: "string option"
  lc_usd_account_id :: "string option"

definition COINBASE_API_BASE :: string where
  "COINBASE_API_BASE = ''https://api.coinbase.com''"

definition live_coinbase_client_new ::
  "'k auth_lib \<Rightarrow> string \<Rightarrow> string \<Rightarrow> string option \<Rightarrow> string option \<Rightarrow>
   app_error + 'k live_coinbase_client" where
  "live_coinbase_client_new A api_key api_secret usdc_account_id usd_account_id =
     (case parse_pem_key A api_secret of
        Inl e \<Rightarrow> Inl e
      | Inr signing_key \<Rightarrow>
          Inr \<lparr>lc_api_key = api_key, lc_signing_key = signing_key,
               lc_usdc_account_id = usdc_account_id, lc_usd_account_id = usd_account_id\<rparr>)"

section \<open>Calls\<close>

type_synonym 'a call = "trace \<Rightarrow> (fault + 'a) \<times> trace"

definition return_ok :: "'a \<Rightarrow> 'a call" where
  "return_ok x tr = (Inr x, tr)"

definition throw :: "app_error \<Rightarrow> 'a call" where
  "throw e tr = (Inl (AppErr e), tr)"

text \<open>\<open>?\<close>: the rest runs on a value only.\<close>

definition and_then :: "'a call \<Rightarrow> ('a \<Rightarrow> 'b call) \<Rightarrow> 'b call" where
  "and_then m f tr = (case m tr of (Inl e, tr') \<Rightarrow> (Inl e, tr') | (Inr x, tr') \<Rightarrow> f x tr')"

definition ok_or :: "'a option \<Rightarrow> app_error \<Rightarrow> 'a call" where
  "ok_or v e = (case v of None \<Rightarrow> throw e | Some x \<Rightarrow> return_ok x)"

definition lift_result :: "app_error + 'a \<Rightarrow> 'a call" where
  "lift_result r = (case r of Inl e \<Rightarrow> throw e | Inr x \<Rightarrow> return_ok x)"

text \<open>\<open>path.split('?').next()\<close>.\<close>

definition jwt_path_of :: "string \<Rightarrow> string" where
  "jwt_path_of path = takeWhile (\<lambda>c. c \<noteq> CHR ''?'') path"

definition is_success :: "nat \<Rightarrow> bool" where
  "is_success status \<longleftrightarrow> 200 \<le> status \<and> status < 300"

definition send_request ::
  "('k, 'd) coinbase_lib \<Rightarrow> coinbase_world \<Rightarrow> 'k live_coinbase_client \<Rightarrow> http_method \<Rightarrow> string \<Rightarrow>
   string option \<Rightarrow> string call" where
  "send_request L W c meth path json_body tr =
     (case build_jwt (cl_auth L) (cx_system_time W tr) (cx_uuid W tr) (lc_api_key c) (lc_signing_key c)
             meth (jwt_path_of path) of
        None \<Rightarrow> (Inl Panic, tr)
      | Some jwt \<Rightarrow>
          (let req = \<lparr>hq_method = meth, hq_url = COINBASE_API_BASE @ path,
                      hq_authorization = ''Bearer '' @ jwt, hq_body = json_body\<rparr>;
               tr' = tr @ [req]
           in case cx_http W tr req of
                SendError e \<Rightarrow> (Inl (AppErr (Http e)), tr')
              | Reply status body \<Rightarrow>
                  (let raw_body = (case body of None \<Rightarrow> [] | Some b \<Rightarrow> b) in
                   if \<not> is_success status
                   then (Inl (AppErr (Coinbase (http_method_to_string meth @ '' '' @ path @ '' failed '' @
                           em_dash @ '' HTTP '' @ cl_status_text L status @ '': '' @ raw_body))), tr')
                   else (Inr raw_body, tr'))))"

definition deserialize ::
  "(string \<Rightarrow> string + 'a) \<Rightarrow> http_method \<Rightarrow> string \<Rightarrow> string \<Rightarrow> app_error + 'a" where
  "deserialize from_str meth path raw_body =
     (case from_str raw_body of
        Inl e \<Rightarrow> Inl (Coinbase (http_method_to_string meth @ '' '' @ path @ '' '' @ em_dash @
                       '' deserialization failed: '' @ e))
      | Inr x \<Rightarrow> Inr x)"

definition get_json ::
  "('k, 'd) coinbase_lib \<Rightarrow> coinbase_world \<Rightarrow> 'k live_coinbase_client \<Rightarrow> (string \<Rightarrow> string + 'a) \<Rightarrow> string \<Rightarrow>
   'a call" where
  "get_json L W c from_str path =
     and_then (send_request L W c Get path None) (\<lambda>raw. lift_result (deserialize from_str Get path raw))"

definition post_json ::
  "('k, 'd) coinbase_lib \<Rightarrow> coinbase_world \<Rightarrow> 'k live_coinbase_client \<Rightarrow> (string \<Rightarrow> string + 'a) \<Rightarrow> string \<Rightarrow>
   string + string \<Rightarrow> 'a call" where
  "post_json L W c from_str path body =
     (case body of
        Inl e \<Rightarrow> throw (Coinbase (''Failed to serialize request: '' @ e))
      | Inr json_body \<Rightarrow>
          and_then (send_request L W c Post path (Some json_body))
            (\<lambda>raw. lift_result (deserialize from_str Post path raw)))"

section \<open>Accounts\<close>

definition find_account ::
  "('k, 'd) coinbase_lib \<Rightarrow> coinbase_world \<Rightarrow> 'k live_coinbase_client \<Rightarrow> string \<Rightarrow> coinbase_account call" where
  "find_account L W c currency =
     (case (if currency = ''USDC'' then lc_usdc_account_id c
            else if currency = ''USD'' then lc_usd_account_id c else None) of
        Some ident \<Rightarrow>
          and_then (get_json L W c (cl_account_response L) (''/v2/accounts/'' @ ident))
            (\<lambda>resp. return_ok (v2d_data resp))
      | None \<Rightarrow>
          and_then (get_json L W c (cl_accounts_response L) ''/v2/accounts?limit=300'')
            (\<lambda>resp. ok_or (List.find (\<lambda>a. ci_code (ca_currency a) = currency) (v2l_data resp))
                      (Coinbase (''No '' @ currency @ '' account found on Coinbase''))))"

section \<open>\<open>CoinbaseClient\<close>\<close>

text \<open>\<open>field.as_ref().and_then(|a| a.value.as_deref()).and_then(|v| Decimal::from_str(v).ok())\<close>\<close>

definition amount_of :: "'d decimal_lib \<Rightarrow> convert_amount option \<Rightarrow> 'd option" where
  "amount_of D field = Option.bind (Option.bind field cva_value) (dec_from_str D)"

definition quote_path :: string where
  "quote_path = ''/api/v3/brokerage/convert/quote''"

definition commit_path_of :: "string \<Rightarrow> string" where
  "commit_path_of trade_id = ''/api/v3/brokerage/convert/trade/'' @ trade_id"

definition withdrawals_path_of :: "string \<Rightarrow> string" where
  "withdrawals_path_of account_id = ''/v2/accounts/'' @ account_id @ ''/withdrawals''"

definition sell_usdc ::
  "('k, 'd) coinbase_lib \<Rightarrow> coinbase_world \<Rightarrow> 'k live_coinbase_client \<Rightarrow> 'd \<Rightarrow> 'd sell_result call" where
  "sell_usdc L W c amount =
     and_then (post_json L W c (cl_quote_response L) quote_path
        (cl_quote_request_json L \<lparr>qr_from_account = ''USDC'', qr_to_account = ''USD'',
                                  qr_amount = dec_to_string (cl_dec L) amount\<rparr>)) (\<lambda>quote_resp.
     and_then (ok_or (qs_trade quote_resp) (Coinbase ''Convert quote returned no trade object'')) (\<lambda>trade.
     and_then (ok_or (ct_id trade) (Coinbase ''Convert quote returned no trade ID'')) (\<lambda>trade_id.
     and_then (post_json L W c (cl_trade_response L) (commit_path_of trade_id)
        (cl_commit_request_json L \<lparr>cq_from_account = ''USDC'', cq_to_account = ''USD''\<rparr>)) (\<lambda>commit_resp.
     and_then (ok_or (cs_trade commit_resp) (Coinbase ''Convert commit returned no trade object''))
       (\<lambda>committed_trade.
     and_then (ok_or (amount_of (cl_dec L) (ct_total committed_trade))
        (Coinbase ''Convert commit response missing USD total'')) (\<lambda>usd_received.
     and_then (ok_or (amount_of (cl_dec L) (ct_user_entered_amount committed_trade))
        (Coinbase ''Convert commit response missing USDC sold amount'')) (\<lambda>usdc_sold.
     \<lambda>tr. return_ok \<lparr>sr_order_id = trade_id, sr_usdc_sold = usdc_sold, sr_usd_received = usd_received,
                     sr_executed_at = cx_now W tr\<rparr> tr)))))))"

definition withdraw_usd ::
  "('k, 'd) coinbase_lib \<Rightarrow> coinbase_world \<Rightarrow> 'k live_coinbase_client \<Rightarrow> 'd \<Rightarrow> string \<Rightarrow>
   'd withdrawal_result call" where
  "withdraw_usd L W c amount payment_method_id =
     and_then (case lc_usd_account_id c of
        Some ident \<Rightarrow> return_ok ident
      | None \<Rightarrow> and_then (find_account L W c ''USD'') (\<lambda>a. return_ok (ca_id a))) (\<lambda>usd_account_id.
     and_then (post_json L W c (cl_transfer_response L) (withdrawals_path_of usd_account_id)
        (cl_withdrawal_request_json L \<lparr>wq_amount = dec_to_string (cl_dec L) amount, wq_currency = ''USD'',
           wq_payment_method = payment_method_id, wq_commit = True\<rparr>)) (\<lambda>resp.
     \<lambda>tr. (let transfer = tr_transfer resp in
           case wt_cancellation_reason transfer of
             Some reason \<Rightarrow>
               (if wt_id transfer = []
                then throw (Coinbase (''Withdrawal rejected: '' @ cn_message reason)) tr
                else return_ok \<lparr>wr_withdrawal_transfer_id = wt_id transfer, wr_usd_amount = amount,
                                wr_initiated_at = cx_now W tr\<rparr> tr)
           | None \<Rightarrow>
               (if wt_id transfer = []
                then throw (Coinbase ''Withdrawal returned no transfer ID'') tr
                else return_ok \<lparr>wr_withdrawal_transfer_id = wt_id transfer, wr_usd_amount = amount,
                                wr_initiated_at = cx_now W tr\<rparr> tr))))"

section \<open>Calls and their requests\<close>

lemma and_then_Inr [call_simps]:
  "and_then m f tr = (Inr x, tr'') \<longleftrightarrow> (\<exists>y tr'. m tr = (Inr y, tr') \<and> f y tr' = (Inr x, tr''))"
  by (auto simp: and_then_def split: prod.splits sum.splits)

lemma return_ok_Inr [call_simps]: "return_ok x tr = (Inr y, tr') \<longleftrightarrow> y = x \<and> tr' = tr"
  by (auto simp: return_ok_def)

lemma throw_Inr [call_simps]: "throw e tr \<noteq> (Inr y, tr')"
  by (simp add: throw_def)

lemma ok_or_Inr [call_simps]: "ok_or v e tr = (Inr y, tr') \<longleftrightarrow> v = Some y \<and> tr' = tr"
  by (auto simp: ok_or_def return_ok_def throw_def split: option.splits)

lemma lift_result_Inr [call_simps]: "lift_result r tr = (Inr y, tr') \<longleftrightarrow> r = Inr y \<and> tr' = tr"
  by (auto simp: lift_result_def return_ok_def throw_def split: sum.splits)

text \<open>The request a call sends for a method, path and body.\<close>

definition request_for ::
  "('k, 'd) coinbase_lib \<Rightarrow> coinbase_world \<Rightarrow> 'k live_coinbase_client \<Rightarrow> trace \<Rightarrow> http_method \<Rightarrow> string \<Rightarrow>
   string option \<Rightarrow> http_request \<Rightarrow> bool" where
  "request_for L W c tr meth path body req \<longleftrightarrow>
     (\<exists>jwt. build_jwt (cl_auth L) (cx_system_time W tr) (cx_uuid W tr) (lc_api_key c) (lc_signing_key c)
              meth (jwt_path_of path) = Some jwt \<and>
        req = \<lparr>hq_method = meth, hq_url = COINBASE_API_BASE @ path,
               hq_authorization = ''Bearer '' @ jwt, hq_body = body\<rparr>)"

lemma send_request_Inr:
  "send_request L W c meth path body tr = (Inr raw, tr') \<Longrightarrow>
   \<exists>req. request_for L W c tr meth path body req \<and> tr' = tr @ [req]"
  by (auto simp: send_request_def request_for_def Let_def split: option.splits http_reply.splits if_splits)

lemma send_request_trace:
  "send_request L W c meth path body tr = (r, tr') \<Longrightarrow>
   (tr' = tr \<and> r = Inl Panic) \<or> (\<exists>req. request_for L W c tr meth path body req \<and> tr' = tr @ [req])"
  by (auto simp: send_request_def request_for_def Let_def split: option.splits http_reply.splits if_splits)

lemma get_json_Inr:
  "get_json L W c from_str path tr = (Inr x, tr') \<Longrightarrow>
   \<exists>req. request_for L W c tr Get path None req \<and> tr' = tr @ [req]"
  by (auto simp: get_json_def call_simps dest: send_request_Inr)

lemma post_json_Inr:
  "post_json L W c from_str path body tr = (Inr x, tr') \<Longrightarrow>
   \<exists>req json. body = Inr json \<and> request_for L W c tr Post path (Some json) req \<and> tr' = tr @ [req]"
  by (auto simp: post_json_def call_simps dest: send_request_Inr split: sum.splits)

lemma get_json_trace:
  "get_json L W c from_str path tr = (r, tr') \<Longrightarrow>
   tr' = tr \<or> (\<exists>req. request_for L W c tr Get path None req \<and> tr' = tr @ [req])"
  by (auto simp: get_json_def and_then_def lift_result_def return_ok_def throw_def
      dest: send_request_trace split: prod.splits sum.splits)

lemma post_json_trace:
  "post_json L W c from_str path body tr = (r, tr') \<Longrightarrow>
   tr' = tr \<or> (\<exists>req json. body = Inr json \<and> request_for L W c tr Post path (Some json) req \<and> tr' = tr @ [req])"
  by (auto simp: post_json_def and_then_def lift_result_def return_ok_def throw_def
      dest: send_request_trace split: prod.splits sum.splits)

section \<open>The exchange's contract\<close>

lemma withdraw_usd_Inr:
  assumes "withdraw_usd L W c amount pm tr = (Inr w, tr')"
  obtains account_id tr1 req json where
    "(case lc_usd_account_id c of Some ident \<Rightarrow> return_ok ident
      | None \<Rightarrow> and_then (find_account L W c ''USD'') (\<lambda>a. return_ok (ca_id a))) tr = (Inr account_id, tr1)"
    and "cl_withdrawal_request_json L \<lparr>wq_amount = dec_to_string (cl_dec L) amount, wq_currency = ''USD'',
           wq_payment_method = pm, wq_commit = True\<rparr> = Inr json"
    and "request_for L W c tr1 Post (withdrawals_path_of account_id) (Some json) req"
    and "tr' = tr1 @ [req]" and "wr_withdrawal_transfer_id w \<noteq> []" and "wr_usd_amount w = amount"
proof -
  from assms obtain account_id tr1 resp tr2 where
    acc: "(case lc_usd_account_id c of Some ident \<Rightarrow> return_ok ident
      | None \<Rightarrow> and_then (find_account L W c ''USD'') (\<lambda>a. return_ok (ca_id a))) tr = (Inr account_id, tr1)"
    and post: "post_json L W c (cl_transfer_response L) (withdrawals_path_of account_id)
        (cl_withdrawal_request_json L \<lparr>wq_amount = dec_to_string (cl_dec L) amount, wq_currency = ''USD'',
           wq_payment_method = pm, wq_commit = True\<rparr>) tr1 = (Inr resp, tr2)"
    and w: "wr_withdrawal_transfer_id w \<noteq> []" "wr_usd_amount w = amount" "tr' = tr2"
    unfolding withdraw_usd_def and_then_Inr Let_def
    by (auto simp: call_simps split: option.splits if_splits)
  from post_json_Inr [OF post] w that [OF acc] show thesis by blast
qed

definition withdraw_result ::
  "('k, 'd) coinbase_lib \<Rightarrow> coinbase_world \<Rightarrow> 'k live_coinbase_client \<Rightarrow> trace \<Rightarrow> 'd \<Rightarrow> string \<Rightarrow>
   fault + 'd withdrawal_result" where
  "withdraw_result L W c tr amount pm = fst (withdraw_usd L W c amount pm tr)"

lemma withdraw_result_contract:
  assumes "withdraw_result L W c tr amount pm = Inr w"
  shows "wr_withdrawal_transfer_id w \<noteq> [] \<and> wr_usd_amount w = amount"
proof -
  from assms obtain tr' where "withdraw_usd L W c amount pm tr = (Inr w, tr')"
    by (metis prod.collapse withdraw_result_def)
  then show ?thesis by (rule withdraw_usd_Inr) simp
qed

interpretation coinbase: exchange_contract "withdraw_result L W c tr"
  for L :: "('k, 'd) coinbase_lib" and W :: coinbase_world and c :: "'k live_coinbase_client" and tr :: trace
proof (unfold_locales, goal_cases)
  case (1 amount pm w)
  show ?case using withdraw_result_contract [OF 1] by (rule conjunct1)
next
  case (2 amount pm w)
  show ?case using withdraw_result_contract [OF 2] by (rule conjunct2)
qed

section \<open>What each call sends\<close>

lemma find_account_Inr:
  assumes "find_account L W c currency tr = (Inr a, tr')"
  shows "\<exists>req path. request_for L W c tr Get path None req \<and> tr' = tr @ [req]"
  using assms
  by (auto simp: find_account_def call_simps split: option.splits dest!: get_json_Inr)

lemma request_for_method:
  "request_for L W c tr meth path body req \<Longrightarrow>
   hq_method req = meth \<and> hq_url req = COINBASE_API_BASE @ path \<and> hq_body req = body"
  by (auto simp: request_for_def)

definition posts :: "trace \<Rightarrow> http_request list" where
  "posts reqs = filter (\<lambda>q. hq_method q = Post) reqs"

text \<open>A call that only appends to the trace, with at most \<open>n\<close> POST requests.\<close>

definition posts_at_most :: "nat \<Rightarrow> 'a call \<Rightarrow> bool" where
  "posts_at_most n m \<longleftrightarrow> (\<forall>tr r tr'. m tr = (r, tr') \<longrightarrow> (\<exists>reqs. tr' = tr @ reqs \<and> length (posts reqs) \<le> n))"

lemma posts_at_most_and_then:
  assumes "posts_at_most n m" and "\<And>x. posts_at_most k (f x)"
  shows "posts_at_most (n + k) (and_then m f)"
  unfolding posts_at_most_def
proof (intro allI impI)
  fix tr r tr'
  assume run: "and_then m f tr = (r, tr')"
  obtain r1 tr1 where m: "m tr = (r1, tr1)" by fastforce
  with assms(1) obtain reqs where reqs: "tr1 = tr @ reqs" "length (posts reqs) \<le> n"
    unfolding posts_at_most_def by blast
  show "\<exists>reqs. tr' = tr @ reqs \<and> length (posts reqs) \<le> n + k"
  proof (cases r1)
    case (Inl e)
    with run m reqs show ?thesis by (auto simp: and_then_def)
  next
    case (Inr x)
    with run m have "f x tr1 = (r, tr')" by (simp add: and_then_def)
    with assms(2) obtain reqs' where "tr' = tr1 @ reqs'" "length (posts reqs') \<le> k"
      unfolding posts_at_most_def by blast
    with reqs show ?thesis by (intro exI [of _ "reqs @ reqs'"]) (simp add: posts_def)
  qed
qed

lemma posts_at_most_pure [intro]:
  "posts_at_most 0 (return_ok x)" "posts_at_most 0 (throw e)" "posts_at_most 0 (ok_or v e)"
  "posts_at_most 0 (lift_result r)"
  by (auto simp: posts_at_most_def return_ok_def throw_def ok_or_def lift_result_def posts_def
      split: option.splits sum.splits)

lemma posts_at_most_return_now: "posts_at_most 0 (\<lambda>tr. return_ok (g tr) tr)"
  by (simp add: posts_at_most_def return_ok_def posts_def)

lemma posts_at_most_get [intro]: "posts_at_most 0 (get_json L W c from_str path)"
  unfolding posts_at_most_def posts_def
  by (auto dest!: get_json_trace request_for_method)

lemma posts_at_most_post [intro]: "posts_at_most 1 (post_json L W c from_str path body)"
  unfolding posts_at_most_def posts_def
  by (auto dest!: post_json_trace request_for_method)

lemma posts_at_most_and_then_0:
  "posts_at_most 0 m \<Longrightarrow> (\<And>x. posts_at_most k (f x)) \<Longrightarrow> posts_at_most k (and_then m f)"
  using posts_at_most_and_then [of 0 m k f] by simp

lemma posts_at_most_find_account [intro]: "posts_at_most 0 (find_account L W c currency)"
  unfolding find_account_def
  by (auto split: option.split intro!: posts_at_most_and_then_0)

lemma posts_at_most_post_then:
  "(\<And>x. posts_at_most k (f x)) \<Longrightarrow> posts_at_most (Suc k) (and_then (post_json L W c from_str path body) f)"
  using posts_at_most_and_then [OF posts_at_most_post, of k f] by simp

section \<open>A sample exchange\<close>

definition sample_trade :: convert_trade where
  "sample_trade =
     \<lparr>ct_id = Some ''trade-1'', ct_status = Some ''TRADE_STATUS_COMPLETED'',
      ct_user_entered_amount = Some \<lparr>cva_value = Some ''500'', cva_currency = Some ''USDC''\<rparr>,
      ct_total = Some \<lparr>cva_value = Some ''500'', cva_currency = Some ''USD''\<rparr>,
      ct_subtotal = None, ct_total_fee = None, ct_source_currency = None, ct_target_currency = None,
      ct_exchange_rate = None\<rparr>"

definition sample_coinbase :: "(string, rat) coinbase_lib" where
  "sample_coinbase =
     \<lparr>cl_auth = sample_auth, cl_dec = rat_decimals, cl_status_text = show_nat,
      cl_quote_request_json = (\<lambda>q. Inr (qr_amount q)),
      cl_commit_request_json = (\<lambda>q. Inr (cq_to_account q)),
      cl_withdrawal_request_json = (\<lambda>q. Inr (wq_payment_method q)),
      cl_quote_response = (\<lambda>s. Inr \<lparr>qs_trade = Some sample_trade\<rparr>),
      cl_trade_response = (\<lambda>s. Inr \<lparr>cs_trade = Some (if s = ''no total'' then sample_trade\<lparr>ct_total := None\<rparr>
                                                   else sample_trade)\<rparr>),
      cl_transfer_response = (\<lambda>s. Inr \<lparr>tr_transfer = \<lparr>wt_id = ''wd-1'', wt_amount = None, wt_committed = None,
                                       wt_status = ''pending'', wt_cancellation_reason = None\<rparr>\<rparr>),
      cl_account_response = (\<lambda>s. Inl ''unused''),
      cl_accounts_response = (\<lambda>s. Inl ''unused'')\<rparr>"

text \<open>A server that answers every request with status 200 and the given body.\<close>

definition sample_server :: "string \<Rightarrow> coinbase_world" where
  "sample_server body =
     \<lparr>cx_http = (\<lambda>tr req. Reply 200 (Some body)), cx_system_time = (\<lambda>tr. 1774656000 * 10 ^ 9),
      cx_uuid = (\<lambda>tr. ''00-ff''), cx_now = (\<lambda>tr. 40)\<rparr>"

definition sample_client :: "string live_coinbase_client" where
  "sample_client = \<lparr>lc_api_key = ''organizations/o/apiKeys/k'', lc_signing_key = ''key'',
                    lc_usdc_account_id = None, lc_usd_account_id = Some ''acct-usd''\<rparr>"

lemma sample_send:
  "send_request sample_coinbase (sample_server b) sample_client meth path body tr =
     (Inr b, tr @ [\<lparr>hq_method = meth, hq_url = COINBASE_API_BASE @ path,
        hq_authorization = ''Bearer '' @ the (build_jwt sample_auth (1774656000 * 10 ^ 9) ''00-ff''
          ''organizations/o/apiKeys/k'' ''key'' meth (jwt_path_of path)), hq_body = body\<rparr>])"
proof -
  have "build_jwt sample_auth (1774656000 * 10 ^ 9) ''00-ff'' ''organizations/o/apiKeys/k'' ''key'' meth (jwt_path_of path) \<noteq> None"
    by (simp add: build_jwt_def Let_def current_timestamp_def)
  then obtain jwt where "build_jwt sample_auth (1774656000 * 10 ^ 9) ''00-ff'' ''organizations/o/apiKeys/k'' ''key''
      meth (jwt_path_of path) = Some jwt" by blast
  then show ?thesis
    by (simp add: send_request_def sample_coinbase_def sample_server_def sample_client_def is_success_def)
qed

lemma sample_post:
  "post_json sample_coinbase (sample_server b) sample_client f path (Inr body) tr =
     lift_result (deserialize f Post path b)
       (tr @ [\<lparr>hq_method = Post, hq_url = COINBASE_API_BASE @ path,
          hq_authorization = ''Bearer '' @ the (build_jwt sample_auth (1774656000 * 10 ^ 9) ''00-ff''
            ''organizations/o/apiKeys/k'' ''key'' Post (jwt_path_of path)), hq_body = Some body\<rparr>])"
  by (simp add: post_json_def and_then_def sample_send)

lemma sample_amount: "amount_of rat_decimals (Some \<lparr>cva_value = Some ''500'', cva_currency = x\<rparr>) = Some 500"
  by (simp add: amount_of_def rat_decimals_def digits_value_def)

lemma sample_sell:
  "fst (sell_usdc sample_coinbase (sample_server ''ok'') sample_client 500 []) =
     Inr \<lparr>sr_order_id = ''trade-1'', sr_usdc_sold = 500, sr_usd_received = 500, sr_executed_at = 40\<rparr>"
proof -
  have "cl_quote_request_json sample_coinbase q = Inr (qr_amount q)"
    "cl_commit_request_json sample_coinbase q' = Inr (cq_to_account q')"
    "cl_quote_response sample_coinbase = (\<lambda>s. Inr \<lparr>qs_trade = Some sample_trade\<rparr>)"
    "cl_trade_response sample_coinbase ''ok'' = Inr \<lparr>cs_trade = Some sample_trade\<rparr>"
    "cl_dec sample_coinbase = rat_decimals" "cx_now (sample_server ''ok'') tr = 40" for q q' tr
    by (simp_all add: sample_coinbase_def sample_server_def)
  moreover have "ct_id sample_trade = Some ''trade-1''"
    "amount_of rat_decimals (ct_total sample_trade) = Some 500"
    "amount_of rat_decimals (ct_user_entered_amount sample_trade) = Some 500"
    by (simp_all add: sample_trade_def sample_amount)
  ultimately show ?thesis
    by (simp add: sell_usdc_def and_then_def sample_post deserialize_def lift_result_def return_ok_def ok_or_def)
qed

lemma sample_withdraw:
  "fst (withdraw_usd sample_coinbase (sample_server ''ok'') sample_client 500 ''pm-bank'' []) =
     Inr \<lparr>wr_withdrawal_transfer_id = ''wd-1'', wr_usd_amount = 500, wr_initiated_at = 40\<rparr>"
proof -
  have "lc_usd_account_id sample_client = Some ''acct-usd''" by (simp add: sample_client_def)
  moreover have "cl_withdrawal_request_json sample_coinbase q = Inr (wq_payment_method q)"
    "cl_transfer_response sample_coinbase s = Inr \<lparr>tr_transfer = \<lparr>wt_id = ''wd-1'', wt_amount = None,
       wt_committed = None, wt_status = ''pending'', wt_cancellation_reason = None\<rparr>\<rparr>"
    "cx_now (sample_server ''ok'') tr = 40" for q s tr
    by (simp_all add: sample_coinbase_def sample_server_def)
  ultimately show ?thesis
    by (simp add: withdraw_usd_def and_then_def sample_post deserialize_def lift_result_def return_ok_def)
qed

section \<open>Properties of the client\<close>



text \<open>
  C30. However the server answers, one call asks for at most one withdrawal, and a sale sends at
  most two POST requests, a quote and a commit: no operation of the client retries a request
  that moves money.
\<close>

theorem money_moving_calls_bounded:
  "posts_at_most 1 (withdraw_usd L W c amount pm) \<and> posts_at_most 2 (sell_usdc L W c amount)"
proof
  have fin: "posts_at_most 0 (\<lambda>tr. (let transfer = tr_transfer resp in
           case wt_cancellation_reason transfer of
             Some reason \<Rightarrow>
               (if wt_id transfer = []
                then throw (Coinbase (''Withdrawal rejected: '' @ cn_message reason)) tr
                else return_ok \<lparr>wr_withdrawal_transfer_id = wt_id transfer, wr_usd_amount = amount,
                                wr_initiated_at = cx_now W tr\<rparr> tr)
           | None \<Rightarrow>
               (if wt_id transfer = []
                then throw (Coinbase ''Withdrawal returned no transfer ID'') tr
                else return_ok \<lparr>wr_withdrawal_transfer_id = wt_id transfer, wr_usd_amount = amount,
                                wr_initiated_at = cx_now W tr\<rparr> tr)))" for resp
    by (auto simp: posts_at_most_def Let_def throw_def return_ok_def posts_def split: option.splits if_splits)
  have acc: "posts_at_most 0 (case lc_usd_account_id c of Some ident \<Rightarrow> return_ok ident
      | None \<Rightarrow> and_then (find_account L W c ''USD'') (\<lambda>a. return_ok (ca_id a)))"
    by (auto split: option.split intro!: posts_at_most_and_then_0)
  have "posts_at_most (Suc 0) (withdraw_usd L W c amount pm)"
    unfolding withdraw_usd_def
    by (intro posts_at_most_and_then_0 [OF acc] posts_at_most_post_then fin)
  then show "posts_at_most 1 (withdraw_usd L W c amount pm)" by simp
  have "posts_at_most (Suc (Suc 0)) (sell_usdc L W c amount)"
    unfolding sell_usdc_def
    by (intro posts_at_most_post_then posts_at_most_and_then_0 posts_at_most_pure posts_at_most_return_now)
  then show "posts_at_most 2 (sell_usdc L W c amount)" by (simp add: numeral_2_eq_2)
qed

lemma sell_usdc_Inr:
  assumes "sell_usdc L W c amount tr = (Inr r, tr')"
  shows "\<exists>quote commit qjson.
    tr' = tr @ [quote, commit] \<and>
    hq_method quote = Post \<and> hq_url quote = COINBASE_API_BASE @ quote_path \<and> hq_body quote = Some qjson \<and>
    cl_quote_request_json L \<lparr>qr_from_account = ''USDC'', qr_to_account = ''USD'',
       qr_amount = dec_to_string (cl_dec L) amount\<rparr> = Inr qjson \<and>
    hq_method commit = Post \<and> hq_url commit = COINBASE_API_BASE @ commit_path_of (sr_order_id r)"
proof -
  from assms obtain qresp tr1 trade trade_id cresp where
    q: "post_json L W c (cl_quote_response L) quote_path
        (cl_quote_request_json L \<lparr>qr_from_account = ''USDC'', qr_to_account = ''USD'',
           qr_amount = dec_to_string (cl_dec L) amount\<rparr>) tr = (Inr qresp, tr1)"
    and k: "post_json L W c (cl_trade_response L) (commit_path_of trade_id)
        (cl_commit_request_json L \<lparr>cq_from_account = ''USDC'', cq_to_account = ''USD''\<rparr>) tr1 = (Inr cresp, tr')"
    and r: "sr_order_id r = trade_id"
    by (auto simp: sell_usdc_def call_simps)
  from post_json_Inr [OF q] post_json_Inr [OF k] r show ?thesis
    by (fastforce dest: request_for_method)
qed

text \<open>
  A sale that reports success sent exactly a quote for the amount and then the commit of
  the trade the quote named, and reports that trade's id.
\<close>

theorem sale_is_quote_then_commit:
  assumes "sell_usdc L W c amount tr = (Inr r, tr')"
  shows "\<exists>quote commit qjson.
    tr' = tr @ [quote, commit] \<and>
    hq_method quote = Post \<and> hq_url quote = COINBASE_API_BASE @ quote_path \<and> hq_body quote = Some qjson \<and>
    cl_quote_request_json L \<lparr>qr_from_account = ''USDC'', qr_to_account = ''USD'',
       qr_amount = dec_to_string (cl_dec L) amount\<rparr> = Inr qjson \<and>
    hq_method commit = Post \<and> hq_url commit = COINBASE_API_BASE @ commit_path_of (sr_order_id r)"
  using assms by (rule sell_usdc_Inr)

theorem sale_is_quote_then_commit_witness:
  "length (snd (sell_usdc sample_coinbase (sample_server ''ok'') sample_client 500 [])) = 2"
proof -
  obtain tr' where run: "sell_usdc sample_coinbase (sample_server ''ok'') sample_client 500 [] =
      (Inr \<lparr>sr_order_id = ''trade-1'', sr_usdc_sold = 500, sr_usd_received = 500, sr_executed_at = 40\<rparr>, tr')"
    using sample_sell by (metis prod.collapse)
  then show ?thesis using sale_is_quote_then_commit [OF run] by auto
qed




end
