(* ===== verification/Sweep_Main.thy ===== *)
theory Sweep_Main
  imports Live_Explorer Deposit_Check Sweep_Persistence Sweep_Notifier Coinbase_Live
begin

text \<open>
  The entry point, \<open>src/src/main.rs\<close>: configuration, notifier and lock, then the run (load,
  pass, prune, save, alert) and the exit code. A run is a relation, because the pass is. It
  yields, besides its result, the alerts sent by \<open>main\<close> itself, the disks its save passes
  through, and the calls of the pass. Whether an alert is delivered changes nothing here: the
  source only logs a failure.
\<close>

section \<open>One run\<close>

record ('a, 'k, 'd) sweep_env =
  se_dec :: "'d decimal_lib"
  se_ymd :: "datetime \<Rightarrow> string"
  se_alloy :: "'a alloy_lib"
  se_auth :: "'k auth_lib"
  se_json :: "'d state_json"

text \<open>
  What one run meets: a read failure of the state file, the nodes when the tip is asked and when
  each address is scanned, the clock at each scan and at pruning, the pass's world, the failures
  of the save.
\<close>

record ('a, 'd) run_world =
  rw_read_fault :: "io_error option"
  rw_tip :: "chain \<Rightarrow> 'a provider"
  rw_provider :: "chain \<Rightarrow> nat \<Rightarrow> 'a provider"
  rw_scan_now :: "chain \<Rightarrow> nat \<Rightarrow> datetime"
  rw_pass :: "'d pass_world"
  rw_now :: datetime
  rw_save :: save_faults

text \<open>\<open>Chain::iter().map(|c| (c, LiveBlockExplorer::new(c))).collect()\<close>\<close>

definition explorers_of ::
  "'a alloy_lib \<Rightarrow> 'd decimal_lib \<Rightarrow> ('a, 'd) run_world \<Rightarrow> chain \<rightharpoonup> 'd block_explorer" where
  "explorers_of L D rw c =
     map_option (\<lambda>ex. live_trait L D (ex\<lparr>lbe_provider := rw_tip rw c\<rparr>)
        (\<lambda>i. ex\<lparr>lbe_provider := rw_provider rw c i\<rparr>) (rw_scan_now rw c))
       (live_block_explorer_new L c)"

definition explorers_built :: "'a alloy_lib \<Rightarrow> bool" where
  "explorers_built L \<longleftrightarrow> list_all (\<lambda>c. live_block_explorer_new L c \<noteq> None) chain_iter"

definition pass_of ::
  "('a, 'k, 'd) sweep_env \<Rightarrow> 'd crypto_sweep_config \<Rightarrow> ('a, 'd) run_world \<Rightarrow> 'd persisted_state \<Rightarrow>
   'd deposit_check" where
  "pass_of E config rw st =
     \<lparr>dk_config = config, dk_state = st, dk_explorers = explorers_of (se_alloy E) (se_dec E) rw\<rparr>"

definition run_errors :: "string list \<Rightarrow> app_error + unit \<Rightarrow> string list" where
  "run_errors errors saved =
     errors @ (case saved of Inl e \<Rightarrow> [''State save: '' @ app_error_to_string e] | Inr _ \<Rightarrow> [])"

definition error_alert :: "string list \<Rightarrow> string list" where
  "error_alert errors =
     (if errors = [] then []
      else [''cryptosweep run errors ('' @ show_nat (length errors) @ '')'' @ [CHR 0x0A, CHR 0x0A] @
            join [CHR 0x0A] errors])"

inductive sweep_run ::
  "('a, 'k, 'd) sweep_env \<Rightarrow> 'd crypto_sweep_config \<Rightarrow> ('a, 'd) run_world \<Rightarrow> disk \<Rightarrow>
   app_error + unit \<Rightarrow> string list \<Rightarrow> disk list \<Rightarrow> (nat \<times> 'd action) list \<Rightarrow> bool" for E config rw dsk where
  load_failed: "load_state (se_json E) (rw_read_fault rw) (cfg_state_file config) dsk = Inl e \<Longrightarrow>
     sweep_run E config rw dsk (Inl e) [] [dsk] []"
| client_failed: "load_state (se_json E) (rw_read_fault rw) (cfg_state_file config) dsk = Inr st0 \<Longrightarrow>
     live_coinbase_client_new (se_auth E) (cfg_coinbase_api_key config) (cfg_coinbase_api_secret config)
       (cfg_coinbase_usdc_account_id config) (cfg_coinbase_usd_account_id config) = Inl e \<Longrightarrow>
     sweep_run E config rw dsk (Inl e) [] [dsk] []"
| passed: "load_state (se_json E) (rw_read_fault rw) (cfg_state_file config) dsk = Inr st0 \<Longrightarrow>
     live_coinbase_client_new (se_auth E) (cfg_coinbase_api_key config) (cfg_coinbase_api_secret config)
       (cfg_coinbase_usdc_account_id config) (cfg_coinbase_usd_account_id config) = Inr client \<Longrightarrow>
     explorers_built (se_alloy E) \<Longrightarrow>
     deposit_check_run (se_dec E) (se_ymd E) (pass_of E config rw st0) (rw_pass rw) st errors calls \<Longrightarrow>
     save_state (se_json E) (cfg_state_file config) (prune_stale_entries (rw_now rw) st) (rw_save rw) dsk =
       (saved, cuts) \<Longrightarrow>
     sweep_run E config rw dsk (Inr ()) (error_alert (run_errors errors saved)) cuts calls"

inductive_cases sweep_runE: "sweep_run E config rw dsk res alerts cuts calls"

section \<open>\<open>main\<close>\<close>

datatype ending = ExitCode nat | Panicked

definition LOCK_PATH :: string where
  "LOCK_PATH = ''/tmp/cryptosweep.lock''"

record main_world =
  mw_lock_open_fault :: "io_error option"
  mw_lock_held :: bool

inductive main_run ::
  "'d config_env \<Rightarrow> ('a, 'k, 'd) sweep_env \<Rightarrow> main_world \<Rightarrow> ('a, 'd) run_world \<Rightarrow> disk \<Rightarrow>
   ending \<Rightarrow> string list \<Rightarrow> disk list \<Rightarrow> (nat \<times> 'd action) list \<Rightarrow> bool" for C E mw rw dsk where
  no_home: "default_config_path C = None \<Longrightarrow> main_run C E mw rw dsk Panicked [] [dsk] []"
| config_panic: "default_config_path C = Some path \<Longrightarrow> load_config C path = Inl Panic \<Longrightarrow>
     main_run C E mw rw dsk Panicked [] [dsk] []"
| config_error: "default_config_path C = Some path \<Longrightarrow> load_config C path = Inl (AppErr e) \<Longrightarrow>
     main_run C E mw rw dsk (ExitCode 1) [] [dsk] []"
| bad_notifier: "default_config_path C = Some path \<Longrightarrow> load_config C path = Inr config \<Longrightarrow>
     telegram_notifier_new (cfg_telegram_bot_token config) (cfg_telegram_chat_id config) = Inl e \<Longrightarrow>
     main_run C E mw rw dsk (ExitCode 1) [] [dsk] []"
| locked: "default_config_path C = Some path \<Longrightarrow> load_config C path = Inr config \<Longrightarrow>
     telegram_notifier_new (cfg_telegram_bot_token config) (cfg_telegram_chat_id config) = Inr notifier \<Longrightarrow>
     acquire_lock LOCK_PATH (mw_lock_open_fault mw) (mw_lock_held mw) dsk = (Inl e, dsk') \<Longrightarrow>
     main_run C E mw rw dsk (ExitCode 0) [''cryptosweep: failed to acquire lock: '' @ app_error_to_string e] [dsk'] []"
| fatal: "default_config_path C = Some path \<Longrightarrow> load_config C path = Inr config \<Longrightarrow>
     telegram_notifier_new (cfg_telegram_bot_token config) (cfg_telegram_chat_id config) = Inr notifier \<Longrightarrow>
     acquire_lock LOCK_PATH (mw_lock_open_fault mw) (mw_lock_held mw) dsk = (Inr (), dsk') \<Longrightarrow>
     sweep_run E config rw dsk' (Inl e) alerts cuts calls \<Longrightarrow>
     main_run C E mw rw dsk (ExitCode 1) (alerts @ [''cryptosweep fatal: '' @ app_error_to_string e]) cuts calls"
| complete: "default_config_path C = Some path \<Longrightarrow> load_config C path = Inr config \<Longrightarrow>
     telegram_notifier_new (cfg_telegram_bot_token config) (cfg_telegram_chat_id config) = Inr notifier \<Longrightarrow>
     acquire_lock LOCK_PATH (mw_lock_open_fault mw) (mw_lock_held mw) dsk = (Inr (), dsk') \<Longrightarrow>
     sweep_run E config rw dsk' (Inr ()) alerts cuts calls \<Longrightarrow>
     main_run C E mw rw dsk (ExitCode 0) alerts cuts calls"

inductive_cases main_runE: "main_run C E mw rw dsk en alerts cuts calls"

section \<open>From the configuration to the scans\<close>

text \<open>
  A configuration that loads only holds addresses that every scan can parse, and the explorers of
  all chains are built when the RPC addresses are accepted.
\<close>

lemma loaded_configuration_scans:
  assumes "address_text_laws L lower_hex" and "load_config C path = Inr config"
    and "\<forall>c. al_connect L (rpc_url c) MAX_RETRIES INITIAL_BACKOFF_MS COMPUTE_UNITS_PER_SEC \<noteq> None"
  shows "explorers_built L \<and> (\<forall>dc\<in>set (cfg_deposit_addresses config). \<exists>a. parse_address L (dac_address dc) = Inr a)"
proof -
  have "valid_config config" using load_config_cases [of C path] assms(2) by auto
  then have "\<exists>a. parse_address L (dac_address dc) = Inr a" if "dc \<in> set (cfg_deposit_addresses config)" for dc
    using that validated_address_parses [OF assms(1)] by (auto simp: valid_config_def list_all_iff) blast
  moreover have "explorers_built L"
    using explorers_from_text [OF assms(1)] assms(3) by (auto simp: explorers_built_def list_all_iff)
  ultimately show ?thesis by blast
qed

section \<open>Overlapping processes\<close>

text \<open>
  Cron starts processes at any time; each takes the lock in \<open>main\<close> and holds it until it ends,
  normally or killed (the operating system drops it with the file handle).
\<close>

datatype proc_phase = Started | Running | Ended

record cron_state =
  cs_holder :: "nat option"
  cs_phase :: "nat \<Rightarrow> proc_phase"

definition cron_init :: cron_state where
  "cron_init = \<lparr>cs_holder = None, cs_phase = \<lambda>_. Started\<rparr>"

inductive cron_step :: "cron_state \<Rightarrow> cron_state \<Rightarrow> bool" where
  lock_taken: "cs_phase s p = Started \<Longrightarrow> fst (acquire_lock LOCK_PATH flt (cs_holder s \<noteq> None) dsk) = Inr () \<Longrightarrow>
     cron_step s (s\<lparr>cs_holder := Some p, cs_phase := (cs_phase s)(p := Running)\<rparr>)"
| lock_refused: "cs_phase s p = Started \<Longrightarrow> fst (acquire_lock LOCK_PATH flt (cs_holder s \<noteq> None) dsk) = Inl e \<Longrightarrow>
     cron_step s (s\<lparr>cs_phase := (cs_phase s)(p := Ended)\<rparr>)"
| run_ended: "cs_phase s p = Running \<Longrightarrow>
     cron_step s (s\<lparr>cs_holder := None, cs_phase := (cs_phase s)(p := Ended)\<rparr>)"

inductive_cases cron_stepE: "cron_step s t"

lemma cron_holder:
  assumes "cron_step\<^sup>*\<^sup>* cron_init s" and "cs_phase s p = Running"
  shows "cs_holder s = Some p"
  using assms
proof (induction arbitrary: p rule: rtranclp_induct)
  case base
  then show ?case by (simp add: cron_init_def)
next
  case (step s t)
  from step(2) show ?case
  proof cases
    case (lock_taken q flt dsk)
    then have "cs_holder s = None" by (simp add: acquire_lock_Inr)
    with step.IH [of p] lock_taken step.prems show ?thesis by (auto split: if_splits)
  next
    case (lock_refused q flt dsk e)
    with step show ?thesis by (auto split: if_splits)
  next
    case (run_ended q)
    have "p \<noteq> q" and "cs_phase s p = Running" using run_ended(1) step.prems by (auto split: if_splits)
    with step.IH [of p] step.IH [OF run_ended(2)] show ?thesis by simp
  qed
qed

section \<open>A sample run\<close>

definition sample_run_world :: "(string, rat) run_world" where
  "sample_run_world =
     \<lparr>rw_read_fault = None, rw_tip = (\<lambda>_. sample_provider), rw_provider = (\<lambda>_ _. sample_provider),
      rw_scan_now = (\<lambda>_ _. 0), rw_pass = sample_pass_world, rw_now = 60, rw_save = no_faults\<rparr>"

definition sample_sweep_env :: "rat persisted_state \<Rightarrow> (string, string, rat) sweep_env" where
  "sample_sweep_env one =
     \<lparr>se_dec = rat_decimals, se_ymd = sample_ymd, se_alloy = sample_alloy, se_auth = sample_auth,
      se_json = sample_json one\<rparr>"

definition node_of :: "chain \<Rightarrow> string live_block_explorer" where
  "node_of c = \<lparr>lbe_chain = c, lbe_usdc_contract = usdc_contract c, lbe_provider = sample_provider\<rparr>"

lemma sample_explorers:
  "explorers_of sample_alloy rat_decimals sample_run_world c =
     Some (live_trait sample_alloy rat_decimals (node_of c) (\<lambda>_. node_of c) (\<lambda>_. 0))"
  by (simp add: explorers_of_def live_block_explorer_new_def sample_alloy_def sample_run_world_def node_of_def)

lemma sample_explorers_built: "explorers_built sample_alloy"
  by (simp add: explorers_built_def chain_iter_def live_block_explorer_new_def sample_alloy_def)

lemma node_of_Ethereum: "node_of Ethereum = sample_node"
  by (simp add: node_of_def sample_node_def)

lemma sample_height: "get_block_height (node_of c) = Inr 22000200"
  by (simp add: get_block_height_def node_of_def sample_provider_def)

lemma sample_empty_fetch:
  assumes "t < s"
  shows "fetch_usdc_receives sample_alloy rat_decimals ex now sample_address s t =
    Some (Inr \<lparr>fr_receives = [], fr_confirmed_frontier = t\<rparr>)"
proof -
  have "parse_address sample_alloy sample_address = Inr sample_address"
    by (simp add: parse_address_def sample_alloy_def)
  moreover have "fetch_loop chunk c t s [] None = Some (Inr ([], t))"
    for chunk :: "u64 \<Rightarrow> u64 \<Rightarrow> fault + rat usdc_receive list" and c
  proof -
    have "\<not> s \<le> t" using assms by simp
    then show ?thesis by (subst fetch_loop.simps) simp
  qed
  ultimately show ?thesis by (simp add: fetch_usdc_receives_def)
qed

abbreviation sample_pass_of :: "rat persisted_state \<Rightarrow> rat deposit_check" where
  "sample_pass_of one \<equiv> pass_of (sample_sweep_env one) sample_config sample_run_world default_state"

lemma sample_chain_check:
  "chain_check_of (sample_pass_of one) c ex =
     \<lparr>cc_config = sample_config, cc_state = default_state, cc_explorer = ex, cc_chain = c\<rparr>"
  by (simp add: chain_check_of_def pass_of_def)

lemma sample_chain_Ethereum:
  "chain_run rat_decimals (chain_check_of (sample_pass_of one) Ethereum
      (live_trait sample_alloy rat_decimals (node_of Ethereum) (\<lambda>_. node_of Ethereum) (\<lambda>_. 0)))
      (sending sample_scan_world) = Some (ChainResult [sample_hash] (Some 22000180) [], [[sample_deposit]])"
proof -
  have h: "get_block_height sample_node = Inr 22000200"
    using sample_height [of Ethereum] by (simp add: node_of_Ethereum)
  show ?thesis
    unfolding sample_chain_check node_of_Ethereum
    by (simp add: chain_run_def live_trait_def h call_value_def since_block_of_def sample_fetch
      default_state_def start_block_for_def sample_config_def address_scan_def send_if_eligible_def
      USDC_DUST_THRESHOLD_def confirmation_blocks_for_def sat_sub_def Let_def sample_receive_def
      chain_result_sum_def chain_result_zero chain_result_plus sample_deposit_def sample_hash_def
      u64_max_def sending_def sample_scan_world_def)
qed

lemma sample_chain_Base:
  "chain_run rat_decimals (chain_check_of (sample_pass_of one) Base
      (live_trait sample_alloy rat_decimals (node_of Base) (\<lambda>_. node_of Base) (\<lambda>_. 0)))
      (sending sample_scan_world) = Some (ChainResult [] (Some 22000186) [], [[]])"
  unfolding sample_chain_check
  by (simp add: chain_run_def live_trait_def sample_height since_block_of_def
      default_state_def start_block_for_def sample_config_def address_scan_def sample_empty_fetch
      confirmation_blocks_for_def sat_sub_def Let_def call_value_def
      chain_result_sum_def chain_result_zero chain_result_plus u64_max_def)

lemma sample_chain_other:
  assumes "c \<noteq> Ethereum" and "c \<noteq> Base"
  shows "chain_run rat_decimals (chain_check_of (sample_pass_of one) c
      (live_trait sample_alloy rat_decimals (node_of c) (\<lambda>_. node_of c) (\<lambda>_. 0)))
      w = Some (ChainResult [] None [], [])"
  using assms unfolding sample_chain_check
  by (simp add: chain_run_def live_trait_def sample_height since_block_of_def
      default_state_def start_block_for_def sample_config_def)

lemma sample_run_discover:
  "\<exists>rs. discover rat_decimals (sample_pass_of one) sample_pass_world chain_iter = Some (rs, [[sample_deposit], []]) \<and>
     concat (map (cr_errors \<circ> snd) rs) = []"
proof -
  have ex: "dk_explorers (sample_pass_of one) c =
      Some (live_trait sample_alloy rat_decimals (node_of c) (\<lambda>_. node_of c) (\<lambda>_. 0))" for c
    using sample_explorers by (simp add: pass_of_def sample_sweep_env_def)
  have w: "pw_scan sample_pass_world c = sample_scan_world" for c by (simp add: sample_pass_world_def)
  show ?thesis
    unfolding chain_iter_def discover.simps ex w option.case sample_chain_Ethereum sample_chain_Base
    by (simp add: sample_chain_other)
qed

text \<open>The whole sample run, ending with a successful save.\<close>

lemma sample_pass_of_env:
  "pass_env rat_decimals sample_ymd (sample_pass_of one) sample_pass_world = sample_env"
  by (simp add: pass_env_def sample_env_def pass_of_def sample_pass_world_def worker_of_def
      sample_worker_def sample_config_def)

lemma job_log_elem: "a \<in> set (job_log s n) \<Longrightarrow> (n, a) \<in> set (pp_log s)"
  by (auto simp: job_log_def)

lemma sample_worker_calls:
  assumes "pipe_reaches sample_env (pipe_init (tag_senders 0 [[sample_deposit], []])) s" and "pipe_done s"
  shows "job_log s 0 = [SellUsdc 500, SettleSleep 30, WithdrawUsd 500 ''pm-bank'']"
proof -
  from assms(1) have reach: "pipe_reaches (pass_env rat_decimals sample_ymd (sample_pass_of default_state) sample_pass_world)
      (pipe_init (tag_senders 0 [[sample_deposit], []])) s" by (simp only: sample_pass_of_env)
  obtain lr where "liquidate_one rat_decimals sample_ymd (worker_of (dk_config (sample_pass_of default_state)))
      (pw_job sample_pass_world 0) sample_deposit = (Some lr, job_log s 0)"
    using pass_result_of [OF reach assms(2), of 0] by auto
  moreover have "worker_of (dk_config (sample_pass_of default_state)) = sample_worker"
    "pw_job sample_pass_world 0 = sample_job_world"
    by (simp_all add: pass_of_def sample_pass_world_def worker_of_def sample_worker_def sample_config_def)
  ultimately show ?thesis by (simp add: liquidate_one_def sample_pipeline)
qed

lemma sample_pass_of_runs:
  "\<exists>st calls. deposit_check_run rat_decimals sample_ymd (sample_pass_of one) sample_pass_world st [] calls \<and>
     sample_hash \<in> st_processed_tx_hashes st \<and> (0, SellUsdc 500) \<in> set calls"
proof -
  obtain rs where disc: "discover rat_decimals (sample_pass_of one) sample_pass_world chain_iter =
      Some (rs, [[sample_deposit], []])" and quiet: "concat (map (cr_errors \<circ> snd) rs) = []"
    using sample_run_discover by blast
  let ?s = "pipe_run sample_env (pipe_init (tag_senders 0 [[sample_deposit], []]))"
  have reach: "pipe_reaches sample_env (pipe_init (tag_senders 0 [[sample_deposit], []])) ?s"
    by (rule pipe_run_reaches)
  have "make_id (pe_ymd sample_env) (ed_processed_at sample_deposit) (ed_tx_hash sample_deposit) \<noteq> None"
    by (simp add: sample_deposit_def sample_hash_def make_id_ascii is_ascii_def)
  then have "\<not> pp_panicked ?s" using pipe_reaches_panic [OF reach] by auto
  then have fin: "pipe_done ?s" using pipe_run_ends by blast
  obtain st errors where "pass_state (sample_pass_of one) sample_pass_world rs (map snd (pp_results ?s)) = (st, errors)"
    by fastforce
  from deposit_check_run.joined [OF disc _ fin this] reach
  have run: "deposit_check_run rat_decimals sample_ymd (sample_pass_of one) sample_pass_world st errors (pp_log ?s)"
    by (simp add: sample_pass_of_env)
  have "sample_hash \<in> st_processed_tx_hashes st"
    unfolding pass_hashes [OF run disc] by (simp add: sample_deposit_def)
  moreover have "errors = []"
    using run by (rule pass_final) (use disc quiet in simp)
  moreover have "(0, SellUsdc 500) \<in> set (pp_log ?s)"
    using job_log_elem [of "SellUsdc 500" ?s 0] sample_worker_calls [OF reach fin] by simp
  ultimately show ?thesis using run by blast
qed

lemma sample_run_save:
  assumes "one \<noteq> default_state"
  obtains cuts where "save_state (sample_json one) sample_path one no_faults dsk = (Inr (), cuts)"
proof -
  have "js_to_string_pretty (sample_json one) one = Inr ''{one}''" using assms by (simp add: sample_json_def)
  from save_state_succeeds [OF this] that show thesis by blast
qed

text \<open>The disk before the first run holds no state file.\<close>

lemma sample_sweep_run_on:
  assumes "dsk sample_path = None"
  obtains one cuts calls where
    "sweep_run (sample_sweep_env one) sample_config sample_run_world dsk (Inr ()) [] cuts calls"
    and "load_state (sample_json one) None sample_path (last cuts) = Inr one"
    and "sample_hash \<in> st_processed_tx_hashes one" and "(0, SellUsdc 500) \<in> set calls"
proof -
  have dk: "pass_of (sample_sweep_env a) sample_config sample_run_world default_state =
      pass_of (sample_sweep_env b) sample_config sample_run_world default_state" for a b
    by (simp add: pass_of_def sample_sweep_env_def)
  obtain st calls where
    run0: "deposit_check_run rat_decimals sample_ymd (sample_pass_of default_state) sample_pass_world st [] calls"
    and h: "sample_hash \<in> st_processed_tx_hashes st" and sold: "(0, SellUsdc 500) \<in> set calls"
    using sample_pass_of_runs by blast
  obtain rs where disc: "discover rat_decimals (sample_pass_of default_state) sample_pass_world chain_iter =
      Some (rs, [[sample_deposit], []])" using sample_run_discover by blast
  define one where "one = prune_stale_entries 60 st"
  have fresh: "bp_processed_at p = 0" if "st_bank_payments st i = Some p" for i p
  proof (cases "audit_id sample_ymd sample_deposit = Some i")
    case False
    with pass_untouched [OF run0 disc, of i] that show ?thesis by (simp add: pass_of_def default_state_def)
  next
    case True
    obtain lr acts where one: "liquidate_one rat_decimals sample_ymd
        (worker_of (dk_config (sample_pass_of default_state))) (pw_job sample_pass_world 0) sample_deposit = (Some lr, acts)"
      and "audit_id sample_ymd sample_deposit = Some (bp_id (lr_payment lr))"
      and "st_bank_payments st (bp_id (lr_payment lr)) = Some (lr_payment lr)"
      using pass_own_record [OF run0 disc, of 0] by (auto simp: audit_id_def)
    with True that have "p = lr_payment lr" by simp
    with one show ?thesis
      by (auto simp: liquidate_one_def liquidation_record_Some sample_deposit_def split: prod.splits)
  qed
  have keep: "sample_hash \<in> st_processed_tx_hashes one"
    using h fresh by (auto simp: one_def prune_stale_entries_def Let_def ran_def duration_days_def)
  then have ne: "one \<noteq> default_state" by (auto simp: default_state_def)
  obtain cuts where save: "save_state (sample_json one) sample_path one no_faults dsk = (Inr (), cuts)"
    by (rule sample_run_save [OF ne])
  have load: "load_state (sample_json one) None sample_path dsk = Inr default_state"
    by (simp add: assms load_state_def read_to_string_def)
  obtain client where client: "live_coinbase_client_new sample_auth (cfg_coinbase_api_key sample_config)
      (cfg_coinbase_api_secret sample_config) (cfg_coinbase_usdc_account_id sample_config)
      (cfg_coinbase_usd_account_id sample_config) = Inr client"
    by (simp add: live_coinbase_client_new_def parse_pem_key_def sample_auth_def sample_config_def)
  have path: "cfg_state_file sample_config = sample_path" by (simp add: sample_config_def sample_path_def)
  have "sweep_run (sample_sweep_env one) sample_config sample_run_world dsk (Inr ())
      (error_alert (run_errors [] (Inr ()))) cuts calls"
  proof (rule sweep_run.passed)
    show "load_state (se_json (sample_sweep_env one)) (rw_read_fault sample_run_world) (cfg_state_file sample_config)
        dsk = Inr default_state" using load by (simp add: sample_sweep_env_def sample_run_world_def path)
    show "live_coinbase_client_new (se_auth (sample_sweep_env one)) (cfg_coinbase_api_key sample_config)
        (cfg_coinbase_api_secret sample_config) (cfg_coinbase_usdc_account_id sample_config)
        (cfg_coinbase_usd_account_id sample_config) = Inr client" using client by (simp add: sample_sweep_env_def)
    show "explorers_built (se_alloy (sample_sweep_env one))"
      using sample_explorers_built by (simp add: sample_sweep_env_def)
    show "deposit_check_run (se_dec (sample_sweep_env one)) (se_ymd (sample_sweep_env one))
        (pass_of (sample_sweep_env one) sample_config sample_run_world default_state)
        (rw_pass sample_run_world) st [] calls"
      using run0 unfolding dk [of one default_state] by (simp add: sample_sweep_env_def sample_run_world_def)
    show "save_state (se_json (sample_sweep_env one)) (cfg_state_file sample_config)
        (prune_stale_entries (rw_now sample_run_world) st) (rw_save sample_run_world) dsk = (Inr (), cuts)"
      using save by (simp add: sample_sweep_env_def sample_run_world_def path one_def)
  qed
  then have "sweep_run (sample_sweep_env one) sample_config sample_run_world dsk (Inr ()) [] cuts calls"
    by (simp add: run_errors_def error_alert_def)
  moreover have "load_state (sample_json one) None sample_path (last cuts) = Inr one"
    using save_state_saved [OF sample_json_roundtrip save] by simp
  ultimately show thesis using keep sold by (rule that)
qed

lemmas sample_sweep_run = sample_sweep_run_on [where dsk = Map.empty, OF refl]

lemma sample_se_json [simp]: "se_json (sample_sweep_env one) = sample_json one"
  and sample_se_dec [simp]: "se_dec (sample_sweep_env one) = rat_decimals"
  and sample_se_alloy [simp]: "se_alloy (sample_sweep_env one) = sample_alloy"
  and sample_se_auth [simp]: "se_auth (sample_sweep_env one) = sample_auth"
  and sample_read_fault [simp]: "rw_read_fault sample_run_world = None"
  and sample_se_ymd [simp]: "se_ymd (sample_sweep_env one) = sample_ymd"
  and sample_rw_pass [simp]: "rw_pass sample_run_world = sample_pass_world"
  and sample_state_file [simp]: "cfg_state_file sample_config = sample_path"
  by (simp_all add: sample_sweep_env_def sample_run_world_def sample_config_def sample_path_def)

section \<open>Properties of a run and of \<open>main\<close>\<close>

text \<open>
  C22. A run that sends no alert of its own had no error: its pass reported none and its pruned
  result is what the state file now holds.
\<close>

theorem silent_run_saved:
  assumes "json_roundtrip (se_json E)" and "sweep_run E config rw dsk (Inr ()) [] cuts calls"
  shows "\<exists>st0 st. load_state (se_json E) (rw_read_fault rw) (cfg_state_file config) dsk = Inr st0 \<and>
    deposit_check_run (se_dec E) (se_ymd E) (pass_of E config rw st0) (rw_pass rw) st [] calls \<and>
    load_state (se_json E) None (cfg_state_file config) (last cuts) = Inr (prune_stale_entries (rw_now rw) st)"
  using assms(2)
proof cases
  case (passed st0 client st errors saved)
  from passed(1) have "errors = []" and "saved = Inr ()"
    by (auto simp: error_alert_def run_errors_def split: if_splits sum.splits)
  with passed(2,5,6) save_state_saved [OF assms(1)] show ?thesis by blast
qed

theorem silent_run_saved_witness:
  "\<exists>one cuts calls st. sweep_run (sample_sweep_env one) sample_config sample_run_world Map.empty (Inr ()) [] cuts calls \<and>
     load_state (sample_json one) None sample_path (last cuts) = Inr (prune_stale_entries 60 st)"
proof -
  obtain one cuts calls where
    run: "sweep_run (sample_sweep_env one) sample_config sample_run_world Map.empty (Inr ()) [] cuts calls"
    by (rule sample_sweep_run)
  from silent_run_saved [OF _ run] sample_json_roundtrip [of one] obtain st where
    "load_state (se_json (sample_sweep_env one)) None (cfg_state_file sample_config) (last cuts) =
       Inr (prune_stale_entries (rw_now sample_run_world) st)"
    by (auto simp: sample_sweep_env_def)
  with run show ?thesis
    by (fastforce simp: sample_sweep_env_def sample_run_world_def sample_config_def sample_path_def)
qed


text \<open>A table and an environment that load the sample configuration.\<close>

definition sample_table :: "rat raw_config" where
  "sample_table =
     \<lparr>raw_max_auto_amount = Some (cfg_max_auto_amount sample_config),
      raw_default_payment_method_id = Some (cfg_default_payment_method_id sample_config),
      raw_deposit_addresses = Some (cfg_deposit_addresses sample_config),
      raw_confirmation_blocks = Some (cfg_confirmation_blocks sample_config),
      raw_start_blocks = Some (cfg_start_blocks sample_config),
      raw_coinbase_api_key = Some (cfg_coinbase_api_key sample_config),
      raw_coinbase_api_secret = Some (cfg_coinbase_api_secret sample_config),
      raw_telegram_bot_token = Some (cfg_telegram_bot_token sample_config),
      raw_telegram_chat_id = Some (cfg_telegram_chat_id sample_config),
      raw_coinbase_usdc_account_id = None, raw_coinbase_usd_account_id = None,
      raw_sell_settle_delay_secs = Some 30, raw_state_file = Some (cfg_state_file sample_config)\<rparr>"

definition sample_main_env :: "rat config_env" where
  "sample_main_env =
     \<lparr>ce_read_to_string = (\<lambda>_. Inr ''toml''), ce_toml_from_str = (\<lambda>_. Inr sample_table),
      ce_missing_field = (\<lambda>f. ''missing field '' @ f), ce_report = (\<lambda>_. ''report''), ce_debug_path = id,
      ce_home = Some ''/root'', ce_join = (\<lambda>a b. a @ ''/'' @ b)\<rparr>"

lemma sample_main_config: "load_config sample_main_env path = Inr sample_config"
proof -
  have "config_of_raw sample_main_env sample_table = Inr sample_config"
    by (simp add: config_of_raw_def sample_table_def sample_config_def)
  moreover have "validate_config sample_config = []"
    by (simp add: validate_config_def sample_config_def validate_eth_address_def sample_address_def)
  ultimately show ?thesis by (simp add: load_config_def sample_main_env_def)
qed






end
