(* ===== verification/Cron_History.thy ===== *)
theory Cron_History
  imports Sweep_Main
begin

text \<open>
  The program over its whole life: cron starts it again and again, and every start may be killed,
  in the pass or in the save. What holds from the state file of one run to that of the next: no
  deposit falls between two scan windows, and no deposit whose handling was saved is sold again.
\<close>

section \<open>The scan window of a state\<close>

definition window_start :: "'d crypto_sweep_config \<Rightarrow> 'd persisted_state \<Rightarrow> chain \<Rightarrow> u64 option" where
  "window_start config st c =
     (case st_last_seen_block st c of
        Some lsb \<Rightarrow> Some (lsb_block_number lsb)
      | None \<Rightarrow> start_block_for config c)"

text \<open>Block \<open>b\<close> is still ahead of the scans that start from \<open>st\<close>.\<close>

definition awaits :: "'d crypto_sweep_config \<Rightarrow> 'd persisted_state \<Rightarrow> chain \<Rightarrow> u64 \<Rightarrow> bool" where
  "awaits config st c b \<longleftrightarrow> (\<exists>s. window_start config st c = Some s \<and> s \<le> b)"

lemma since_block_of_window [simp]:
  "since_block_of (chain_check_of dk c ex) = window_start (dk_config dk) (dk_state dk) c"
  by (cases "st_last_seen_block (dk_state dk) c")
    (simp_all add: since_block_of_def window_start_def chain_check_of_def)

lemma chain_check_of_simps [simp]:
  "cc_config (chain_check_of dk c ex) = dk_config dk" "cc_state (chain_check_of dk c ex) = dk_state dk"
  "cc_explorer (chain_check_of dk c ex) = ex" "cc_chain (chain_check_of dk c ex) = c"
  by (simp_all add: chain_check_of_def)

lemma window_start_prune [simp]:
  "window_start config (prune_stale_entries now st) c = window_start config st c"
  by (simp add: window_start_def prune_stale_entries_def Let_def)

lemma awaits_prune [simp]: "awaits config (prune_stale_entries now st) c b = awaits config st c b"
  by (simp add: awaits_def)

section \<open>One pass loses no deposit\<close>

text \<open>
  The frontier that the merge stores is the chain's own: a block it has passed was covered by the
  chain's check, every other block is still ahead of the next scan.
\<close>

lemma pass_window:
  assumes run: "deposit_check_run D ymd dk pw st errors calls" and ex: "dk_explorers dk c = Some ex"
  obtains res dc where
    "chain_run D (chain_check_of dk c ex) (sending (pw_scan pw c)) = Some (res, dc)"
    and "set (cr_processed_tx_hashes res) \<subseteq> st_processed_tx_hashes st"
    and "st_processed_tx_hashes (dk_state dk) \<subseteq> st_processed_tx_hashes st"
    and "window_start (dk_config dk) st c =
      (case latest_seen_block res of Some f \<Rightarrow> Some f | None \<Rightarrow> window_start (dk_config dk) (dk_state dk) c)"
  using run
proof (rule pass_final)
  fix rs dss s
  assume disc: "discover D dk pw chain_iter = Some (rs, dss)"
    and hashes: "st_processed_tx_hashes st = st_processed_tx_hashes (dk_state dk) \<union> ed_tx_hash ` set (concat dss)"
    and seen: "\<And>c. st_last_seen_block st c =
       (case Option.bind (map_of rs c) latest_seen_block of
          Some block \<Rightarrow> Some \<lparr>lsb_block_number = block, lsb_updated_at = pw_merged_at pw c\<rparr>
        | None \<Rightarrow> st_last_seen_block (dk_state dk) c)"
  have "c \<in> set chain_iter" by (cases c) (simp_all add: chain_iter_def)
  then obtain res dc where res: "(c, res) \<in> set rs" and dc: "set dc \<subseteq> set dss"
    and cr: "chain_run D (chain_check_of dk c ex) (sending (pw_scan pw c)) = Some (res, dc)"
    by (rule discover_result [OF disc _ ex])
  have "distinct (map fst rs)" using discover_chains [OF disc] by (simp add: chain_iter_def)
  with res have "map_of rs c = Some res" by simp
  then have "window_start (dk_config dk) st c =
      (case latest_seen_block res of Some f \<Rightarrow> Some f | None \<Rightarrow> window_start (dk_config dk) (dk_state dk) c)"
    by (simp add: window_start_def seen split: option.split)
  moreover have "set (cr_processed_tx_hashes res) \<subseteq> st_processed_tx_hashes st"
    using dc by (auto simp: hashes chain_run_hashes [OF cr])
  ultimately show thesis using cr hashes by (intro that) simp_all
qed

text \<open>The explorer reports every receive of \<open>address\<close> up to the frontier it confirms.\<close>

definition complete_for ::
  "'d block_explorer \<Rightarrow> nat \<Rightarrow> string \<Rightarrow> u64 \<Rightarrow> u64 \<Rightarrow> 'd usdc_receive \<Rightarrow> bool" where
  "complete_for ex k address since cur r \<longleftrightarrow>
     (\<forall>fetch. be_fetch_usdc_receives ex k address since cur = Some (Inr fetch) \<longrightarrow>
        ur_block_number r \<le> fr_confirmed_frontier fetch \<longrightarrow> r \<in> set (fr_receives fetch))"

lemma pass_loses_none:
  assumes run: "deposit_check_run D ymd dk pw st errors calls" and ex: "dk_explorers dk c = Some ex"
    and ahead: "window_start (dk_config dk) (dk_state dk) c = Some since" "since \<le> ur_block_number r"
    and k: "k < length (cfg_deposit_addresses (dk_config dk))"
    and exact: "\<And>cur. be_get_block_height ex = Some (Inr cur) \<Longrightarrow>
      complete_for ex k (dac_address (cfg_deposit_addresses (dk_config dk) ! k)) since cur r"
    and dust: "\<not> dec_lt D (ur_amount r) (USDC_DUST_THRESHOLD D)"
  shows "ur_tx_hash r \<in> st_processed_tx_hashes st \<or> awaits (dk_config dk) st c (ur_block_number r)"
proof -
  obtain res dc where cr: "chain_run D (chain_check_of dk c ex) (sending (pw_scan pw c)) = Some (res, dc)"
    and new: "set (cr_processed_tx_hashes res) \<subseteq> st_processed_tx_hashes st"
    and old: "st_processed_tx_hashes (dk_state dk) \<subseteq> st_processed_tx_hashes st"
    and win: "window_start (dk_config dk) st c =
      (case latest_seen_block res of Some f \<Rightarrow> Some f | None \<Rightarrow> window_start (dk_config dk) (dk_state dk) c)"
    by (rule pass_window [OF run ex])
  show ?thesis
  proof (cases "latest_seen_block res")
    case None
    with win ahead show ?thesis by (simp add: awaits_def)
  next
    case (Some f)
    show ?thesis
    proof (cases "f \<le> ur_block_number r")
      case True
      with win Some show ?thesis by (simp add: awaits_def)
    next
      case False
      from Some have f: "cr_confirmed_frontier res = Some f" by (simp add: latest_seen_block_Some)
      obtain cur where cur: "be_get_block_height ex = Some (Inr cur)"
        using cr f by (cases rule: chain_run_Some) auto
      have "ur_tx_hash r \<in> st_processed_tx_hashes (cc_state (chain_check_of dk c ex)) \<union>
          set (cr_processed_tx_hashes res)"
      proof (rule chain_run_covers [OF cr _ _ _ f])
        show "r \<in> set (fr_receives fetch)"
          if "be_fetch_usdc_receives (cc_explorer (chain_check_of dk c ex)) k
              (dac_address (cfg_deposit_addresses (cc_config (chain_check_of dk c ex)) ! k)) since cur = Some (Inr fetch)"
            and "ur_block_number r \<le> fr_confirmed_frontier fetch" for fetch
          using exact [OF cur] that by (simp add: complete_for_def)
      qed (use cur ahead False k dust in \<open>simp_all add: sending_def\<close>)
      with new old show ?thesis by auto
    qed
  qed
qed

text \<open>A live explorer on an honest node is complete for every receive of the chain's ledger.\<close>

lemma live_complete:
  assumes "honest_provider (node k) ledger" and "cur < u64_max" and "since \<le> ur_block_number r"
    and r: "r \<in> ledger_receives L D (now k) ledger address"
  shows "complete_for (live_trait L D ex node now) k address since cur r"
  unfolding complete_for_def
proof (intro allI impI)
  fix fetch
  assume "be_fetch_usdc_receives (live_trait L D ex node now) k address since cur = Some (Inr fetch)"
    and le: "ur_block_number r \<le> fr_confirmed_frontier fetch"
  then have fetch: "fetch_usdc_receives L D (node k) (now k) address since cur = Some (Inr fetch)"
    by (simp add: live_trait_def)
  have "fr_confirmed_frontier fetch \<le> cur" by (rule live.frontier_le [OF assms(2) fetch])
  with le assms(3) have "since \<le> cur" by simp
  from live.none_missed [OF assms(1,2) this fetch r assms(3) le] show "r \<in> set (fr_receives fetch)" .
qed

section \<open>Runs that may be killed\<close>

text \<open>
  One start of the program that got the lock, from the disk it finds to the disk it leaves, with
  the calls it made. It ends, or is killed in its save (any disk the save passes through), or is
  killed in its pass, with any explorer calls still outstanding and at any state of the worker;
  then nothing was written.
\<close>

inductive cron_run ::
  "('a, 'k, 'd) sweep_env \<Rightarrow> 'd crypto_sweep_config \<Rightarrow> ('a, 'd) run_world \<Rightarrow> disk \<Rightarrow> disk \<Rightarrow>
   (nat \<times> 'd action) list \<Rightarrow> bool" for E config rw dsk where
  ended: "sweep_run E config rw dsk res alerts cuts calls \<Longrightarrow> dsk' \<in> set cuts \<Longrightarrow>
     cron_run E config rw dsk dsk' calls"
| killed: "load_state (se_json E) (rw_read_fault rw) (cfg_state_file config) dsk = Inr st0 \<Longrightarrow>
     explorers_built (se_alloy E) \<Longrightarrow>
     pipe_reaches (pass_env (se_dec E) (se_ymd E) (pass_of E config rw st0) (rw_pass rw))
       (pipe_init (tag_senders 0
         (discover_sends (se_dec E) (pass_of E config rw st0) (rw_pass rw) progress chain_iter))) s \<Longrightarrow>
     cron_run E config rw dsk dsk (pp_log s)"

lemma sweep_run_cuts: "sweep_run E config rw dsk res alerts cuts calls \<Longrightarrow> cuts \<noteq> []"
  by (erule sweep_run.cases) (auto dest: save_state_nonempty)

lemma cron_run_last: "sweep_run E config rw dsk res alerts cuts calls \<Longrightarrow> cron_run E config rw dsk (last cuts) calls"
  by (rule cron_run.ended, assumption) (rule last_in_set, rule sweep_run_cuts)

text \<open>
  What \<open>main\<close> does is one of these runs, from the disk as it is once the lock file exists; a start
  that does not get that far makes no call and leaves all other files alone.
\<close>

lemma main_run_cron:
  assumes "main_run C E mw rw dsk en alerts cuts calls" and "dsk' \<in> set cuts"
    and "default_config_path C = Some path" and "load_config C path = Inr config"
  shows "calls = [] \<and> (\<forall>p. p \<noteq> LOCK_PATH \<longrightarrow> dsk' p = dsk p) \<or>
    cron_run E config rw (snd (acquire_lock LOCK_PATH None False dsk)) dsk' calls"
  using assms(1)
proof cases
  case (locked path' config' notifier e dsk1)
  from acquire_lock_disk(1) [OF locked(8)] assms(2) locked(3,4) show ?thesis by auto
next
  case (fatal path' config' notifier dsk1 e alerts')
  have "cuts = [dsk1] \<and> calls = []" using fatal(7) by cases simp_all
  with acquire_lock_disk(1) [OF fatal(6)] assms(2) show ?thesis by auto
next
  case (complete path' config' notifier dsk1)
  from complete(5) acquire_lock_Inr [of LOCK_PATH "mw_lock_open_fault mw" "mw_lock_held mw" dsk]
  have "acquire_lock LOCK_PATH None False dsk = (Inr (), dsk1)" by simp
  moreover have "config' = config" using complete(2,3) assms(3,4) by simp
  ultimately show ?thesis using cron_run.ended [OF complete(6) assms(2)] by simp
qed (use assms(2) in simp_all)

text \<open>Only a missing file reads as not found.\<close>

definition reads_ok :: "('a, 'd) run_world \<Rightarrow> bool" where
  "reads_ok rw \<longleftrightarrow> (\<forall>e. rw_read_fault rw = Some e \<longrightarrow> io_kind e \<noteq> NotFound)"

abbreviation stored :: "('a, 'k, 'd) sweep_env \<Rightarrow> 'd crypto_sweep_config \<Rightarrow> disk \<Rightarrow> app_error + 'd persisted_state" where
  "stored E config dsk \<equiv> load_state (se_json E) None (cfg_state_file config) dsk"

text \<open>The run from \<open>dsk\<close> completed its pass from the stored state, and the pass ended in \<open>st\<close>.\<close>

definition pass_done ::
  "('a, 'k, 'd) sweep_env \<Rightarrow> 'd crypto_sweep_config \<Rightarrow> ('a, 'd) run_world \<Rightarrow> disk \<Rightarrow>
   (nat \<times> 'd action) list \<Rightarrow> 'd persisted_state \<Rightarrow> bool" where
  "pass_done E config rw dsk calls st \<longleftrightarrow>
     (\<exists>st0 errors. stored E config dsk = Inr st0 \<and>
        deposit_check_run (se_dec E) (se_ymd E) (pass_of E config rw st0) (rw_pass rw) st errors calls)"

lemma reads_ok_load:
  assumes "reads_ok rw" and "load_state J (rw_read_fault rw) p dsk = Inr st"
  shows "load_state J None p dsk = Inr st"
  using assms by (cases "rw_read_fault rw") (auto simp: load_state_def read_to_string_def reads_ok_def)

text \<open>A run leaves the stored state alone, or replaces it by its own pass's result, pruned.\<close>

lemma cron_run_stored:
  assumes J: "json_roundtrip (se_json E)" and ok: "reads_ok rw" and run: "cron_run E config rw dsk dsk' calls"
  shows "stored E config dsk' = stored E config dsk \<or>
    (\<exists>st. pass_done E config rw dsk calls st \<and> explorers_built (se_alloy E) \<and>
          stored E config dsk' = Inr (prune_stale_entries (rw_now rw) st))"
  using run
proof cases
  case (ended res alerts cuts)
  from ended(1) show ?thesis
  proof cases
    case (passed st0 client st errors saved)
    from save_state_cut [OF J passed(7) ended(2)]
    show ?thesis
      using passed(5,6) reads_ok_load [OF ok passed(3)] by (auto simp: pass_done_def)
  qed (use ended(2) in simp_all)
qed simp

section \<open>No deposit is lost\<close>

text \<open>
  In this run the nodes of chain \<open>c\<close> answer log queries with the chain's transfers, and the
  tip is below the last block number.
\<close>

definition honest_run :: "('a, 'k, 'd) sweep_env \<Rightarrow> ('a, 'd) run_world \<Rightarrow> chain \<Rightarrow> ('a \<Rightarrow> rpc_log set) \<Rightarrow> bool" where
  "honest_run E rw c ledger \<longleftrightarrow>
     (\<forall>ex. live_block_explorer_new (se_alloy E) c = Some ex \<longrightarrow>
        get_block_height (ex\<lparr>lbe_provider := rw_tip rw c\<rparr>) \<noteq> Inr u64_max \<and>
        (\<forall>k. honest_provider (ex\<lparr>lbe_provider := rw_provider rw c k\<rparr>) ledger))"

lemma parse_log_time:
  "parse_log L D t l = Inr r \<Longrightarrow> parse_log L D t' l = Inr (r\<lparr>ur_fetched_at := t'\<rparr>)"
  by (auto simp: parse_log_def split: option.splits sum.splits)

lemma ledger_receives_time:
  "r \<in> ledger_receives L D t ledger address \<Longrightarrow>
   r\<lparr>ur_fetched_at := t'\<rparr> \<in> ledger_receives L D t' ledger address"
  by (auto simp: ledger_receives_def intro: parse_log_time split: sum.splits)

lemma explorers_built_Some:
  "explorers_built L \<Longrightarrow> \<exists>ex. live_block_explorer_new L c = Some ex"
  by (cases c) (simp_all add: explorers_built_def chain_iter_def)

lemma run_loses_none:
  assumes J: "json_roundtrip (se_json E)" and ok: "reads_ok rw"
    and run: "cron_run E config rw dsk dsk' calls" and honest: "honest_run E rw c ledger"
    and k: "k < length (cfg_deposit_addresses config)"
    and r: "r \<in> ledger_receives (se_alloy E) (se_dec E) t ledger (dac_address (cfg_deposit_addresses config ! k))"
    and dust: "\<not> dec_lt (se_dec E) (ur_amount r) (USDC_DUST_THRESHOLD (se_dec E))"
    and st0: "stored E config dsk = Inr st0" "awaits config st0 c (ur_block_number r)"
  shows "(\<exists>st. pass_done E config rw dsk calls st \<and> ur_tx_hash r \<in> st_processed_tx_hashes st) \<or>
    (\<exists>st. stored E config dsk' = Inr st \<and> awaits config st c (ur_block_number r))"
  using cron_run_stored [OF J ok run]
proof (elim disjE exE conjE)
  assume "stored E config dsk' = stored E config dsk"
  with st0 show ?thesis by simp
next
  fix st
  assume fin: "pass_done E config rw dsk calls st" and built: "explorers_built (se_alloy E)"
    and st: "stored E config dsk' = Inr (prune_stale_entries (rw_now rw) st)"
  from fin st0(1) obtain errors where
    pass: "deposit_check_run (se_dec E) (se_ymd E) (pass_of E config rw st0) (rw_pass rw) st errors calls"
    by (auto simp: pass_done_def)
  obtain ex where ex: "live_block_explorer_new (se_alloy E) c = Some ex"
    using explorers_built_Some [OF built] by blast
  let ?ex = "live_trait (se_alloy E) (se_dec E) (ex\<lparr>lbe_provider := rw_tip rw c\<rparr>)
    (\<lambda>i. ex\<lparr>lbe_provider := rw_provider rw c i\<rparr>) (rw_scan_now rw c)"
  let ?r = "r\<lparr>ur_fetched_at := rw_scan_now rw c k\<rparr>"
  have dk: "dk_explorers (pass_of E config rw st0) c = Some ?ex" "dk_config (pass_of E config rw st0) = config"
    "dk_state (pass_of E config rw st0) = st0"
    by (simp_all add: pass_of_def explorers_of_def ex)
  from st0(2) obtain since where since: "window_start config st0 c = Some since" "since \<le> ur_block_number r"
    by (auto simp: awaits_def)
  have r': "?r \<in> ledger_receives (se_alloy E) (se_dec E) (rw_scan_now rw c k) ledger
      (dac_address (cfg_deposit_addresses config ! k))" by (rule ledger_receives_time [OF r])
  have exact: "complete_for ?ex k (dac_address (cfg_deposit_addresses config ! k)) since cur ?r"
    if "be_get_block_height ?ex = Some (Inr cur)" for cur
  proof (rule live_complete)
    show "cur < u64_max"
      using that honest ex le_u64_max [of cur]
      by (auto simp: live_trait_def honest_run_def order.order_iff_strict)
  qed (use honest ex since r' in \<open>auto simp: honest_run_def\<close>)
  have "ur_tx_hash ?r \<in> st_processed_tx_hashes st \<or>
      awaits (dk_config (pass_of E config rw st0)) st c (ur_block_number ?r)"
    by (rule pass_loses_none [OF pass dk(1), of since ?r k])
      (use since k dust exact in \<open>simp_all add: dk(2,3)\<close>)
  then have "ur_tx_hash r \<in> st_processed_tx_hashes st \<or> awaits config st c (ur_block_number r)"
    by (simp add: dk(2))
  with fin st show ?thesis by auto
qed

section \<open>No deposit is sold twice\<close>

lemma pass_records:
  assumes run: "deposit_check_run D ymd dk pw st errors calls"
    and disc: "discover D dk pw chain_iter = Some (rs, dss)" and p: "st_bank_payments st i = Some p"
  shows "st_bank_payments (dk_state dk) i = Some p \<or>
    (\<exists>d\<in>set (concat dss). bp_deposit_tx_hash p = ed_tx_hash d \<and> bp_processed_at p = ed_processed_at d)"
  using run
proof (rule pass_final)
  fix rs' dss' s
  assume d': "discover D dk pw chain_iter = Some (rs', dss')"
    and reach: "pipe_reaches (pass_env D ymd dk pw) (pipe_init (tag_senders 0 dss')) s" and fin: "pipe_done s"
    and other: "\<And>i. i \<notin> (bp_id \<circ> lr_payment) ` set (map snd (pp_results s)) \<Longrightarrow>
       st_bank_payments st i = st_bank_payments (dk_state dk) i"
    and some: "\<And>i. i \<in> (bp_id \<circ> lr_payment) ` set (map snd (pp_results s)) \<Longrightarrow>
       \<exists>l\<in>set (map snd (pp_results s)). bp_id (lr_payment l) = i \<and> st_bank_payments st i = Some (lr_payment l)"
  have eq: "dss' = dss" using d' disc by simp
  show ?thesis
  proof (cases "i \<in> (bp_id \<circ> lr_payment) ` set (map snd (pp_results s))")
    case False
    with other p show ?thesis by simp
  next
    case True
    from some [OF True] p obtain n d l where l: "((n, d), l) \<in> set (pp_results s)" "p = lr_payment l" by auto
    have "d \<in> set (concat dss)" using pass_result_from [OF reach fin l(1)] eq by (metis nth_mem)
    moreover have "bp_deposit_tx_hash p = ed_tx_hash d \<and> bp_processed_at p = ed_processed_at d"
      using pass_results(2) [OF reach fin l(1)] l(2)
      by (auto simp: liquidate_one_def liquidation_record_Some split: prod.splits)
    ultimately show ?thesis by blast
  qed
qed

text \<open>The state knows the hash, and no record that carries it is older than \<open>t\<close>.\<close>

definition remembers :: "'d persisted_state \<Rightarrow> string \<Rightarrow> datetime \<Rightarrow> bool" where
  "remembers st h t \<longleftrightarrow> h \<in> st_processed_tx_hashes st \<and>
     (\<forall>i p. st_bank_payments st i = Some p \<longrightarrow> bp_deposit_tx_hash p = h \<longrightarrow> t \<le> bp_processed_at p)"

lemma remembers_prune:
  assumes "remembers st h t" and "now \<le> t + duration_days 90"
  shows "remembers (prune_stale_entries now st) h t"
  using assms
  by (fastforce simp: remembers_def prune_stale_entries_def Let_def ran_def split: option.splits if_splits)

lemma pass_remembers:
  assumes run: "deposit_check_run D ymd dk pw st errors calls" and rem: "remembers (dk_state dk) h t"
  shows "remembers st h t"
  using run
proof (rule pass_final)
  fix rs dss s
  assume disc: "discover D dk pw chain_iter = Some (rs, dss)"
    and hashes: "st_processed_tx_hashes st = st_processed_tx_hashes (dk_state dk) \<union> ed_tx_hash ` set (concat dss)"
  have "t \<le> bp_processed_at p" if p: "st_bank_payments st i = Some p" and h: "bp_deposit_tx_hash p = h" for i p
    using pass_records [OF run disc p]
  proof (elim disjE bexE conjE)
    fix d
    assume "d \<in> set (concat dss)" and "bp_deposit_tx_hash p = ed_tx_hash d"
    with discover_fresh [OF disc] h rem show ?thesis by (metis remembers_def)
  qed (use rem h in \<open>auto simp: remembers_def\<close>)
  with rem hashes show ?thesis by (auto simp: remembers_def)
qed

text \<open>A pass makes its state remember every deposit it sent.\<close>

lemma pass_learns:
  assumes run: "deposit_check_run D ymd dk pw st errors calls"
    and disc: "discover D dk pw chain_iter = Some (rs, dss)" and d: "d \<in> set (concat dss)"
    and fresh: "\<forall>i p. st_bank_payments (dk_state dk) i = Some p \<longrightarrow> bp_deposit_tx_hash p \<noteq> ed_tx_hash d"
    and t: "\<forall>d'\<in>set (concat dss). ed_tx_hash d' = ed_tx_hash d \<longrightarrow> t \<le> ed_processed_at d'"
  shows "remembers st (ed_tx_hash d) t"
  unfolding remembers_def
proof (intro conjI allI impI)
  show "ed_tx_hash d \<in> st_processed_tx_hashes st" using d by (simp only: pass_hashes [OF run disc]) simp
next
  fix i p
  assume p: "st_bank_payments st i = Some p" and h: "bp_deposit_tx_hash p = ed_tx_hash d"
  from pass_records [OF run disc p] fresh h t show "t \<le> bp_processed_at p" by metis
qed

lemma cron_run_remembers:
  assumes "json_roundtrip (se_json E)" and "reads_ok rw" and "cron_run E config rw dsk dsk' calls"
    and st0: "stored E config dsk = Inr st0" and rem: "remembers st0 h t"
    and now: "rw_now rw \<le> t + duration_days 90"
  shows "\<exists>st. stored E config dsk' = Inr st \<and> remembers st h t"
  using cron_run_stored [OF assms(1-3)]
proof (elim disjE exE conjE)
  fix st
  assume "pass_done E config rw dsk calls st"
    and new: "stored E config dsk' = Inr (prune_stale_entries (rw_now rw) st)"
  with st0 obtain errors where
    "deposit_check_run (se_dec E) (se_ymd E) (pass_of E config rw st0) (rw_pass rw) st errors calls"
    by (auto simp: pass_done_def)
  then have "remembers st h t" by (rule pass_remembers) (simp add: pass_of_def rem)
  with new remembers_prune [OF _ now] show ?thesis by blast
qed (use st0 rem in simp)

lemma cron_history_remembers:
  assumes "json_roundtrip (se_json E)"
    and "\<forall>i<n. reads_ok (rw i) \<and> cron_run E config (rw i) (dsk i) (dsk (Suc i)) (calls i) \<and>
      rw_now (rw i) \<le> t + duration_days 90"
    and "stored E config (dsk 0) = Inr st0" and "remembers st0 h t"
  shows "\<exists>st. stored E config (dsk n) = Inr st \<and> remembers st h t"
  using assms(2)
proof (induction n)
  case 0
  with assms(3,4) show ?case by simp
next
  case (Suc n)
  then obtain st where "stored E config (dsk n) = Inr st" "remembers st h t" by auto
  with Suc.prems cron_run_remembers [OF assms(1)] show ?case by (metis lessI)
qed

section \<open>The sample program run\<close>

lemma reads_ok_sample: "reads_ok sample_run_world"
  by (simp add: reads_ok_def sample_run_world_def)

lemma sample_stored_empty: "stored (sample_sweep_env one) sample_config Map.empty = Inr default_state"
  by (simp add: load_state_def read_to_string_def)

lemma honest_run_sample: "honest_run (sample_sweep_env one) sample_run_world c sample_ledger"
  by (auto simp: honest_run_def live_block_explorer_new_def sample_alloy_def sample_run_world_def
      get_block_height_def sample_provider_def u64_max_def honest_provider_def sample_ledger_def sample_log_def)

lemma sample_awaits: "awaits sample_config default_state Ethereum (ur_block_number sample_receive)"
  by (simp add: awaits_def window_start_def default_state_def start_block_for_def sample_config_def sample_receive_def)

lemma sample_deposited:
  "sample_receive \<in> ledger_receives (se_alloy (sample_sweep_env one)) (se_dec (sample_sweep_env one)) 0
     sample_ledger (dac_address (cfg_deposit_addresses sample_config ! 0))"
proof -
  have "al_parse_address sample_alloy a = Inr a" for a by (simp add: sample_alloy_def)
  then show ?thesis
    using sample_log_parsed by (auto simp: ledger_receives_def sample_config_def sample_ledger_def)
qed

lemma sample_not_dust:
  "\<not> dec_lt (se_dec (sample_sweep_env one)) (ur_amount sample_receive)
      (USDC_DUST_THRESHOLD (se_dec (sample_sweep_env one)))"
  by (simp add: sample_receive_def USDC_DUST_THRESHOLD_def)

lemma sample_cron_run:
  obtains one dsk calls where "cron_run (sample_sweep_env one) sample_config sample_run_world Map.empty dsk calls"
    and "stored (sample_sweep_env one) sample_config dsk = Inr one" and "sample_hash \<in> st_processed_tx_hashes one"
proof -
  obtain one cuts calls where
    run: "sweep_run (sample_sweep_env one) sample_config sample_run_world Map.empty (Inr ()) [] cuts calls"
    and load: "load_state (sample_json one) None sample_path (last cuts) = Inr one"
    and h: "sample_hash \<in> st_processed_tx_hashes one" by (rule sample_sweep_run)
  from cron_run_last [OF run] load h show thesis by (intro that) simp_all
qed

section \<open>Properties of the life of the program\<close>




text \<open>The sample run as a saved run.\<close>

lemma sample_saved_run:
  obtains one st errors calls dsk where
    "deposit_check_run rat_decimals sample_ymd (sample_pass_of one) sample_pass_world st errors calls"
    and "cron_run (sample_sweep_env one) sample_config sample_run_world Map.empty dsk calls"
    and "stored (sample_sweep_env one) sample_config dsk = Inr (prune_stale_entries 60 st)"
proof -
  obtain one cuts calls where
    run: "sweep_run (sample_sweep_env one) sample_config sample_run_world Map.empty (Inr ()) [] cuts calls"
    and load: "load_state (sample_json one) None sample_path (last cuts) = Inr one"
    and h: "sample_hash \<in> st_processed_tx_hashes one" by (rule sample_sweep_run)
  from run show thesis
  proof cases
    case (passed st0 client st errors saved)
    from passed(2) have "st0 = default_state"
      by (simp add: load_state_def read_to_string_def sample_run_world_def)
    with passed(5) have pass: "deposit_check_run rat_decimals sample_ymd (sample_pass_of one) sample_pass_world st errors calls"
      by simp
    from passed(6) have save: "save_state (sample_json one) sample_path (prune_stale_entries 60 st)
        (rw_save sample_run_world) Map.empty = (saved, cuts)" by (simp add: sample_run_world_def)
    have cron: "cron_run (sample_sweep_env one) sample_config sample_run_world Map.empty (last cuts) calls"
      by (rule cron_run_last [OF run])
    have "load_state (sample_json one) None sample_path (last cuts) = Inr (prune_stale_entries 60 st)"
    proof (cases saved)
      case (Inr u)
      with save have "save_state (sample_json one) sample_path (prune_stale_entries 60 st)
        (rw_save sample_run_world) Map.empty = (Inr (), cuts)" by simp
      from save_state_saved [OF sample_json_roundtrip this] show ?thesis by simp
    next
      case (Inl e)
      with save save_state_failed have "last cuts sample_path = None" by fastforce
      with load h show ?thesis by (auto simp: load_state_def read_to_string_def default_state_def)
    qed
    with pass cron show thesis by (intro that) simp_all
  qed
qed

lemma cron_run_unreadable:
  "cron_run E config (rw\<lparr>rw_read_fault := Some (IoError OtherKind e)\<rparr>) dsk dsk []"
  by (rule cron_run.ended [OF sweep_run.load_failed [where e = "Io (IoError OtherKind e)"]])
    (simp_all add: load_state_def read_to_string_def)

lemma sample_times:
  "rw_now sample_run_world = 60" "ed_processed_at sample_deposit = 0" "ed_tx_hash sample_deposit = sample_hash"
  "st_bank_payments default_state = Map.empty"
  by (simp_all add: sample_run_world_def sample_deposit_def default_state_def)


text \<open>
  C4. A run, whether it fails, is killed in its pass or in its save, or completes, leaves a state
  file that loads as before, or as exactly the pruned result of its own completed pass.
\<close>

theorem run_keeps_or_replaces_state:
  assumes "json_roundtrip (se_json E)" and "reads_ok rw" and "cron_run E config rw dsk dsk' calls"
  shows "stored E config dsk' = stored E config dsk \<or>
    (\<exists>st. pass_done E config rw dsk calls st \<and>
          stored E config dsk' = Inr (prune_stale_entries (rw_now rw) st))"
  using cron_run_stored [OF assms] by blast

theorem run_keeps_or_replaces_state_witness:
  "\<exists>(E :: (string, string, rat) sweep_env) dsk calls st.
     cron_run E sample_config sample_run_world Map.empty dsk calls \<and>
     pass_done E sample_config sample_run_world Map.empty calls st \<and>
     stored E sample_config dsk = Inr (prune_stale_entries 60 st) \<and>
     stored E sample_config dsk \<noteq> stored E sample_config Map.empty"
proof -
  obtain one dsk calls where
    run: "cron_run (sample_sweep_env one) sample_config sample_run_world Map.empty dsk calls"
    and one: "stored (sample_sweep_env one) sample_config dsk = Inr one" "sample_hash \<in> st_processed_tx_hashes one"
    by (rule sample_cron_run)
  then have ne: "stored (sample_sweep_env one) sample_config dsk \<noteq> stored (sample_sweep_env one) sample_config Map.empty"
    unfolding sample_stored_empty by (auto simp: default_state_def)
  with run_keeps_or_replaces_state [OF _ reads_ok_sample run] sample_json_roundtrip
  obtain st where "pass_done (sample_sweep_env one) sample_config sample_run_world Map.empty calls st"
    and "stored (sample_sweep_env one) sample_config dsk = Inr (prune_stale_entries (rw_now sample_run_world) st)"
    by auto
  with run ne show ?thesis by (fastforce simp: sample_run_world_def)
qed

section \<open>What the state file does not protect\<close>


text \<open>
  A chain whose frontier has not moved since block 22000000, because one of its addresses never
  scans; the sample deposit above it was sold long ago.
\<close>

definition stuck_state :: "rat persisted_state" where
  "stuck_state = sample_state\<lparr>st_last_seen_block :=
     [Ethereum \<mapsto> \<lparr>lsb_block_number = 22000000, lsb_updated_at = 0\<rparr>]\<rparr>"

lemma stuck_pruned:
  "prune_stale_entries (duration_days 91) stuck_state =
     \<lparr>st_bank_payments = Map.empty, st_processed_tx_hashes = {},
      st_last_seen_block = [Ethereum \<mapsto> \<lparr>lsb_block_number = 22000000, lsb_updated_at = 0\<rparr>]\<rparr>"
proof -
  have p: "bp_deposit_tx_hash sample_payment = sample_hash" "bp_processed_at sample_payment = 0"
    by (simp_all add: sample_payment_def)
  have "sample_hash \<in> bp_deposit_tx_hash ` {q. sample_payment = q \<and> bp_processed_at q < duration_days 1}"
    by (rule image_eqI [of _ _ sample_payment]) (simp_all add: p duration_days_def)
  then show ?thesis
    by (auto simp: prune_stale_entries_def stuck_state_def sample_state_def p duration_days_def ran_def Let_def)
qed

lemma discover_sample_explorer:
  "discover rat_decimals (sample_pass\<lparr>dk_state := st\<rparr>) sample_pass_world chain_iter =
     map_option (\<lambda>(res, dss). ([(Ethereum, res)], dss))
       (chain_run rat_decimals (sample_check\<lparr>cc_state := st\<rparr>) sample_scan_world)"
proof -
  have "chain_check_of (sample_pass\<lparr>dk_state := st\<rparr>) Ethereum sample_explorer = sample_check\<lparr>cc_state := st\<rparr>"
    by (simp add: chain_check_of_def sample_pass_def sample_check_def)
  moreover have "sending (pw_scan sample_pass_world c) = sample_scan_world" for c
    by (simp add: sending_def sample_pass_world_def sample_scan_world_def)
  moreover have "dk_explorers (sample_pass\<lparr>dk_state := st\<rparr>) = [Ethereum \<mapsto> sample_explorer]"
    by (simp add: sample_pass_def)
  ultimately show ?thesis by (simp add: chain_iter_def split: option.split)
qed

lemmas sample_scan_defs = chain_run_def sample_check_def sample_explorer_def sample_scan_world_def
  since_block_of_def sample_config_def address_scan_def send_if_eligible_def USDC_DUST_THRESHOLD_def
  confirmation_blocks_for_def sat_sub_def Let_def sample_receive_def chain_result_sum_def
  chain_result_zero chain_result_plus sample_hash_def u64_max_def


end
