(* ===== verification/Money_Trail.thy ===== *)
theory Money_Trail
  imports Cron_History
begin

text \<open>
  From the token contract to the bank: every sale traced back to a confirmed transfer to a
  monitored address, with its amount in atoms, and every payout record to a transfer id of the
  live exchange client.
\<close>

section \<open>Amounts\<close>

text \<open>A receive parsed from a log is worth its atoms in millionths, and dust is less than a million.\<close>

lemma parsed_amount:
  assumes D: "decimal_laws D val" and r: "parse_log L D t l = Inr r"
  obtains raw where "al_u256_from_be_slice L (log_data l) = Some raw"
    and "val (ur_amount r) = of_nat (unat raw) / 10 ^ 6"
    and "dec_lt D (ur_amount r) (USDC_DUST_THRESHOLD D) \<longleftrightarrow> unat raw < 10 ^ 6"
proof -
  from r obtain raw where raw: "al_u256_from_be_slice L (log_data l) = Some raw"
    and amt: "u256_to_decimal L D raw USDC_DECIMALS = Inr (ur_amount r)"
    by (auto simp: parse_log_def split: option.splits sum.splits)
  from u256_to_decimal_cases [OF D, of raw L] amt
  have val: "val (ur_amount r) = of_nat (unat raw) / 10 ^ 6" by auto
  have "val (USDC_DUST_THRESHOLD D) = 1" by (simp add: USDC_DUST_THRESHOLD_def decimal_laws_simps(2) [OF D])
  moreover have "(of_nat (unat raw) / 10 ^ 6 < (1 :: rat)) \<longleftrightarrow> unat raw < 10 ^ 6"
    by (simp add: divide_less_eq_1 flip: of_nat_less_iff [where 'a = rat])
  ultimately have "dec_lt D (ur_amount r) (USDC_DUST_THRESHOLD D) \<longleftrightarrow> unat raw < 10 ^ 6"
    by (simp only: decimal_laws_simps(1) [OF D] val)
  with raw val that show thesis by blast
qed

section \<open>Where a call comes from\<close>

text \<open>Every call of a run, killed or not, is made by the pipeline of a deposit that discovery sent.\<close>

lemma pipe_call:
  assumes reach: "pipe_reaches (pass_env D ymd dk pw) (pipe_init (tag_senders 0 dss)) s"
    and call: "(n, a) \<in> set (pp_log s)"
  obtains d where "d \<in> set (concat dss)"
    and "a \<in> set (snd (liquidate_pipeline D (worker_of (dk_config dk)) (pw_job pw n) d))"
proof -
  from pipe_reaches_log_known [OF reach] call obtain d where d: "(n, d) \<in> set (concat (tag_senders 0 dss))"
    by fastforce
  from pipe_reaches_prefix [OF reach distinct_tags d] obtain rest where
    "snd (liquidate_pipeline D (worker_of (dk_config dk)) (pw_job pw n) d) = job_log s n @ rest" by auto
  moreover have "a \<in> set (job_log s n)" using call by (force simp: job_log_def)
  moreover have "d \<in> set (concat dss)"
  proof -
    from d have "n < length (concat dss) \<and> d = concat dss ! n"
      by (simp only: concat_tag_senders in_set_enumerate_eq) simp
    then show ?thesis using nth_mem by blast
  qed
  ultimately show thesis using that by simp
qed

lemma cron_run_call:
  assumes "cron_run E config rw dsk dsk' calls" and "(n, a) \<in> set calls"
  obtains st0 progress d where
    "load_state (se_json E) (rw_read_fault rw) (cfg_state_file config) dsk = Inr st0"
    and "explorers_built (se_alloy E)"
    and "d \<in> set (concat (discover_sends (se_dec E) (pass_of E config rw st0) (rw_pass rw) progress chain_iter))"
    and "a \<in> set (snd (liquidate_pipeline (se_dec E) (worker_of config) (pw_job (rw_pass rw) n) d))"
proof -
  have dk: "dk_config (pass_of E config rw st0) = config" for st0 by (simp add: pass_of_def)
  from assms(1) show thesis
  proof cases
    case (ended res alerts cuts)
    from ended(1) show thesis
    proof cases
      case (passed st0 client st errors saved)
      from passed(6) show thesis
      proof (rule pass_final)
        fix rs dss s
        assume disc: "discover (se_dec E) (pass_of E config rw st0) (rw_pass rw) chain_iter = Some (rs, dss)"
          and reach: "pipe_reaches (pass_env (se_dec E) (se_ymd E) (pass_of E config rw st0) (rw_pass rw))
            (pipe_init (tag_senders 0 dss)) s" and "calls = pp_log s"
        with assms(2) have "(n, a) \<in> set (pp_log s)" by simp
        from pipe_call [OF reach this] obtain d where "d \<in> set (concat dss)"
          and "a \<in> set (snd (liquidate_pipeline (se_dec E) (worker_of config) (pw_job (rw_pass rw) n) d))"
          unfolding dk .
        with passed(3,5) discover_sends_all [OF disc] that show thesis by blast
      qed
    qed (use assms(2) in simp_all)
  next
    case (killed st0 progress s)
    from assms(2) killed(2) have "(n, a) \<in> set (pp_log s)" by simp
    from pipe_call [OF killed(5) this] obtain d where
      "d \<in> set (concat (discover_sends (se_dec E) (pass_of E config rw st0) (rw_pass rw) progress chain_iter))"
      and "a \<in> set (snd (liquidate_pipeline (se_dec E) (worker_of config) (pw_job (rw_pass rw) n) d))"
      unfolding dk .
    with killed(3,4) that show thesis by blast
  qed
qed

section \<open>Where a deposit comes from\<close>

text \<open>What discovery sends for a chain with an honest node is one of the chain's transfers.\<close>

lemma honest_fetch_receive:
  assumes "honest_provider ex ledger" and "to_block < u64_max"
    and "fetch_usdc_receives L D ex now address since to_block = Some (Inr fetch)"
    and "r \<in> set (fr_receives fetch)"
  shows "r \<in> ledger_receives L D now ledger address"
proof (cases "since \<le> to_block")
  case True
  with assms live.receives_exact show ?thesis by blast
next
  case False
  with fetch_usdc_receives_empty_window [OF assms(3)] assms(4) show ?thesis by simp
qed

lemma discovered_deposit_arrived:
  assumes honest: "\<And>c. honest_run E rw c (ledger c)"
    and d: "d \<in> set (concat (discover_sends (se_dec E) (pass_of E config rw st0) (rw_pass rw) progress chain_iter))"
  obtains ex cur dc r now where "dc \<in> set (cfg_deposit_addresses config)"
    and "live_block_explorer_new (se_alloy E) (ed_chain d) = Some ex"
    and "get_block_height (ex\<lparr>lbe_provider := rw_tip rw (ed_chain d)\<rparr>) = Inr cur"
    and "r \<in> ledger_receives (se_alloy E) (se_dec E) now (ledger (ed_chain d)) (dac_address dc)"
    and "\<not> dec_lt (se_dec E) (ur_amount r) (USDC_DUST_THRESHOLD (se_dec E))"
    and "confirmation_blocks_for config (ed_chain d) \<le> sat_sub cur (ur_block_number r)"
    and "ed_usdc_amount d = ur_amount r" and "ed_tx_hash d = ur_tx_hash r"
    and "ed_payment_method_id d = dac_payment_method_id dc" and "ed_deposit_address d = dac_address dc"
proof -
  let ?dk = "pass_of E config rw st0"
  from d obtain ds where ds: "ds \<in> set (discover_sends (se_dec E) ?dk (rw_pass rw) progress chain_iter)"
    "d \<in> set ds" by auto
  obtain c be where be: "dk_explorers ?dk c = Some be"
    and sent: "ds \<in> set (chain_sends (se_dec E) (chain_check_of ?dk c be) (sending (pw_scan (rw_pass rw) c)) (progress c))"
    by (rule discover_sends_elem [OF ds(1)])
  from be obtain ex where ex: "live_block_explorer_new (se_alloy E) c = Some ex"
    and be_eq: "be = live_trait (se_alloy E) (se_dec E) (ex\<lparr>lbe_provider := rw_tip rw c\<rparr>)
      (\<lambda>i. ex\<lparr>lbe_provider := rw_provider rw c i\<rparr>) (rw_scan_now rw c)"
    by (auto simp: pass_of_def explorers_of_def)
  from chain_sends_receive [OF sent ds(2)] obtain dc cur fetch r i since where
    dc: "dc \<in> set (cfg_deposit_addresses config)" and cur: "be_get_block_height be = Some (Inr cur)"
    and fetch: "be_fetch_usdc_receives be i (dac_address dc) since cur = Some (Inr fetch)"
    and r: "r \<in> set (fr_receives fetch)" "\<not> dec_lt (se_dec E) (ur_amount r) (dec_literal (se_dec E) 10 1)"
      "confirmation_blocks_for config c \<le> sat_sub cur (ur_block_number r)"
    and eqs: "ed_tx_hash d = ur_tx_hash r" "ed_usdc_amount d = ur_amount r" "ed_chain d = c"
      "ed_deposit_address d = dac_address dc" "ed_payment_method_id d = dac_payment_method_id dc"
    by (auto simp: pass_of_def)
  have cur': "get_block_height (ex\<lparr>lbe_provider := rw_tip rw c\<rparr>) = Inr cur"
    using cur by (simp add: be_eq live_trait_def)
  with honest [of c] ex have "cur \<noteq> u64_max" and node: "honest_provider (ex\<lparr>lbe_provider := rw_provider rw c i\<rparr>) (ledger c)"
    by (auto simp: honest_run_def)
  then have "cur < u64_max" using le_u64_max [of cur] by (simp add: order.order_iff_strict)
  note below = this
  have "fetch_usdc_receives (se_alloy E) (se_dec E) (ex\<lparr>lbe_provider := rw_provider rw c i\<rparr>) (rw_scan_now rw c i)
      (dac_address dc) since cur = Some (Inr fetch)"
    using fetch by (simp add: be_eq live_trait_def)
  from honest_fetch_receive [OF node below this r(1)]
  have ledger: "r \<in> ledger_receives (se_alloy E) (se_dec E) (rw_scan_now rw c i) (ledger c) (dac_address dc)" .
  show thesis
    by (rule that [of dc ex cur r "rw_scan_now rw c i"])
      (use dc ex cur' ledger r(2,3) eqs in \<open>simp_all add: USDC_DUST_THRESHOLD_def\<close>)
qed

section \<open>Properties from the chain to the bank\<close>

text \<open>
  C3. Only money that arrived is sold: with honest nodes, every sale any run makes, also a run
  killed while some explorer calls are still outstanding, is backed by a transfer in the ledger of a chain to a configured address, deep
  enough below the tip, of at least one USDC; it sells exactly the transferred atoms in
  millionths, and never more than the configured maximum.
\<close>

theorem only_arrived_money_is_sold:
  assumes "decimal_laws (se_dec E) val" and "\<forall>c. honest_run E rw c (ledger c)"
    and "cron_run E config rw dsk dsk' calls" and "(n, SellUsdc a) \<in> set calls"
  shows "\<exists>c dc addr l b raw ex cur.
    dc \<in> set (cfg_deposit_addresses config) \<and> al_parse_address (se_alloy E) (dac_address dc) = Inr addr \<and>
    l \<in> ledger c addr \<and> log_block_number l = Some b \<and>
    live_block_explorer_new (se_alloy E) c = Some ex \<and>
    get_block_height (ex\<lparr>lbe_provider := rw_tip rw c\<rparr>) = Inr cur \<and>
    confirmation_blocks_for config c \<le> sat_sub cur b \<and>
    al_u256_from_be_slice (se_alloy E) (log_data l) = Some raw \<and>
    10 ^ 6 \<le> unat raw \<and> val a = of_nat (unat raw) / 10 ^ 6 \<and> val a \<le> val (cfg_max_auto_amount config)"
proof (rule cron_run_call [OF assms(3,4)])
  fix st0 progress d
  assume d: "d \<in> set (concat (discover_sends (se_dec E) (pass_of E config rw st0) (rw_pass rw) progress chain_iter))"
    and call: "SellUsdc a \<in> set (snd (liquidate_pipeline (se_dec E) (worker_of config) (pw_job (rw_pass rw) n) d))"
  from call have sell: "a = ed_usdc_amount d" "\<not> dec_lt (se_dec E) (cfg_max_auto_amount config) (ed_usdc_amount d)"
    by (auto simp: liquidate_pipeline_def worker_of_def split: if_splits sum.splits)
  obtain ex cur dc r now where dc: "dc \<in> set (cfg_deposit_addresses config)"
    and ex: "live_block_explorer_new (se_alloy E) (ed_chain d) = Some ex"
    and cur: "get_block_height (ex\<lparr>lbe_provider := rw_tip rw (ed_chain d)\<rparr>) = Inr cur"
    and r: "r \<in> ledger_receives (se_alloy E) (se_dec E) now (ledger (ed_chain d)) (dac_address dc)"
    and dust: "\<not> dec_lt (se_dec E) (ur_amount r) (USDC_DUST_THRESHOLD (se_dec E))"
    and conf: "confirmation_blocks_for config (ed_chain d) \<le> sat_sub cur (ur_block_number r)"
    and amt: "ed_usdc_amount d = ur_amount r"
    by (rule discovered_deposit_arrived [OF spec [OF assms(2)] d])
  from r obtain addr l where addr: "al_parse_address (se_alloy E) (dac_address dc) = Inr addr"
    and l: "l \<in> ledger (ed_chain d) addr" "parse_log (se_alloy E) (se_dec E) now l = Inr r"
    by (auto simp: ledger_receives_def split: sum.splits)
  obtain raw where raw: "al_u256_from_be_slice (se_alloy E) (log_data l) = Some raw"
    and val: "val (ur_amount r) = of_nat (unat raw) / 10 ^ 6"
    and small: "dec_lt (se_dec E) (ur_amount r) (USDC_DUST_THRESHOLD (se_dec E)) \<longleftrightarrow> unat raw < 10 ^ 6"
    by (rule parsed_amount [OF assms(1) l(2)])
  have "10 ^ 6 \<le> unat raw" using dust small by (simp only: not_less)
  moreover have "val a = of_nat (unat raw) / 10 ^ 6" by (simp only: sell(1) amt val)
  moreover have "val a \<le> val (cfg_max_auto_amount config)"
    using sell by (simp add: decimal_laws_simps(1) [OF assms(1)] not_less)
  ultimately show ?thesis
    using dc addr l(1) parse_log_block [OF l(2)] ex cur conf raw by blast
qed

theorem only_arrived_money_is_sold_witness:
  "\<exists>(E :: (string, string, rat) sweep_env) dsk calls raw.
     cron_run E sample_config sample_run_world Map.empty dsk calls \<and> (0, SellUsdc 500) \<in> set calls \<and>
     (500 :: rat) = of_nat (unat (raw :: u256)) / 10 ^ 6 \<and> (500 :: rat) \<le> 10000"
proof -
  obtain one cuts calls where
    run: "sweep_run (sample_sweep_env one) sample_config sample_run_world Map.empty (Inr ()) [] cuts calls"
    and load: "load_state (sample_json one) None sample_path (last cuts) = Inr one"
    and h: "sample_hash \<in> st_processed_tx_hashes one" and sold: "(0, SellUsdc 500) \<in> set calls"
    by (rule sample_sweep_run)
  have cron: "cron_run (sample_sweep_env one) sample_config sample_run_world Map.empty (last cuts) calls"
    by (rule cron_run_last [OF run])
  have "decimal_laws (se_dec (sample_sweep_env one)) id" by (simp add: rat_decimals_laws)
  from only_arrived_money_is_sold [OF this _ cron sold, of "\<lambda>_. sample_ledger"] honest_run_sample
  obtain raw :: u256 where "id (500 :: rat) = of_nat (unat raw) / 10 ^ 6"
    and "id (500 :: rat) \<le> id (cfg_max_auto_amount sample_config)" by blast
  then have "(500 :: rat) = of_nat (unat raw) / 10 ^ 6 \<and> (500 :: rat) \<le> 10000" by (simp add: sample_config_def)
  with cron sold show ?thesis by blast
qed

text \<open>
  The job's exchange calls are the live client's, the sale made when the requests \<open>trs\<close> had been
  sent, the withdrawal when \<open>trw\<close> had.
\<close>

definition live_job ::
  "('k, 'd) coinbase_lib \<Rightarrow> coinbase_world \<Rightarrow> 'k live_coinbase_client \<Rightarrow> trace \<Rightarrow> trace \<Rightarrow> 'd job_world \<Rightarrow> bool" where
  "live_job L W c trs trw jw \<longleftrightarrow>
     (\<forall>a r. jw_sell_usdc jw a = Inr r \<longrightarrow> fst (sell_usdc L W c a trs) = Inr r) \<and>
     (\<forall>a pm w. jw_withdraw_usd jw a pm = Inr w \<longrightarrow> withdraw_result L W c trw a pm = Inr w)"


definition sample_live_world :: "rat job_world" where
  "sample_live_world = sample_job_world
     \<lparr>jw_sell_usdc := (\<lambda>a. case fst (sell_usdc sample_coinbase (sample_server ''ok'') sample_client a []) of
        Inr r \<Rightarrow> Inr r | Inl _ \<Rightarrow> Inl (Coinbase ''failed'')),
      jw_withdraw_usd := (\<lambda>a pm. case withdraw_result sample_coinbase (sample_server ''ok'') sample_client [] a pm of
        Inr w \<Rightarrow> Inr w | Inl _ \<Rightarrow> Inl (Coinbase ''failed''))\<rparr>"


end
