(* ===== verification/Serde_Json.thy ===== *)
theory Serde_Json
  imports Sweep_Types "HOL-Library.List_Lexorder"
begin

text \<open>
  JSON values and what \<open>#[derive(Serialize, Deserialize)]\<close> means on them, following serde's
  documented data model: a struct is an object with its fields in declaration order; reading one
  accepts the fields in any order, ignores unknown ones, rejects a duplicate, and asks for every
  field that is neither an \<open>Option\<close> nor \<open>#[serde(default)]\<close>; the array form gives the
  fields by position. The text of a value, its printer and its parser, is serde_json's and is a
  parameter here.
\<close>

named_theorems codec_simps \<open>a decoder undoes its encoder\<close>

section \<open>Values\<close>

text \<open>Numbers as serde_json keeps them; a float is only ever passed on.\<close>

datatype json_number = PosInt u64 | NegInt int | Float string

datatype json =
    JNull
  | JBool bool
  | JNum json_number
  | JStr string
  | JArr "json list"
  | JObj "(string \<times> json) list"

datatype de_error =
    Missing_field string
  | Duplicate_field string
  | Unknown_variant string
  | Invalid_type
  | Invalid_length
  | Trailing_characters
  | Custom string

text \<open>
  The text layer: \<open>to_string_pretty\<close> and \<open>to_string\<close>, the parser, and the text of a
  decoding error, which also names the place in the input.
\<close>

record json_text =
  jt_print :: "json \<Rightarrow> string"
  jt_print_pretty :: "json \<Rightarrow> string"
  jt_parse :: "string \<Rightarrow> string + json"
  jt_error :: "string \<Rightarrow> de_error \<Rightarrow> string"

definition json_text_laws :: "json_text \<Rightarrow> bool" where
  "json_text_laws T \<longleftrightarrow> (\<forall>j. jt_parse T (jt_print T j) = Inr j \<and> jt_parse T (jt_print_pretty T j) = Inr j)"

type_synonym 'a de = "json \<Rightarrow> de_error + 'a"

text \<open>The \<open>?\<close> operator on a \<open>Result\<close>.\<close>

fun bind_result :: "'e + 'a \<Rightarrow> ('a \<Rightarrow> 'e + 'b) \<Rightarrow> 'e + 'b" where
  "bind_result (Inl e) f = Inl e"
| "bind_result (Inr x) f = f x"

lemma bind_result_Inr [simp]: "bind_result r f = Inr y \<longleftrightarrow> (\<exists>x. r = Inr x \<and> f x = Inr y)"
  by (cases r) simp_all

lemma bind_result_Inl: "bind_result r f = Inl e \<longleftrightarrow> r = Inl e \<or> (\<exists>x. r = Inr x \<and> f x = Inl e)"
  by (cases r) simp_all

text \<open>\<open>serde_json::from_str\<close>: the text is parsed, then the value decoded.\<close>

definition from_str :: "json_text \<Rightarrow> 'a de \<Rightarrow> string \<Rightarrow> string + 'a" where
  "from_str T d s =
     (case jt_parse T s of
        Inl e \<Rightarrow> Inl e
      | Inr j \<Rightarrow> (case d j of Inl e \<Rightarrow> Inl (jt_error T s e) | Inr x \<Rightarrow> Inr x))"

lemma from_str_Inr: "from_str T d s = Inr x \<longleftrightarrow> (\<exists>j. jt_parse T s = Inr j \<and> d j = Inr x)"
  by (auto simp: from_str_def split: sum.splits)

section \<open>Primitive decoders\<close>

fun de_string :: "string de" where
  "de_string (JStr s) = Inr s"
| "de_string _ = Inl Invalid_type"

fun de_bool :: "bool de" where
  "de_bool (JBool b) = Inr b"
| "de_bool _ = Inl Invalid_type"

fun de_u64 :: "u64 de" where
  "de_u64 (JNum (PosInt w)) = Inr w"
| "de_u64 _ = Inl Invalid_type"

fun de_option :: "'a de \<Rightarrow> 'a option de" where
  "de_option d JNull = Inr None"
| "de_option d j = bind_result (d j) (\<lambda>x. Inr (Some x))"

fun de_vec :: "'a de \<Rightarrow> 'a list de" where
  "de_vec d (JArr js) = collect_res d js"
| "de_vec d _ = Inl Invalid_type"

definition ser_u64 :: "u64 \<Rightarrow> json" where
  "ser_u64 w = JNum (PosInt w)"

lemma primitive_codecs [codec_simps]:
  "de_string (JStr s) = Inr s" "de_bool (JBool b) = Inr b" "de_u64 (ser_u64 w) = Inr w"
  by (simp_all add: ser_u64_def)

section \<open>Structs\<close>

text \<open>
  A field of a derived struct: a plain field, an \<open>Option\<close>, or one with
  \<open>#[serde(default)]\<close>; with the error its decoder gives on a value, if any.
\<close>

datatype presence = Required | Optional | Defaulted

type_synonym field_spec = "string \<times> presence \<times> (json \<Rightarrow> de_error option)"

definition de_fails :: "'a de \<Rightarrow> json \<Rightarrow> de_error option" where
  "de_fails d j = (case d j of Inl e \<Rightarrow> Some e | Inr _ \<Rightarrow> None)"

lemma de_fails_None [simp]: "de_fails d j = None \<longleftrightarrow> (\<exists>x. d j = Inr x)"
  by (simp add: de_fails_def split: sum.splits)

lemma de_fails_Inr [simp]: "d j = Inr x \<Longrightarrow> de_fails d j = None"
  by simp

text \<open>The entries of an object in the order of the text.\<close>

fun visit_map :: "field_spec list \<Rightarrow> string list \<Rightarrow> (string \<times> json) list \<Rightarrow> de_error option" where
  "visit_map fs seen [] = None"
| "visit_map fs seen ((k, v) # es) =
     (case map_of fs k of
        None \<Rightarrow> visit_map fs seen es
      | Some (_, fails) \<Rightarrow>
          (if k \<in> set seen then Some (Duplicate_field k)
           else (case fails v of Some e \<Rightarrow> Some e | None \<Rightarrow> visit_map fs (k # seen) es)))"

fun first_missing :: "field_spec list \<Rightarrow> (string \<times> json) list \<Rightarrow> de_error option" where
  "first_missing [] es = None"
| "first_missing ((k, p, _) # fs) es =
     (if p = Required \<and> map_of es k = None then Some (Missing_field k) else first_missing fs es)"

fun visit_seq :: "field_spec list \<Rightarrow> json list \<Rightarrow> de_error + (string \<times> json) list" where
  "visit_seq [] [] = Inr []"
| "visit_seq [] (v # vs) = Inl Trailing_characters"
| "visit_seq ((k, p, fails) # fs) [] = (if p = Defaulted then visit_seq fs [] else Inl Invalid_length)"
| "visit_seq ((k, p, fails) # fs) (v # vs) =
     (case fails v of
        Some e \<Rightarrow> Inl e
      | None \<Rightarrow> bind_result (visit_seq fs vs) (\<lambda>es. Inr ((k, v) # es)))"

text \<open>The named values of a struct, once every check has passed.\<close>

fun de_struct :: "field_spec list \<Rightarrow> json \<Rightarrow> de_error + (string \<times> json) list" where
  "de_struct fs (JObj es) =
     (case visit_map fs [] es of
        Some e \<Rightarrow> Inl e
      | None \<Rightarrow> (case first_missing fs es of Some e \<Rightarrow> Inl e | None \<Rightarrow> Inr es))"
| "de_struct fs (JArr vs) = visit_seq fs vs"
| "de_struct fs _ = Inl Invalid_type"

definition required_field :: "(string \<times> json) list \<Rightarrow> string \<Rightarrow> 'a de \<Rightarrow> de_error + 'a" where
  "required_field es k d = (case map_of es k of None \<Rightarrow> Inl (Missing_field k) | Some v \<Rightarrow> d v)"

definition optional_field :: "(string \<times> json) list \<Rightarrow> string \<Rightarrow> 'a de \<Rightarrow> de_error + 'a option" where
  "optional_field es k d = (case map_of es k of None \<Rightarrow> Inr None | Some v \<Rightarrow> de_option d v)"

definition defaulted_field :: "(string \<times> json) list \<Rightarrow> string \<Rightarrow> 'a \<Rightarrow> 'a de \<Rightarrow> de_error + 'a" where
  "defaulted_field es k x d = (case map_of es k of None \<Rightarrow> Inr x | Some v \<Rightarrow> d v)"

lemmas struct_simps = required_field_def optional_field_def defaulted_field_def

text \<open>A field the struct does not know changes nothing, wherever it stands.\<close>

lemma visit_map_unknown:
  "k \<notin> fst ` set fs \<Longrightarrow> visit_map fs seen (es @ (k, v) # es') = visit_map fs seen (es @ es')"
proof (induction es arbitrary: seen)
  case Nil
  then have "map_of fs k = None" by (simp add: map_of_eq_None_iff)
  then show ?case by simp
next
  case (Cons e es)
  then show ?case by (cases e) (simp split: option.splits)
qed

lemma map_of_unknown: "k \<noteq> k' \<Longrightarrow> map_of (es @ (k, v) # es') k' = map_of (es @ es') k'"
  by (auto simp: map_add_def split: option.split)

lemma first_missing_cong:
  "(\<And>k. k \<in> fst ` set fs \<Longrightarrow> map_of es k = map_of es' k) \<Longrightarrow> first_missing fs es = first_missing fs es'"
  by (induction fs) auto

lemma de_struct_JObj: "de_struct fs (JObj es) = Inr es' \<Longrightarrow> es' = es"
  by (auto split: option.splits)

lemma de_struct_unknown:
  assumes "k \<notin> fst ` set fs"
  shows "de_struct fs (JObj (es @ (k, v) # es')) =
    (case de_struct fs (JObj (es @ es')) of Inl e \<Rightarrow> Inl e | Inr _ \<Rightarrow> Inr (es @ (k, v) # es'))"
proof -
  have "first_missing fs (es @ (k, v) # es') = first_missing fs (es @ es')"
  proof (rule first_missing_cong)
    fix k' assume "k' \<in> fst ` set fs"
    with assms have "k \<noteq> k'" by blast
    then show "map_of (es @ (k, v) # es') k' = map_of (es @ es') k'" by (rule map_of_unknown)
  qed
  then show ?thesis using assms by (simp add: visit_map_unknown split: option.splits)
qed

text \<open>An object without a field that is required is rejected.\<close>

lemma first_missing_required:
  "(k, Required, fails) \<in> set fs \<Longrightarrow> map_of es k = None \<Longrightarrow> first_missing fs es \<noteq> None"
  by (induction fs) auto

lemma de_struct_missing:
  assumes "(k, Required, fails) \<in> set fs" and "k \<notin> fst ` set es"
  shows "\<exists>e. de_struct fs (JObj es) = Inl e"
proof -
  have "map_of es k = None" using assms(2) by (simp add: map_of_eq_None_iff)
  then obtain e where "first_missing fs es = Some e" using first_missing_required [OF assms(1)] by blast
  then show ?thesis by (cases "visit_map fs [] es") simp_all
qed

section \<open>\<open>serde_json::Value\<close>\<close>

text \<open>
  An object of a \<open>Value\<close> is a \<open>BTreeMap\<close>: parsing to a \<open>Value\<close> and \<open>to_value\<close> sort the
  keys, and a later entry replaces an earlier one of the same key.
\<close>

definition add_entry :: "string \<Rightarrow> json \<Rightarrow> (string \<times> json) list \<Rightarrow> (string \<times> json) list" where
  "add_entry k v es = (if k \<in> fst ` set es then es else insort_key fst (k, v) es)"

fun to_value :: "json \<Rightarrow> json" and to_values :: "json list \<Rightarrow> json list"
  and to_entries :: "(string \<times> json) list \<Rightarrow> (string \<times> json) list" where
  "to_value JNull = JNull"
| "to_value (JBool b) = JBool b"
| "to_value (JNum n) = JNum n"
| "to_value (JStr s) = JStr s"
| "to_value (JArr js) = JArr (to_values js)"
| "to_value (JObj es) = JObj (to_entries es)"
| "to_values [] = []"
| "to_values (j # js) = to_value j # to_values js"
| "to_entries [] = []"
| "to_entries (e # es) = add_entry (fst e) (to_value (snd e)) (to_entries es)"

lemma to_values_map: "to_values js = map to_value js"
  by (induction js) simp_all

lemma to_entries_sorted: "sorted (map fst (to_entries es)) \<and> distinct (map fst (to_entries es))"
  by (induction es) (simp_all add: add_entry_def sorted_insort_key distinct_insort_key)

lemma to_entries_elem: "e \<in> set (to_entries es) \<Longrightarrow> \<exists>e'\<in>set es. e = (fst e', to_value (snd e'))"
  by (induction es) (auto simp: add_entry_def set_insort_key split: if_splits)

lemma to_entries_fixed:
  assumes "sorted (map fst es)" and "distinct (map fst es)" and "\<And>e. e \<in> set es \<Longrightarrow> to_value (snd e) = snd e"
  shows "to_entries es = es"
  using assms
proof (induction es)
  case (Cons e es)
  then have "to_entries es = es" by simp
  with Cons.prems show ?case by (auto simp: add_entry_def insort_is_Cons)
qed simp

lemma to_value_idem [simp]:
  "to_value (to_value j) = to_value j"
  "\<And>v. v \<in> set js \<Longrightarrow> to_value (to_value v) = to_value v"
  "\<And>e :: string \<times> json. e \<in> set es \<Longrightarrow> to_value (to_value (snd e)) = to_value (snd e)"
proof (induction j and js and es rule: to_value_to_values_to_entries.induct)
  case (5 js)
  then show ?case by (simp add: to_values_map)
next
  case (6 es)
  have "to_entries (to_entries es) = to_entries es"
  proof (rule to_entries_fixed)
    fix e assume "e \<in> set (to_entries es)"
    then obtain e' where "e' \<in> set es" and "e = (fst e', to_value (snd e'))" using to_entries_elem by blast
    with 6 show "to_value (snd e) = snd e" by simp
  qed (simp_all add: to_entries_sorted)
  then show ?case by simp
qed auto

section \<open>Maps and sets\<close>

text \<open>\<open>BTreeMap\<close> and \<open>BTreeSet\<close> print in key order; in reading, a later entry wins.\<close>

definition ser_map :: "('k::linorder \<Rightarrow> string) \<Rightarrow> ('v \<Rightarrow> json) \<Rightarrow> ('k \<rightharpoonup> 'v) \<Rightarrow> json" where
  "ser_map key ser m = JObj (map (\<lambda>k. (key k, ser (the (m k)))) (sorted_list_of_set (dom m)))"

definition ser_string_set :: "string set \<Rightarrow> json" where
  "ser_string_set A = JArr (map JStr (sorted_list_of_set A))"

definition de_entry :: "(string \<Rightarrow> de_error + 'k) \<Rightarrow> 'v de \<Rightarrow> string \<times> json \<Rightarrow> de_error + 'k \<times> 'v" where
  "de_entry dk dv e = bind_result (dk (fst e)) (\<lambda>k. bind_result (dv (snd e)) (\<lambda>v. Inr (k, v)))"

fun de_map :: "(string \<Rightarrow> de_error + 'k) \<Rightarrow> 'v de \<Rightarrow> ('k \<rightharpoonup> 'v) de" where
  "de_map dk dv (JObj es) = bind_result (collect_res (de_entry dk dv) es) (\<lambda>kvs. Inr (map_of (rev kvs)))"
| "de_map dk dv _ = Inl Invalid_type"

definition de_string_set :: "string set de" where
  "de_string_set j = bind_result (de_vec de_string j) (\<lambda>xs. Inr (set xs))"

lemma collect_res_map: "collect_res f (map g xs) = collect_res (f \<circ> g) xs"
  by (induction xs) (simp_all split: sum.split)

lemma de_map_ser_map:
  assumes "finite (dom m)" and "\<And>k. dk (key k) = Inr k" and "\<And>v. v \<in> ran m \<Longrightarrow> dv (ser v) = Inr v"
  shows "de_map dk dv (ser_map key ser m) = Inr m"
proof -
  let ?ks = "sorted_list_of_set (dom m)"
  have "collect_res (de_entry dk dv) (map (\<lambda>k. (key k, ser (the (m k)))) ?ks) =
      Inr (map (\<lambda>k. (k, the (m k))) ?ks)"
    unfolding collect_res_map
  proof (rule collect_res_all_Inr)
    fix k assume "k \<in> set ?ks"
    with assms(1) obtain v where v: "m k = Some v" by auto
    then have "dv (ser v) = Inr v" by (intro assms(3) ranI)
    with v assms(2) show "(de_entry dk dv \<circ> (\<lambda>k. (key k, ser (the (m k))))) k = Inr (k, the (m k))"
      by (simp add: de_entry_def)
  qed
  moreover have "map_of (rev (map (\<lambda>k. (k, the (m k))) ?ks)) = m"
    unfolding rev_map by (rule map_of_map_keys) (use assms(1) in simp)
  ultimately show ?thesis by (simp add: ser_map_def)
qed

lemma de_string_set_ser [codec_simps]:
  assumes "finite A"
  shows "de_string_set (ser_string_set A) = Inr A"
proof -
  have "collect_res de_string (map JStr (sorted_list_of_set A)) = Inr (map id (sorted_list_of_set A))"
    unfolding collect_res_map by (rule collect_res_all_Inr) simp
  with assms show ?thesis by (simp add: de_string_set_def ser_string_set_def)
qed

lemma de_map_finite: "de_map dk dv j = Inr m \<Longrightarrow> finite (dom m)"
  by (cases j) (auto simp: finite_dom_map_of)

lemma de_string_set_finite: "de_string_set j = Inr A \<Longrightarrow> finite A"
  by (auto simp: de_string_set_def)

end
