(* ===== verification/Sample_Json_Text.thy ===== *)
theory Sample_Json_Text
  imports Serde_Json
begin

text \<open>
  A text layer that satisfies \<open>json_text_laws\<close>: a prefix code with unary numbers, so that the
  statements about files have a witness. It is not serde_json's syntax.
\<close>

section \<open>Numbers and strings\<close>

definition enc_nat :: "nat \<Rightarrow> string" where
  "enc_nat n = replicate n (CHR ''I'') @ ''.''"

definition dec_nat :: "string \<Rightarrow> nat \<times> string" where
  "dec_nat s = (length (takeWhile (\<lambda>c. c = CHR ''I'') s), drop 1 (dropWhile (\<lambda>c. c = CHR ''I'') s))"

lemma takeWhile_replicate_dot: "takeWhile (\<lambda>c. c = x) (replicate n x @ y # r) = replicate n x @ takeWhile (\<lambda>c. c = x) (y # r)"
  by (induction n) simp_all

lemma dropWhile_replicate_dot: "dropWhile (\<lambda>c. c = x) (replicate n x @ y # r) = dropWhile (\<lambda>c. c = x) (y # r)"
  by (induction n) simp_all

lemma dec_enc_nat [codec_simps]: "dec_nat (enc_nat n @ r) = (n, r)"
  by (simp add: dec_nat_def enc_nat_def takeWhile_replicate_dot dropWhile_replicate_dot)

definition enc_str :: "string \<Rightarrow> string" where
  "enc_str s = enc_nat (length s) @ s"

definition dec_str :: "string \<Rightarrow> string \<times> string" where
  "dec_str s = (case dec_nat s of (n, r) \<Rightarrow> (take n r, drop n r))"

lemma dec_enc_str [codec_simps]: "dec_str (enc_str s @ r) = (s, r)"
  by (simp add: dec_str_def enc_str_def codec_simps)

section \<open>Values\<close>

fun enc_num :: "json_number \<Rightarrow> string" where
  "enc_num (PosInt w) = ''p'' @ enc_nat (unat w)"
| "enc_num (NegInt i) = (if 0 \<le> i then ''q'' else ''m'') @ enc_nat (nat \<bar>i\<bar>)"
| "enc_num (Float s) = ''f'' @ enc_str s"

fun enc :: "json \<Rightarrow> string" and enc_list :: "json list \<Rightarrow> string" and enc_obj :: "(string \<times> json) list \<Rightarrow> string" where
  "enc JNull = ''n''"
| "enc (JBool b) = (if b then ''t'' else ''u'')"
| "enc (JNum n) = enc_num n"
| "enc (JStr s) = ''s'' @ enc_str s"
| "enc (JArr js) = ''a'' @ enc_list js"
| "enc (JObj es) = ''o'' @ enc_obj es"
| "enc_list [] = ''.''"
| "enc_list (j # js) = '','' @ enc j @ enc_list js"
| "enc_obj [] = ''.''"
| "enc_obj (e # es) = '','' @ enc_str (fst e) @ enc (snd e) @ enc_obj es"

fun dec_leaf :: "char \<Rightarrow> string \<Rightarrow> (json \<times> string) option" where
  "dec_leaf c s =
     (if c = CHR ''n'' then Some (JNull, s)
      else if c = CHR ''t'' then Some (JBool True, s)
      else if c = CHR ''u'' then Some (JBool False, s)
      else if c = CHR ''p'' then (case dec_nat s of (n, r) \<Rightarrow> Some (JNum (PosInt (of_nat n)), r))
      else if c = CHR ''q'' then (case dec_nat s of (n, r) \<Rightarrow> Some (JNum (NegInt (int n)), r))
      else if c = CHR ''m'' then (case dec_nat s of (n, r) \<Rightarrow> Some (JNum (NegInt (- int n)), r))
      else if c = CHR ''f'' then (case dec_str s of (x, r) \<Rightarrow> Some (JNum (Float x), r))
      else if c = CHR ''s'' then (case dec_str s of (x, r) \<Rightarrow> Some (JStr x, r))
      else None)"

text \<open>The fuel bounds the nesting; the length of the text is enough.\<close>

fun dec :: "nat \<Rightarrow> string \<Rightarrow> (json \<times> string) option"
and dec_list :: "nat \<Rightarrow> string \<Rightarrow> (json list \<times> string) option"
and dec_obj :: "nat \<Rightarrow> string \<Rightarrow> ((string \<times> json) list \<times> string) option" where
  "dec (Suc f) (c # s) =
     (if c = CHR ''a'' then map_option (map_prod JArr id) (dec_list f s)
      else if c = CHR ''o'' then map_option (map_prod JObj id) (dec_obj f s)
      else dec_leaf c s)"
| "dec _ _ = None"
| "dec_list (Suc f) (c # s) =
     (if c = CHR ''.'' then Some ([], s)
      else case dec f s of
        None \<Rightarrow> None
      | Some (j, r) \<Rightarrow> map_option (map_prod ((#) j) id) (dec_list f r))"
| "dec_list _ _ = None"
| "dec_obj (Suc f) (c # s) =
     (if c = CHR ''.'' then Some ([], s)
      else case dec_str s of
        (k, r) \<Rightarrow> (case dec f r of
                     None \<Rightarrow> None
                   | Some (j, r') \<Rightarrow> map_option (map_prod ((#) (k, j)) id) (dec_obj f r')))"
| "dec_obj _ _ = None"

lemma dec_enc_num:
  assumes "enc_num n = c # s"
  shows "c \<noteq> CHR ''a'' \<and> c \<noteq> CHR ''o'' \<and> dec_leaf c (s @ r) = Some (JNum n, r)"
  using assms by (cases n) (auto simp: codec_simps split: if_splits)

lemma enc_num_Cons: "\<exists>c s. enc_num n = c # s"
  by (cases n) simp_all

lemma dec_enc:
  "length (enc j) \<le> f \<Longrightarrow> dec f (enc j @ r) = Some (j, r)"
  "length (enc_list js) \<le> f \<Longrightarrow> dec_list f (enc_list js @ r) = Some (js, r)"
  "length (enc_obj es) \<le> f \<Longrightarrow> dec_obj f (enc_obj es @ r) = Some (es, r)"
proof (induction j and js and es arbitrary: f r and f r and f r rule: enc_enc_list_enc_obj.induct)
  case 1
  then show ?case by (cases f) simp_all
next
  case (2 b)
  then show ?case by (cases f; cases b) simp_all
next
  case (3 n)
  obtain c s where n: "enc_num n = c # s" using enc_num_Cons by blast
  with 3 obtain f' where "f = Suc f'" by (cases f) simp_all
  with n dec_enc_num [OF n] show ?case by simp
next
  case (4 s)
  then show ?case by (cases f) (simp_all add: codec_simps)
next
  case (5 js)
  from 5(2) obtain f' where f: "f = Suc f'" by (cases f) simp_all
  with 5(2) have "dec_list f' (enc_list js @ r) = Some (js, r)" by (intro 5(1)) simp
  with f show ?case by simp
next
  case (6 es)
  from 6(2) obtain f' where f: "f = Suc f'" by (cases f) simp_all
  with 6(2) have "dec_obj f' (enc_obj es @ r) = Some (es, r)" by (intro 6(1)) simp
  with f show ?case by simp
next
  case 7
  then show ?case by (cases f) simp_all
next
  case (8 j js)
  from 8(3) obtain f' where f: "f = Suc f'" by (cases f) simp_all
  from 8(3) f have "dec f' (enc j @ enc_list js @ r) = Some (j, enc_list js @ r)" by (intro 8(1)) simp
  moreover from 8(3) f have "dec_list f' (enc_list js @ r) = Some (js, r)" by (intro 8(2)) simp
  ultimately show ?case using f by simp
next
  case 9
  then show ?case by (cases f) simp_all
next
  case (10 e es)
  from 10(3) obtain f' where f: "f = Suc f'" by (cases f) simp_all
  from 10(3) f have "dec f' (enc (snd e) @ enc_obj es @ r) = Some (snd e, enc_obj es @ r)" by (intro 10(1)) simp
  moreover from 10(3) f have "dec_obj f' (enc_obj es @ r) = Some (es, r)" by (intro 10(2)) simp
  ultimately show ?case using f by (simp add: codec_simps)
qed

section \<open>The layer\<close>

definition sample_parse :: "string \<Rightarrow> string + json" where
  "sample_parse s = (case dec (length s) s of Some (j, []) \<Rightarrow> Inr j | _ \<Rightarrow> Inl ''expected value'')"

definition sample_text :: json_text where
  "sample_text = \<lparr>jt_print = enc, jt_print_pretty = enc, jt_parse = sample_parse,
                  jt_error = (\<lambda>s e. case e of Missing_field k \<Rightarrow> ''missing field `'' @ k @ ''`'' | _ \<Rightarrow> ''invalid'')\<rparr>"

lemma sample_parse_enc: "jt_parse sample_text (enc j) = Inr j"
  using dec_enc(1) [where r = "[]"] by (simp add: sample_text_def sample_parse_def)

lemma sample_text_laws: "json_text_laws sample_text"
  using sample_parse_enc by (simp add: json_text_laws_def sample_text_def)

end
