(* ===== verification/State_Json.thy ===== *)
theory State_Json
  imports Sweep_Persistence Sample_Json_Text
begin

text \<open>
  The JSON of the state file: the derived \<open>Serialize\<close> and \<open>Deserialize\<close> of
  \<open>PersistedState\<close> and of everything in it (\<open>src/src/types.rs\<close>). The codecs of
  \<open>Decimal\<close> and \<open>DateTime<Utc>\<close> belong to their crates and are parameters, as is the text
  layer. The round trip that the store relies on, \<open>json_roundtrip\<close>, follows from the laws of
  these parameters.
\<close>

section \<open>Values of other crates\<close>

record 'd value_codec =
  vc_ser_decimal :: "'d \<Rightarrow> json"
  vc_de_decimal :: "'d de"
  vc_ser_datetime :: "datetime \<Rightarrow> json"
  vc_de_datetime :: "datetime de"

definition value_codec_laws :: "'d value_codec \<Rightarrow> bool" where
  "value_codec_laws C \<longleftrightarrow>
     (\<forall>d. vc_de_decimal C (vc_ser_decimal C d) = Inr d) \<and>
     (\<forall>t. vc_de_datetime C (vc_ser_datetime C t) = Inr t)"

lemma value_codec_lawsD [codec_simps]:
  assumes "value_codec_laws C"
  shows "vc_de_decimal C (vc_ser_decimal C d) = Inr d" "vc_de_datetime C (vc_ser_datetime C t) = Inr t"
  using assms by (simp_all add: value_codec_laws_def)

section \<open>Chains\<close>

text \<open>
  \<open>#[serde(rename_all = "lowercase")]\<close> gives the variants the names that \<open>Display\<close> prints. A
  unit variant reads from its name or from \<open>{"name": null}\<close>; as a map key it is its name.
\<close>

definition chain_of_name :: "string \<Rightarrow> de_error + chain" where
  "chain_of_name s =
     (case List.find (\<lambda>c. chain_to_string c = s) chain_iter of
        None \<Rightarrow> Inl (Unknown_variant s)
      | Some c \<Rightarrow> Inr c)"

definition ser_chain :: "chain \<Rightarrow> json" where
  "ser_chain c = JStr (chain_to_string c)"

fun de_chain :: "chain de" where
  "de_chain (JStr s) = chain_of_name s"
| "de_chain (JObj [(k, v)]) =
     bind_result (chain_of_name k) (\<lambda>c. if v = JNull then Inr c else Inl Invalid_type)"
| "de_chain _ = Inl Invalid_type"

lemma chain_of_name_to_string [codec_simps]: "chain_of_name (chain_to_string c) = Inr c"
  by (cases c) (simp_all add: chain_of_name_def chain_iter_def)

lemma de_ser_chain [codec_simps]: "de_chain (ser_chain c) = Inr c"
  by (simp add: ser_chain_def codec_simps)

section \<open>Outcomes\<close>

text \<open>Externally tagged: an object whose only key is the variant.\<close>

fun ser_outcome :: "'d value_codec \<Rightarrow> 'd bank_payment_outcome \<Rightarrow> json" where
  "ser_outcome C (Initiated order proceeds transfer stamp) = JObj [(''Initiated'', JObj
     [(''sell_order_id'', JStr order), (''usd_proceeds'', vc_ser_decimal C proceeds),
      (''withdrawal_transfer_id'', JStr transfer), (''initiated_at'', vc_ser_datetime C stamp)])]"
| "ser_outcome C (Failed err stamp) = JObj [(''Failed'', JObj
     [(''error'', JStr err), (''failed_at'', vc_ser_datetime C stamp)])]"

definition de_initiated :: "'d value_codec \<Rightarrow> 'd bank_payment_outcome de" where
  "de_initiated C j =
     bind_result (de_struct [(''sell_order_id'', Required, de_fails de_string),
        (''usd_proceeds'', Required, de_fails (vc_de_decimal C)),
        (''withdrawal_transfer_id'', Required, de_fails de_string),
        (''initiated_at'', Required, de_fails (vc_de_datetime C))] j) (\<lambda>es.
     bind_result (required_field es ''sell_order_id'' de_string) (\<lambda>order.
     bind_result (required_field es ''usd_proceeds'' (vc_de_decimal C)) (\<lambda>proceeds.
     bind_result (required_field es ''withdrawal_transfer_id'' de_string) (\<lambda>transfer.
     bind_result (required_field es ''initiated_at'' (vc_de_datetime C)) (\<lambda>stamp.
     Inr (Initiated order proceeds transfer stamp))))))"

definition de_failed :: "'d value_codec \<Rightarrow> 'd bank_payment_outcome de" where
  "de_failed C j =
     bind_result (de_struct [(''error'', Required, de_fails de_string),
        (''failed_at'', Required, de_fails (vc_de_datetime C))] j) (\<lambda>es.
     bind_result (required_field es ''error'' de_string) (\<lambda>err.
     bind_result (required_field es ''failed_at'' (vc_de_datetime C)) (\<lambda>stamp.
     Inr (Failed err stamp))))"

fun de_outcome :: "'d value_codec \<Rightarrow> 'd bank_payment_outcome de" where
  "de_outcome C (JObj [(k, v)]) =
     (if k = ''Initiated'' then de_initiated C v
      else if k = ''Failed'' then de_failed C v
      else Inl (Unknown_variant k))"
| "de_outcome C (JStr s) =
     (if s = ''Initiated'' \<or> s = ''Failed'' then Inl Invalid_type else Inl (Unknown_variant s))"
| "de_outcome C _ = Inl Invalid_type"

lemma de_ser_outcome [codec_simps]:
  "value_codec_laws C \<Longrightarrow> de_outcome C (ser_outcome C x) = Inr x"
  by (cases x) (simp_all add: de_initiated_def de_failed_def struct_simps codec_simps)

section \<open>Payments\<close>

definition ser_bank_payment :: "'d value_codec \<Rightarrow> 'd bank_payment \<Rightarrow> json" where
  "ser_bank_payment C p = JObj
     [(''id'', JStr (bp_id p)),
      (''deposit_address'', JStr (bp_deposit_address p)),
      (''chain'', ser_chain (bp_chain p)),
      (''deposit_tx_hash'', JStr (bp_deposit_tx_hash p)),
      (''usdc_amount'', vc_ser_decimal C (bp_usdc_amount p)),
      (''payment_method_id'', JStr (bp_payment_method_id p)),
      (''outcome'', ser_outcome C (bp_outcome p)),
      (''deposit_timestamp'', vc_ser_datetime C (bp_deposit_timestamp p)),
      (''processed_at'', vc_ser_datetime C (bp_processed_at p))]"

definition bank_payment_fields :: "'d value_codec \<Rightarrow> field_spec list" where
  "bank_payment_fields C =
     [(''id'', Required, de_fails de_string),
      (''deposit_address'', Required, de_fails de_string),
      (''chain'', Required, de_fails de_chain),
      (''deposit_tx_hash'', Required, de_fails de_string),
      (''usdc_amount'', Required, de_fails (vc_de_decimal C)),
      (''payment_method_id'', Required, de_fails de_string),
      (''outcome'', Required, de_fails (de_outcome C)),
      (''deposit_timestamp'', Required, de_fails (vc_de_datetime C)),
      (''processed_at'', Required, de_fails (vc_de_datetime C))]"

definition de_bank_payment :: "'d value_codec \<Rightarrow> 'd bank_payment de" where
  "de_bank_payment C j =
     bind_result (de_struct (bank_payment_fields C) j) (\<lambda>es.
     bind_result (required_field es ''id'' de_string) (\<lambda>ident.
     bind_result (required_field es ''deposit_address'' de_string) (\<lambda>address.
     bind_result (required_field es ''chain'' de_chain) (\<lambda>c.
     bind_result (required_field es ''deposit_tx_hash'' de_string) (\<lambda>hash.
     bind_result (required_field es ''usdc_amount'' (vc_de_decimal C)) (\<lambda>amount.
     bind_result (required_field es ''payment_method_id'' de_string) (\<lambda>method.
     bind_result (required_field es ''outcome'' (de_outcome C)) (\<lambda>outcome.
     bind_result (required_field es ''deposit_timestamp'' (vc_de_datetime C)) (\<lambda>seen.
     bind_result (required_field es ''processed_at'' (vc_de_datetime C)) (\<lambda>processed.
     Inr \<lparr>bp_id = ident, bp_deposit_address = address, bp_chain = c, bp_deposit_tx_hash = hash,
          bp_usdc_amount = amount, bp_payment_method_id = method, bp_outcome = outcome,
          bp_deposit_timestamp = seen, bp_processed_at = processed\<rparr>))))))))))"

lemma de_ser_bank_payment [codec_simps]:
  "value_codec_laws C \<Longrightarrow> de_bank_payment C (ser_bank_payment C p) = Inr p"
  by (simp add: de_bank_payment_def ser_bank_payment_def bank_payment_fields_def struct_simps codec_simps)

section \<open>The state\<close>

definition ser_last_seen_block :: "'d value_codec \<Rightarrow> last_seen_block \<Rightarrow> json" where
  "ser_last_seen_block C b = JObj
     [(''block_number'', ser_u64 (lsb_block_number b)), (''updated_at'', vc_ser_datetime C (lsb_updated_at b))]"

definition de_last_seen_block :: "'d value_codec \<Rightarrow> last_seen_block de" where
  "de_last_seen_block C j =
     bind_result (de_struct [(''block_number'', Required, de_fails de_u64),
        (''updated_at'', Required, de_fails (vc_de_datetime C))] j) (\<lambda>es.
     bind_result (required_field es ''block_number'' de_u64) (\<lambda>n.
     bind_result (required_field es ''updated_at'' (vc_de_datetime C)) (\<lambda>t.
     Inr \<lparr>lsb_block_number = n, lsb_updated_at = t\<rparr>)))"

lemma de_ser_last_seen_block [codec_simps]:
  "value_codec_laws C \<Longrightarrow> de_last_seen_block C (ser_last_seen_block C b) = Inr b"
  by (simp add: de_last_seen_block_def ser_last_seen_block_def struct_simps codec_simps)

definition ser_persisted_state :: "'d value_codec \<Rightarrow> 'd persisted_state \<Rightarrow> json" where
  "ser_persisted_state C st = JObj
     [(''bank_payments'', ser_map id (ser_bank_payment C) (st_bank_payments st)),
      (''processed_tx_hashes'', ser_string_set (st_processed_tx_hashes st)),
      (''last_seen_block'', ser_map chain_to_string (ser_last_seen_block C) (st_last_seen_block st))]"

abbreviation de_payments :: "'d value_codec \<Rightarrow> (string \<rightharpoonup> 'd bank_payment) de" where
  "de_payments C \<equiv> de_map Inr (de_bank_payment C)"

abbreviation de_frontiers :: "'d value_codec \<Rightarrow> (chain \<rightharpoonup> last_seen_block) de" where
  "de_frontiers C \<equiv> de_map chain_of_name (de_last_seen_block C)"

definition persisted_state_fields :: "'d value_codec \<Rightarrow> field_spec list" where
  "persisted_state_fields C =
     [(''bank_payments'', Required, de_fails (de_payments C)),
      (''processed_tx_hashes'', Required, de_fails de_string_set),
      (''last_seen_block'', Required, de_fails (de_frontiers C))]"

definition de_persisted_state :: "'d value_codec \<Rightarrow> 'd persisted_state de" where
  "de_persisted_state C j =
     bind_result (de_struct (persisted_state_fields C) j) (\<lambda>es.
     bind_result (required_field es ''bank_payments'' (de_payments C)) (\<lambda>payments.
     bind_result (required_field es ''processed_tx_hashes'' de_string_set) (\<lambda>hashes.
     bind_result (required_field es ''last_seen_block'' (de_frontiers C)) (\<lambda>blocks.
     Inr \<lparr>st_bank_payments = payments, st_processed_tx_hashes = hashes, st_last_seen_block = blocks\<rparr>))))"

text \<open>Rust's collections are finite; HOL's maps and sets need not be.\<close>

definition finite_state :: "'d persisted_state \<Rightarrow> bool" where
  "finite_state st \<longleftrightarrow> finite (dom (st_bank_payments st)) \<and> finite (st_processed_tx_hashes st)"

instance chain :: finite
proof
  have "(UNIV :: chain set) = set chain_iter" by simp
  then show "finite (UNIV :: chain set)" by (metis List.finite_set)
qed

lemma de_ser_persisted_state [codec_simps]:
  assumes "value_codec_laws C" and "finite_state st"
  shows "de_persisted_state C (ser_persisted_state C st) = Inr st"
proof -
  have "de_payments C (ser_map id (ser_bank_payment C) (st_bank_payments st)) = Inr (st_bank_payments st)"
    by (rule de_map_ser_map) (use assms in \<open>simp_all add: finite_state_def codec_simps\<close>)
  moreover have "de_frontiers C (ser_map chain_to_string (ser_last_seen_block C) (st_last_seen_block st)) =
      Inr (st_last_seen_block st)"
    by (rule de_map_ser_map) (simp_all add: codec_simps assms)
  moreover have "de_string_set (ser_string_set (st_processed_tx_hashes st)) = Inr (st_processed_tx_hashes st)"
    using assms(2) by (intro codec_simps) (simp add: finite_state_def)
  ultimately show ?thesis
    by (simp add: de_persisted_state_def ser_persisted_state_def persisted_state_fields_def struct_simps)
qed

lemma de_persisted_state_finite:
  assumes "de_persisted_state C j = Inr st"
  shows "finite_state st"
proof -
  from assms obtain v w where "de_payments C v = Inr (st_bank_payments st)"
    and "de_string_set w = Inr (st_processed_tx_hashes st)"
    by (auto simp: de_persisted_state_def struct_simps split: option.splits)
  then show ?thesis unfolding finite_state_def by (metis de_map_finite de_string_set_finite)
qed

section \<open>The codec of the store\<close>

text \<open>A state that no \<open>BTreeMap\<close> can hold has no text.\<close>

definition serde_state_json :: "json_text \<Rightarrow> 'd value_codec \<Rightarrow> 'd state_json" where
  "serde_state_json T C =
     \<lparr>js_from_str = from_str T (de_persisted_state C),
      js_to_string_pretty = (\<lambda>st. if finite_state st then Inr (jt_print_pretty T (ser_persisted_state C st))
                                else Inl ''infinite map'')\<rparr>"

lemma serde_json_roundtrip:
  assumes "json_text_laws T" and "value_codec_laws C"
  shows "json_roundtrip (serde_state_json T C)"
  using assms by (auto simp: json_roundtrip_def serde_state_json_def from_str_Inr json_text_laws_def codec_simps
      split: if_splits)

section \<open>Properties of the state file\<close>

lemma save_state_clean:
  assumes "js_to_string_pretty J st = Inr json"
  obtains cuts where "save_state J p st no_faults dsk = (Inr (), cuts)" and "last cuts p = Some json"
proof
  show "save_state J p st no_faults dsk = (Inr (), (dsk # write_cuts (with_extension p ''json.tmp'') json (length json) dsk) @
      [rename_file (with_extension p ''json.tmp'') p (dsk(with_extension p ''json.tmp'' \<mapsto> json))])"
    using assms by (simp add: save_state_def no_faults_def Let_def split: option.split)
qed (simp add: rename_file_def)

text \<open>A codec of the sample decimals: numerator and denominator.\<close>

definition sample_codec :: "rat value_codec" where
  "sample_codec =
     \<lparr>vc_ser_decimal = (\<lambda>d. case quotient_of d of (n, m) \<Rightarrow> JArr [JNum (NegInt n), JNum (NegInt m)]),
      vc_de_decimal = (\<lambda>j. case j of JArr [JNum (NegInt n), JNum (NegInt m)] \<Rightarrow> Inr (of_int n / of_int m)
                                 | _ \<Rightarrow> Inl (Custom ''invalid decimal'')),
      vc_ser_datetime = (\<lambda>t. JNum (NegInt t)),
      vc_de_datetime = (\<lambda>j. case j of JNum (NegInt t) \<Rightarrow> Inr t | _ \<Rightarrow> Inl (Custom ''invalid date''))\<rparr>"

lemma sample_codec_laws: "value_codec_laws sample_codec"
proof -
  have "vc_de_decimal sample_codec (vc_ser_decimal sample_codec d) = Inr d" for d
    using quotient_of_div [of d] by (cases "quotient_of d") (simp add: sample_codec_def)
  then show ?thesis by (simp add: value_codec_laws_def sample_codec_def)
qed

lemma finite_sample_state: "finite_state sample_state"
  by (simp add: finite_state_def sample_state_def)

text \<open>
  C6. Saving a state and loading the file gives the state back: the derived serialiser and
  deserialiser of the persisted state, of its payments, outcomes, chains and frontiers fit
  together field by field, whatever the text layer and the codecs of the two foreign types, as
  long as these undo themselves; and what is on disk is the text of that serialisation.
\<close>

theorem state_file_roundtrip:
  assumes "json_text_laws T" and "value_codec_laws C" and "finite_state st"
  shows "json_roundtrip (serde_state_json T C) \<and>
    (\<exists>cuts. save_state (serde_state_json T C) p st no_faults dsk = (Inr (), cuts) \<and>
       last cuts p = Some (jt_print_pretty T (ser_persisted_state C st)) \<and>
       load_state (serde_state_json T C) None p (last cuts) = Inr st)"
proof
  show rt: "json_roundtrip (serde_state_json T C)" using assms(1,2) by (rule serde_json_roundtrip)
  have "js_to_string_pretty (serde_state_json T C) st = Inr (jt_print_pretty T (ser_persisted_state C st))"
    using assms(3) by (simp add: serde_state_json_def)
  then obtain cuts where save: "save_state (serde_state_json T C) p st no_faults dsk = (Inr (), cuts)"
    and "last cuts p = Some (jt_print_pretty T (ser_persisted_state C st))"
    by (rule save_state_clean)
  with save_state_saved [OF rt save] show "\<exists>cuts. save_state (serde_state_json T C) p st no_faults dsk = (Inr (), cuts) \<and>
       last cuts p = Some (jt_print_pretty T (ser_persisted_state C st)) \<and>
       load_state (serde_state_json T C) None p (last cuts) = Inr st"
    by blast
qed

theorem state_file_roundtrip_witness:
  "\<exists>cuts. save_state (serde_state_json sample_text sample_codec) sample_path sample_state no_faults Map.empty = (Inr (), cuts) \<and>
     load_state (serde_state_json sample_text sample_codec) None sample_path (last cuts) = Inr sample_state"
  using state_file_roundtrip [OF sample_text_laws sample_codec_laws finite_sample_state] by blast

text \<open>
  C27. A state file is read by name: one that lacks any of the three collections is an error, so
  the run stops before it touches the exchange, and a key the program does not know is ignored
  wherever it stands, so a newer file still loads with the same meaning.
\<close>

theorem state_file_fields:
  assumes "dsk p = Some s" and "jt_parse T s = Inr (JObj (es @ (k, v) # es'))"
    and "dsk' p = Some s'" and "jt_parse T s' = Inr (JObj (es @ es'))"
  shows "if k \<in> {''bank_payments'', ''processed_tx_hashes'', ''last_seen_block''}
    then k \<notin> fst ` set (es @ es') \<longrightarrow> (\<exists>e. load_state (serde_state_json T C) None p dsk' = Inl (Json e))
    else (\<forall>st. load_state (serde_state_json T C) None p dsk = Inr st \<longleftrightarrow>
            load_state (serde_state_json T C) None p dsk' = Inr st)"
proof (cases "k \<in> {''bank_payments'', ''processed_tx_hashes'', ''last_seen_block''}")
  case True
  have "\<exists>e. de_persisted_state C (JObj (es @ es')) = Inl e" if missing: "k \<notin> fst ` set (es @ es')"
  proof -
    from True obtain d where "(k, Required, d) \<in> set (persisted_state_fields C)"
      by (auto simp: persisted_state_fields_def)
    then obtain e where "de_struct (persisted_state_fields C) (JObj (es @ es')) = Inl e"
      using de_struct_missing [OF _ missing] by blast
    then show ?thesis by (simp add: de_persisted_state_def del: de_struct.simps)
  qed
  with True assms(3,4) show ?thesis
    by (auto simp: load_state_def read_to_string_def serde_state_json_def from_str_def)
next
  case False
  then have k: "k \<noteq> ''bank_payments''" "k \<noteq> ''processed_tx_hashes''" "k \<noteq> ''last_seen_block''" by blast+
  then have "k \<notin> fst ` set (persisted_state_fields C)" by (auto simp: persisted_state_fields_def)
  note unknown = de_struct_unknown [OF this, of es v es']
  have "de_persisted_state C (JObj (es @ (k, v) # es')) = de_persisted_state C (JObj (es @ es'))"
  proof (cases "de_struct (persisted_state_fields C) (JObj (es @ es'))")
    case (Inr b)
    moreover from Inr have "b = es @ es'" by (rule de_struct_JObj)
    moreover have "de_struct (persisted_state_fields C) (JObj (es @ (k, v) # es')) = Inr (es @ (k, v) # es')"
      unfolding unknown Inr by simp
    ultimately show ?thesis
      unfolding de_persisted_state_def required_field_def using k
      by (simp add: map_of_unknown del: de_struct.simps map_of_append map_of.simps)
  qed (simp add: de_persisted_state_def unknown del: de_struct.simps)
  with False assms show ?thesis
    by (auto simp: load_state_def read_to_string_def serde_state_json_def from_str_def split: sum.splits)
qed

text \<open>A file from before the frontiers were kept.\<close>

theorem state_file_fields_witness:
  "\<exists>e. load_state (serde_state_json sample_text sample_codec) None sample_path
     [sample_path \<mapsto> enc (JObj [(''bank_payments'', JObj []), (''processed_tx_hashes'', JArr [])])] = Inl (Json e)"
proof -
  let ?es = "[(''bank_payments'', JObj []), (''processed_tx_hashes'', JArr [])]"
  show ?thesis
    using state_file_fields [where es = ?es and es' = "[]" and k = "''last_seen_block''" and v = "JObj []"
        and dsk = "[sample_path \<mapsto> enc (JObj (?es @ [(''last_seen_block'', JObj [])]))]"
        and dsk' = "[sample_path \<mapsto> enc (JObj ?es)]" and p = sample_path and T = sample_text and C = sample_codec,
        OF _ sample_parse_enc _ _]
      sample_parse_enc [of "JObj ?es"] by simp
qed

end
