(* ===== verification/State_Invariant.thy ===== *)
theory State_Invariant
  imports Cron_History State_Json
begin

text \<open>
  What every state file the program writes satisfies, over any history of runs that end, fail or
  are killed: it loads, its collections are those a \<open>BTreeMap\<close> can hold, and each audit
  record is filed under its own id, names a configured address with its payment method, carries
  an amount above the dust threshold, and is an initiated withdrawal only within the automatic
  limit.
\<close>

section \<open>Well-formed states\<close>

definition audit_ok ::
  "'d decimal_lib \<Rightarrow> (datetime \<Rightarrow> string) \<Rightarrow> 'd crypto_sweep_config \<Rightarrow> 'd bank_payment \<Rightarrow> bool" where
  "audit_ok D ymd config p \<longleftrightarrow>
     make_id ymd (bp_processed_at p) (bp_deposit_tx_hash p) = Some (bp_id p) \<and>
     \<not> dec_lt D (bp_usdc_amount p) (USDC_DUST_THRESHOLD D) \<and>
     (\<exists>dc\<in>set (cfg_deposit_addresses config).
        bp_deposit_address p = dac_address dc \<and> bp_payment_method_id p = dac_payment_method_id dc) \<and>
     (case bp_outcome p of
        Initiated _ _ _ _ \<Rightarrow> \<not> dec_lt D (cfg_max_auto_amount config) (bp_usdc_amount p)
      | Failed _ stamp \<Rightarrow> stamp = bp_processed_at p)"

definition well_formed_state ::
  "'d decimal_lib \<Rightarrow> (datetime \<Rightarrow> string) \<Rightarrow> 'd crypto_sweep_config \<Rightarrow> 'd persisted_state \<Rightarrow> bool" where
  "well_formed_state D ymd config st \<longleftrightarrow>
     finite_state st \<and>
     (\<forall>i p. st_bank_payments st i = Some p \<longrightarrow> bp_id p = i \<and> audit_ok D ymd config p)"

lemma well_formed_default: "well_formed_state D ymd config default_state"
  by (simp add: well_formed_state_def finite_state_def default_state_def)

section \<open>Preservation\<close>

lemma well_formed_prune:
  assumes "well_formed_state D ymd config st"
  shows "well_formed_state D ymd config (prune_stale_entries now st)"
proof -
  have "dom (st_bank_payments (prune_stale_entries now st)) \<subseteq> dom (st_bank_payments st)"
    by (auto simp: prune_stale_entries_def Let_def split: option.splits if_splits)
  with assms show ?thesis
    by (auto simp: well_formed_state_def finite_state_def prune_stale_entries_def Let_def
        intro: finite_subset split: option.splits if_splits)
qed

lemma liquidation_audit_ok:
  assumes "liquidate_one D ymd (worker_of config) jw d = (Some lr, acts)"
    and "\<not> dec_lt D (ed_usdc_amount d) (USDC_DUST_THRESHOLD D)" and "dc \<in> set (cfg_deposit_addresses config)"
    and "ed_deposit_address d = dac_address dc" and "ed_payment_method_id d = dac_payment_method_id dc"
  shows "audit_ok D ymd config (lr_payment lr)"
  using assms
  by (auto simp: audit_ok_def liquidate_one_def liquidation_record_Some liquidate_pipeline_def worker_of_def
      split: prod.splits sum.splits if_splits)

lemma discover_audit:
  assumes "discover D dk pw chain_iter = Some (rs, dss)" and "d \<in> set (concat dss)"
  shows "\<not> dec_lt D (ed_usdc_amount d) (USDC_DUST_THRESHOLD D) \<and>
    (\<exists>dc\<in>set (cfg_deposit_addresses (dk_config dk)).
       ed_deposit_address d = dac_address dc \<and> ed_payment_method_id d = dac_payment_method_id dc)"
proof -
  from assms(2) obtain ds where ds: "ds \<in> set dss" "d \<in> set ds" by auto
  obtain c ex res dcs where "ds \<in> set dcs"
    and run: "chain_run D (chain_check_of dk c ex) (sending (pw_scan pw c)) = Some (res, dcs)"
    by (rule discover_deposit [OF assms(1) ds(1)])
  from chain_run_sound_receive [OF run this(1) ds(2)] show ?thesis
    by (auto simp: USDC_DUST_THRESHOLD_def)
qed

lemma well_formed_pass:
  assumes run: "deposit_check_run D ymd dk pw st errors calls"
    and wf: "well_formed_state D ymd (dk_config dk) (dk_state dk)"
  shows "well_formed_state D ymd (dk_config dk) st"
  using run
proof (rule pass_final)
  fix rs dss s
  assume disc: "discover D dk pw chain_iter = Some (rs, dss)"
    and reach: "pipe_reaches (pass_env D ymd dk pw) (pipe_init (tag_senders 0 dss)) s" and fin: "pipe_done s"
  let ?new = "(bp_id \<circ> lr_payment) ` set (map snd (pp_results s))"
  assume hashes: "st_processed_tx_hashes st = st_processed_tx_hashes (dk_state dk) \<union> ed_tx_hash ` set (concat dss)"
    and other: "\<And>i. i \<notin> ?new \<Longrightarrow> st_bank_payments st i = st_bank_payments (dk_state dk) i"
    and some: "\<And>i. i \<in> ?new \<Longrightarrow>
       \<exists>l\<in>set (map snd (pp_results s)). bp_id (lr_payment l) = i \<and> st_bank_payments st i = Some (lr_payment l)"
  have "dom (st_bank_payments st) \<subseteq> dom (st_bank_payments (dk_state dk)) \<union> ?new"
    using other by fastforce
  then have "finite (dom (st_bank_payments st))"
    by (rule finite_subset) (use wf in \<open>simp add: well_formed_state_def finite_state_def\<close>)
  with hashes wf have finite: "finite_state st" by (simp add: well_formed_state_def finite_state_def)
  have "bp_id p = i \<and> audit_ok D ymd (dk_config dk) p" if p: "st_bank_payments st i = Some p" for i p
  proof (cases "i \<in> ?new")
    case False
    with other p wf show ?thesis by (simp add: well_formed_state_def)
  next
    case True
    from some [OF True] p obtain n d lr where lr: "((n, d), lr) \<in> set (pp_results s)" "bp_id (lr_payment lr) = i"
      "p = lr_payment lr" by auto
    have "d \<in> set (concat dss)" using pass_result_from [OF reach fin lr(1)] by (metis nth_mem)
    with discover_audit [OF disc] lr(2,3) liquidation_audit_ok [OF pass_results(2) [OF reach fin lr(1)]]
    show ?thesis by blast
  qed
  with finite show ?thesis by (simp add: well_formed_state_def)
qed

lemma well_formed_run:
  assumes "json_roundtrip (se_json E)" and "reads_ok rw" and "cron_run E config rw dsk dsk' calls"
    and "stored E config dsk = Inr st" and "well_formed_state (se_dec E) (se_ymd E) config st"
  shows "\<exists>st'. stored E config dsk' = Inr st' \<and> well_formed_state (se_dec E) (se_ymd E) config st'"
  using cron_run_stored [OF assms(1-3)]
proof (elim disjE exE conjE)
  fix st1
  assume "pass_done E config rw dsk calls st1"
    and new: "stored E config dsk' = Inr (prune_stale_entries (rw_now rw) st1)"
  then obtain errors where
    "deposit_check_run (se_dec E) (se_ymd E) (pass_of E config rw st) (rw_pass rw) st1 errors calls"
    using assms(4) by (auto simp: pass_done_def)
  from well_formed_pass [OF this] assms(5) have "well_formed_state (se_dec E) (se_ymd E) config st1"
    by (simp add: pass_of_def)
  with new well_formed_prune show ?thesis by blast
qed (use assms(4,5) in simp)

lemma well_formed_history:
  assumes "json_roundtrip (se_json E)"
    and "\<forall>i<n. reads_ok (rw i) \<and> cron_run E config (rw i) (dsk i) (dsk (Suc i)) (calls i)"
    and "stored E config (dsk 0) = Inr st0" and "well_formed_state (se_dec E) (se_ymd E) config st0"
  shows "\<exists>st. stored E config (dsk n) = Inr st \<and> well_formed_state (se_dec E) (se_ymd E) config st"
  using assms(2)
proof (induction n)
  case 0
  with assms(3,4) show ?case by simp
next
  case (Suc n)
  then obtain st where "stored E config (dsk n) = Inr st" "well_formed_state (se_dec E) (se_ymd E) config st" by auto
  with Suc.prems well_formed_run [OF assms(1)] show ?case by (metis lessI)
qed

section \<open>A sample history\<close>

text \<open>The sample program with the derived codec: its first run saves a payment.\<close>

definition serde_env :: "(string, string, rat) sweep_env" where
  "serde_env = (sample_sweep_env default_state)\<lparr>se_json := serde_state_json sample_text sample_codec\<rparr>"

lemma serde_env_simps [simp]:
  "se_json serde_env = serde_state_json sample_text sample_codec" "se_dec serde_env = rat_decimals"
  "se_ymd serde_env = sample_ymd" "se_alloy serde_env = sample_alloy" "se_auth serde_env = sample_auth"
  by (simp_all add: serde_env_def)

lemma serde_pass_of: "pass_of serde_env config rw st = pass_of (sample_sweep_env one) config rw st"
  by (simp add: pass_of_def)

lemma serde_stored_empty: "stored serde_env sample_config Map.empty = Inr default_state"
  by (simp add: load_state_def read_to_string_def)

lemma serde_first_run:
  obtains dsk calls where "cron_run serde_env sample_config sample_run_world Map.empty dsk calls"
    and "dsk sample_path \<noteq> None"
proof -
  obtain st calls where
    pass: "deposit_check_run rat_decimals sample_ymd (sample_pass_of default_state) sample_pass_world st [] calls"
    using sample_pass_of_runs by blast
  have "well_formed_state rat_decimals sample_ymd sample_config (prune_stale_entries 60 st)"
    using well_formed_prune well_formed_pass [OF pass] well_formed_default by (fastforce simp: pass_of_def)
  then obtain json where "js_to_string_pretty (se_json serde_env) (prune_stale_entries 60 st) = Inr json"
    by (simp add: serde_state_json_def well_formed_state_def)
  then obtain cuts where save: "save_state (se_json serde_env) sample_path (prune_stale_entries 60 st) no_faults Map.empty =
      (Inr (), cuts)" and written: "last cuts sample_path = Some json" by (rule save_state_clean)
  obtain client where "live_coinbase_client_new sample_auth (cfg_coinbase_api_key sample_config)
      (cfg_coinbase_api_secret sample_config) (cfg_coinbase_usdc_account_id sample_config)
      (cfg_coinbase_usd_account_id sample_config) = Inr client"
    by (simp add: live_coinbase_client_new_def parse_pem_key_def sample_auth_def sample_config_def)
  with pass save serde_stored_empty
  have "sweep_run serde_env sample_config sample_run_world Map.empty (Inr ())
      (error_alert (run_errors [] (Inr ()))) cuts calls"
    by (intro sweep_run.passed) (simp_all add: sample_explorers_built serde_pass_of [of _ _ _ default_state], simp add: sample_run_world_def)
  from cron_run_last [OF this] written that show thesis by blast
qed

section \<open>The property\<close>

text \<open>
  C5. From a state file that is missing, or well formed, no history of runs, each ending
  normally, with an error, or killed anywhere, leads to a file the program cannot load: the
  stored state always loads and is well formed, and the state that the next completed pass hands
  to the save always has a JSON text, so a save can fail only in the file system.
\<close>

theorem stored_state_stays_well_formed:
  assumes "se_json E = serde_state_json T C" and "json_text_laws T" and "value_codec_laws C"
    and "\<forall>i<n. reads_ok (rw i) \<and> cron_run E config (rw i) (dsk i) (dsk (Suc i)) (calls i)"
    and "stored E config (dsk 0) = Inr st0" and "well_formed_state (se_dec E) (se_ymd E) config st0"
  shows "\<exists>st. stored E config (dsk n) = Inr st \<and> well_formed_state (se_dec E) (se_ymd E) config st \<and>
    (\<forall>rw' calls' st'. pass_done E config rw' (dsk n) calls' st' \<longrightarrow>
       js_to_string_pretty (se_json E) (prune_stale_entries (rw_now rw') st') =
         Inr (jt_print_pretty T (ser_persisted_state C (prune_stale_entries (rw_now rw') st'))))"
proof -
  have rt: "json_roundtrip (se_json E)" unfolding assms(1) by (rule serde_json_roundtrip [OF assms(2,3)])
  from well_formed_history [OF rt assms(4-6)] obtain st where
    st: "stored E config (dsk n) = Inr st" and wf: "well_formed_state (se_dec E) (se_ymd E) config st" by blast
  have "finite_state (prune_stale_entries (rw_now rw') st')" if "pass_done E config rw' (dsk n) calls' st'" for rw' calls' st'
  proof -
    from that st obtain errors where
      "deposit_check_run (se_dec E) (se_ymd E) (pass_of E config rw' st) (rw_pass rw') st' errors calls'"
      by (auto simp: pass_done_def)
    from well_formed_pass [OF this] wf have "well_formed_state (se_dec E) (se_ymd E) config st'"
      by (simp add: pass_of_def)
    from well_formed_prune [OF this] show ?thesis by (simp add: well_formed_state_def)
  qed
  with st wf show ?thesis by (auto simp: assms(1) serde_state_json_def)
qed

theorem stored_state_stays_well_formed_witness:
  "\<exists>dsk st. dsk sample_path \<noteq> None \<and> stored serde_env sample_config dsk = Inr st \<and>
     well_formed_state rat_decimals sample_ymd sample_config st"
proof -
  obtain dsk calls where run: "cron_run serde_env sample_config sample_run_world Map.empty dsk calls"
    and "dsk sample_path \<noteq> None" by (rule serde_first_run)
  define history where "history = (\<lambda>i::nat. if i = 0 then Map.empty else dsk)"
  have h: "history 0 = Map.empty" "history (Suc 0) = dsk" by (simp_all add: history_def)
  have runs: "\<forall>i<Suc 0. reads_ok sample_run_world \<and>
      cron_run serde_env sample_config sample_run_world (history i) (history (Suc i)) calls"
    using run reads_ok_sample h by simp
  have start: "stored serde_env sample_config (history 0) = Inr default_state"
    using serde_stored_empty h by simp
  have wf: "well_formed_state (se_dec serde_env) (se_ymd serde_env) sample_config default_state"
    by (rule well_formed_default)
  from stored_state_stays_well_formed [OF serde_env_simps(1) sample_text_laws sample_codec_laws runs start wf]
  obtain st where "stored serde_env sample_config dsk = Inr st"
    and "well_formed_state (se_dec serde_env) (se_ymd serde_env) sample_config st" unfolding h by (elim exE conjE)
  with \<open>dsk sample_path \<noteq> None\<close> show ?thesis unfolding serde_env_simps by (intro exI conjI)
qed

end
