(* ===== verification/Test_Doubles.thy ===== *)
theory Test_Doubles
  imports Worker_Pipeline
begin

text \<open>
  The scripted implementations of the traits in \<open>src/src/tests/coinbase_mock.rs\<close>, and the
  worker run against them. A mock's answers are fixed when it is built; what it records is
  recomputed from the calls the executor made, in their order.
\<close>

section \<open>\<open>MockBlockExplorer\<close>\<close>

record 'd mock_block_explorer =
  me_receives :: "'d usdc_receive list"
  me_block_height :: u64
  me_fail_block_height :: bool
  me_fail_receives :: bool
  me_partial_scan_through :: "u64 option"

definition mock_get_block_height :: "'d mock_block_explorer \<Rightarrow> app_error + u64" where
  "mock_get_block_height m =
     (if me_fail_block_height m then Inl (Explorer ''mock: block height failure'')
      else Inr (me_block_height m))"

definition mock_fetch_usdc_receives ::
  "'d mock_block_explorer \<Rightarrow> string \<Rightarrow> u64 \<Rightarrow> u64 \<Rightarrow> app_error + 'd fetch_receives_ok" where
  "mock_fetch_usdc_receives m address since_block to_block =
     (if me_fail_receives m then Inl (Explorer ''mock: fetch receives failure'')
      else case me_partial_scan_through m of
        Some frontier \<Rightarrow>
          Inr \<lparr>fr_receives = filter (\<lambda>r. ur_block_number r \<le> frontier) (me_receives m),
               fr_confirmed_frontier = frontier\<rparr>
      | None \<Rightarrow> Inr \<lparr>fr_receives = me_receives m, fr_confirmed_frontier = to_block\<rparr>)"

text \<open>The mock as the orchestrator holds it; its calls always return.\<close>

definition mock_explorer :: "'d mock_block_explorer \<Rightarrow> 'd block_explorer" where
  "mock_explorer m =
     \<lparr>be_get_block_height = Some (mock_get_block_height m),
      be_fetch_usdc_receives = (\<lambda>_ address since_block to_block.
        Some (mock_fetch_usdc_receives m address since_block to_block))\<rparr>"

section \<open>\<open>MockCoinbase\<close> and \<open>MockNotifier\<close>\<close>

record 'd mock_coinbase =
  mk_sell_result :: "'d sell_result option"
  mk_withdrawal_result :: "'d withdrawal_result option"
  mk_withdraw_calls :: "('d \<times> string) list"

definition mock_coinbase_new :: "'d mock_coinbase" where
  "mock_coinbase_new = \<lparr>mk_sell_result = None, mk_withdrawal_result = None, mk_withdraw_calls = []\<rparr>"

definition mock_sell_usdc :: "'d mock_coinbase \<Rightarrow> 'd \<Rightarrow> app_error + 'd sell_result" where
  "mock_sell_usdc m amount =
     (case mk_sell_result m of None \<Rightarrow> Inl (Coinbase ''Mock: no sell result'') | Some r \<Rightarrow> Inr r)"

definition mock_withdraw_usd ::
  "'d mock_coinbase \<Rightarrow> 'd \<Rightarrow> string \<Rightarrow> (app_error + 'd withdrawal_result) \<times> 'd mock_coinbase" where
  "mock_withdraw_usd m amount payment_method_id =
     (case mk_withdrawal_result m of
        None \<Rightarrow> Inl (Coinbase ''Mock: no withdrawal result'')
      | Some r \<Rightarrow> Inr r,
      m\<lparr>mk_withdraw_calls := mk_withdraw_calls m @ [(amount, payment_method_id)]\<rparr>)"

record mock_notifier =
  mn_messages :: "string list"

definition mock_notifier_new :: mock_notifier where
  "mock_notifier_new = \<lparr>mn_messages = []\<rparr>"

definition mock_notify :: "mock_notifier \<Rightarrow> string \<Rightarrow> (app_error + unit) \<times> mock_notifier" where
  "mock_notify m message = (Inr (), m\<lparr>mn_messages := mn_messages m @ [message]\<rparr>)"

text \<open>A job served by the mocks, and the mocks after a run's calls.\<close>

definition mock_job_world :: "'d mock_coinbase \<Rightarrow> 'd job_world" where
  "mock_job_world m =
     \<lparr>jw_sell_usdc = mock_sell_usdc m, jw_withdraw_usd = (\<lambda>a pm. fst (mock_withdraw_usd m a pm)),
      jw_notify = (\<lambda>message. fst (mock_notify mock_notifier_new message))\<rparr>"

fun mocks_after :: "'d action list \<Rightarrow> 'd mock_coinbase \<times> mock_notifier \<Rightarrow> 'd mock_coinbase \<times> mock_notifier" where
  "mocks_after [] ms = ms"
| "mocks_after (SellUsdc a # acts) ms = mocks_after acts ms"
| "mocks_after (SettleSleep n # acts) ms = mocks_after acts ms"
| "mocks_after (WithdrawUsd a pm # acts) (c, n) = mocks_after acts (snd (mock_withdraw_usd c a pm), n)"
| "mocks_after (Notify m # acts) (c, n) = mocks_after acts (c, snd (mock_notify n m))"

lemma mocks_after_messages:
  "mn_messages (snd (mocks_after acts ms)) = mn_messages (snd ms) @ List.map_filter (\<lambda>a. case a of Notify m \<Rightarrow> Some m | _ \<Rightarrow> None) acts"
  by (induction acts ms rule: mocks_after.induct) (simp_all add: mock_notify_def mock_withdraw_usd_def map_filter_simps)

section \<open>A worker run against the mocks\<close>

text \<open>
  The deposits are sent on a channel of capacity 32, the sender is dropped, and
  \<open>worker.run(rx)\<close> is awaited: the results, and the mocks afterwards.
\<close>

definition mock_env :: "(datetime \<Rightarrow> string) \<Rightarrow> rat cb_worker \<Rightarrow> rat mock_coinbase \<Rightarrow> rat pipe_env" where
  "mock_env ymd cw m = \<lparr>pe_dec = rat_decimals, pe_ymd = ymd, pe_worker = cw, pe_world = (\<lambda>_. mock_job_world m)\<rparr>"

definition worker_run ::
  "(datetime \<Rightarrow> string) \<Rightarrow> rat cb_worker \<Rightarrow> rat mock_coinbase \<Rightarrow> rat eligible_deposit list \<Rightarrow>
   rat liquidation_result list \<Rightarrow> rat mock_coinbase \<Rightarrow> mock_notifier \<Rightarrow> bool" where
  "worker_run ymd cw m ds results m' n' \<longleftrightarrow>
     (\<exists>s. pipe_reaches (mock_env ymd cw m) (pipe_init [List.enumerate 0 ds]) s \<and> pipe_done s \<and>
        results = map snd (pp_results s) \<and>
        (m', n') = mocks_after (map snd (pp_log s)) (m, mock_notifier_new))"

lemma worker_run_none:
  assumes "worker_run ymd cw m [] results m' n'"
  shows "results = []"
proof -
  from assms obtain s where reach: "pipe_reaches (mock_env ymd cw m) (pipe_init [List.enumerate 0 []]) s"
    and fin: "pipe_done s" and results: "results = map snd (pp_results s)" by (auto simp: worker_run_def)
  have "mset (map fst (pp_results s)) = mset (concat [List.enumerate 0 []])"
    by (rule pipe_results_of_done(1) [OF reach _ fin]) simp
  with results show ?thesis by simp
qed

lemma worker_run_one:
  assumes "worker_run ymd cw m [d] results m' n'"
  obtains lr where "results = [lr]"
    and "liquidation_record ymd d (fst (liquidate_pipeline rat_decimals cw (mock_job_world m) d)) = Some lr"
    and "(m', n') = mocks_after (snd (liquidate_pipeline rat_decimals cw (mock_job_world m) d)) (m, mock_notifier_new)"
proof -
  from assms obtain s where reach: "pipe_reaches (mock_env ymd cw m) (pipe_init [[(0, d)]]) s"
    and fin: "pipe_done s" and results: "results = map snd (pp_results s)"
    and mocks: "(m', n') = mocks_after (map snd (pp_log s)) (m, mock_notifier_new)" by (auto simp: worker_run_def)
  have tags: "distinct (map fst (concat [[(0, d)]]))" by simp
  have "mset (map fst (pp_results s)) = {#(0, d)#}" using pipe_results_of_done(1) [OF reach tags fin] by simp
  then obtain lr where lr: "pp_results s = [((0, d), lr)]"
    by (cases "pp_results s") (auto simp: add_mset_eq_single)
  from pipe_results_of_done(2) [OF reach tags fin, of 0 d lr] lr
  have one: "liquidate_one rat_decimals ymd cw (mock_job_world m) d = (Some lr, job_log s 0)"
    by (simp add: mock_env_def)
  have "fst e = 0" if "e \<in> set (pp_log s)" for e
    using pipe_reaches_log_known [OF reach, of "fst e" "snd e"] that by simp
  then have "job_log s 0 = map snd (pp_log s)" by (simp add: job_log_def filter_id_conv)
  with one mocks show thesis
    by (intro that [of lr]) (auto simp: results lr liquidate_one_def split: prod.splits)
qed

text \<open>A run exists: the reference executor finishes, unless an audit id cannot be cut.\<close>

lemma worker_run_exists:
  assumes "\<forall>d\<in>set ds. make_id ymd (ed_processed_at d) (ed_tx_hash d) \<noteq> None"
  shows "\<exists>results m' n'. worker_run ymd cw m ds results m' n'"
proof -
  let ?E = "mock_env ymd cw m" and ?i = "pipe_init [List.enumerate 0 ds]"
  have reach: "pipe_reaches ?E ?i (pipe_run ?E ?i)" by (rule pipe_run_reaches)
  have "\<not> pp_panicked (pipe_run ?E ?i)"
  proof
    assume "pp_panicked (pipe_run ?E ?i)"
    from pipe_reaches_panic [OF reach this] obtain n d where "(n, d) \<in> set (List.enumerate 0 ds)"
      and "make_id ymd (ed_processed_at d) (ed_tx_hash d) = None" by (auto simp: mock_env_def)
    moreover from this(1) have "d \<in> set ds" by (simp add: in_set_enumerate_eq) (metis nth_mem)
    ultimately show False using assms by blast
  qed
  then have "pipe_done (pipe_run ?E ?i)" using pipe_run_ends by blast
  with reach show ?thesis unfolding worker_run_def by (metis prod.collapse)
qed

end
