(* ===== verification/Coinbase_Wire.thy ===== *)
theory Coinbase_Wire
  imports Coinbase_Live Sample_Json_Text
begin

text \<open>
  Coinbase's wire format: the derived \<open>Serialize\<close> and \<open>Deserialize\<close> of the request and
  response types of \<open>src/src/coinbase/models.rs\<close>, and the client's library built from them. Only
  the text layer, the JWT's crates, \<open>Decimal\<close> and the status texts stay parameters. The order of
  the keys in a request body is serde_json's affair: the text layer is given them in declaration
  order.
\<close>

section \<open>Requests\<close>

definition ser_withdrawal_request :: "withdrawal_request \<Rightarrow> json" where
  "ser_withdrawal_request r = JObj
     [(''amount'', JStr (wq_amount r)), (''currency'', JStr (wq_currency r)),
      (''payment_method'', JStr (wq_payment_method r)), (''commit'', JBool (wq_commit r))]"

definition ser_convert_quote_request :: "convert_quote_request \<Rightarrow> json" where
  "ser_convert_quote_request r = JObj
     [(''from_account'', JStr (qr_from_account r)), (''to_account'', JStr (qr_to_account r)),
      (''amount'', JStr (qr_amount r))]"

definition ser_convert_commit_request :: "convert_commit_request \<Rightarrow> json" where
  "ser_convert_commit_request r = JObj
     [(''from_account'', JStr (cq_from_account r)), (''to_account'', JStr (cq_to_account r))]"

section \<open>Accounts\<close>

definition de_currency_info :: "currency_info de" where
  "de_currency_info j =
     bind_result (de_struct [(''code'', Required, de_fails de_string)] j) (\<lambda>es.
     bind_result (required_field es ''code'' de_string) (\<lambda>code. Inr \<lparr>ci_code = code\<rparr>))"

definition de_money_amount :: "money_amount de" where
  "de_money_amount j =
     bind_result (de_struct [(''amount'', Required, de_fails de_string),
        (''currency'', Required, de_fails de_string)] j) (\<lambda>es.
     bind_result (required_field es ''amount'' de_string) (\<lambda>amount.
     bind_result (required_field es ''currency'' de_string) (\<lambda>currency.
     Inr \<lparr>ma_amount = amount, ma_currency = currency\<rparr>)))"

definition de_coinbase_account :: "coinbase_account de" where
  "de_coinbase_account j =
     bind_result (de_struct [(''id'', Required, de_fails de_string), (''name'', Required, de_fails de_string),
        (''currency'', Required, de_fails de_currency_info),
        (''balance'', Required, de_fails de_money_amount)] j) (\<lambda>es.
     bind_result (required_field es ''id'' de_string) (\<lambda>ident.
     bind_result (required_field es ''name'' de_string) (\<lambda>name.
     bind_result (required_field es ''currency'' de_currency_info) (\<lambda>currency.
     bind_result (required_field es ''balance'' de_money_amount) (\<lambda>balance.
     Inr \<lparr>ca_id = ident, ca_name = name, ca_currency = currency, ca_balance = balance\<rparr>)))))"

definition de_v2_list_response :: "'t de \<Rightarrow> 't v2_list_response de" where
  "de_v2_list_response d j =
     bind_result (de_struct [(''data'', Required, de_fails (de_vec d))] j) (\<lambda>es.
     bind_result (required_field es ''data'' (de_vec d)) (\<lambda>xs. Inr \<lparr>v2l_data = xs\<rparr>))"

definition de_v2_data_response :: "'t de \<Rightarrow> 't v2_data_response de" where
  "de_v2_data_response d j =
     bind_result (de_struct [(''data'', Required, de_fails d)] j) (\<lambda>es.
     bind_result (required_field es ''data'' d) (\<lambda>x. Inr \<lparr>v2d_data = x\<rparr>))"

section \<open>Conversions\<close>

definition de_convert_amount :: "convert_amount de" where
  "de_convert_amount j =
     bind_result (de_struct [(''value'', Optional, de_fails (de_option de_string)),
        (''currency'', Optional, de_fails (de_option de_string))] j) (\<lambda>es.
     bind_result (optional_field es ''value'' de_string) (\<lambda>value.
     bind_result (optional_field es ''currency'' de_string) (\<lambda>currency.
     Inr \<lparr>cva_value = value, cva_currency = currency\<rparr>)))"

definition de_convert_fee :: "convert_fee de" where
  "de_convert_fee j =
     bind_result (de_struct [(''title'', Optional, de_fails (de_option de_string)),
        (''amount'', Optional, de_fails (de_option de_convert_amount))] j) (\<lambda>es.
     bind_result (optional_field es ''title'' de_string) (\<lambda>title.
     bind_result (optional_field es ''amount'' de_convert_amount) (\<lambda>amount.
     Inr \<lparr>cvf_title = title, cvf_amount = amount\<rparr>)))"

definition convert_trade_fields :: "field_spec list" where
  "convert_trade_fields =
     [(''id'', Optional, de_fails (de_option de_string)),
      (''status'', Optional, de_fails (de_option de_string)),
      (''user_entered_amount'', Optional, de_fails (de_option de_convert_amount)),
      (''total'', Optional, de_fails (de_option de_convert_amount)),
      (''subtotal'', Optional, de_fails (de_option de_convert_amount)),
      (''total_fee'', Optional, de_fails (de_option de_convert_fee)),
      (''source_currency'', Optional, de_fails (de_option de_string)),
      (''target_currency'', Optional, de_fails (de_option de_string)),
      (''exchange_rate'', Optional, de_fails (de_option de_convert_amount))]"

definition de_convert_trade :: "convert_trade de" where
  "de_convert_trade j =
     bind_result (de_struct convert_trade_fields j) (\<lambda>es.
     bind_result (optional_field es ''id'' de_string) (\<lambda>ident.
     bind_result (optional_field es ''status'' de_string) (\<lambda>status.
     bind_result (optional_field es ''user_entered_amount'' de_convert_amount) (\<lambda>entered.
     bind_result (optional_field es ''total'' de_convert_amount) (\<lambda>total.
     bind_result (optional_field es ''subtotal'' de_convert_amount) (\<lambda>subtotal.
     bind_result (optional_field es ''total_fee'' de_convert_fee) (\<lambda>fee.
     bind_result (optional_field es ''source_currency'' de_string) (\<lambda>source.
     bind_result (optional_field es ''target_currency'' de_string) (\<lambda>target.
     bind_result (optional_field es ''exchange_rate'' de_convert_amount) (\<lambda>rate.
     Inr \<lparr>ct_id = ident, ct_status = status, ct_user_entered_amount = entered, ct_total = total,
          ct_subtotal = subtotal, ct_total_fee = fee, ct_source_currency = source,
          ct_target_currency = target, ct_exchange_rate = rate\<rparr>))))))))))"

definition de_convert_quote_response :: "convert_quote_response de" where
  "de_convert_quote_response j =
     bind_result (de_struct [(''trade'', Optional, de_fails (de_option de_convert_trade))] j) (\<lambda>es.
     bind_result (optional_field es ''trade'' de_convert_trade) (\<lambda>trade. Inr \<lparr>qs_trade = trade\<rparr>))"

definition de_convert_trade_response :: "convert_trade_response de" where
  "de_convert_trade_response j =
     bind_result (de_struct [(''trade'', Optional, de_fails (de_option de_convert_trade))] j) (\<lambda>es.
     bind_result (optional_field es ''trade'' de_convert_trade) (\<lambda>trade. Inr \<lparr>cs_trade = trade\<rparr>))"

section \<open>Withdrawals\<close>

definition de_cancellation_reason :: "cancellation_reason de" where
  "de_cancellation_reason j =
     bind_result (de_struct [(''message'', Required, de_fails de_string),
        (''code'', Defaulted, de_fails de_string)] j) (\<lambda>es.
     bind_result (required_field es ''message'' de_string) (\<lambda>message.
     bind_result (defaulted_field es ''code'' [] de_string) (\<lambda>code.
     Inr \<lparr>cn_message = message, cn_code = code\<rparr>)))"

definition withdrawal_transfer_fields :: "field_spec list" where
  "withdrawal_transfer_fields =
     [(''id'', Required, de_fails de_string),
      (''amount'', Optional, de_fails (de_option de_convert_amount)),
      (''committed'', Optional, de_fails (de_option de_bool)),
      (''status'', Defaulted, de_fails de_string),
      (''cancellation_reason'', Optional, de_fails (de_option de_cancellation_reason))]"

definition de_withdrawal_transfer :: "withdrawal_transfer de" where
  "de_withdrawal_transfer j =
     bind_result (de_struct withdrawal_transfer_fields j) (\<lambda>es.
     bind_result (required_field es ''id'' de_string) (\<lambda>ident.
     bind_result (optional_field es ''amount'' de_convert_amount) (\<lambda>amount.
     bind_result (optional_field es ''committed'' de_bool) (\<lambda>committed.
     bind_result (defaulted_field es ''status'' [] de_string) (\<lambda>status.
     bind_result (optional_field es ''cancellation_reason'' de_cancellation_reason) (\<lambda>reason.
     Inr \<lparr>wt_id = ident, wt_amount = amount, wt_committed = committed, wt_status = status,
          wt_cancellation_reason = reason\<rparr>))))))"

definition de_transfer_response :: "transfer_response de" where
  "de_transfer_response j =
     bind_result (de_struct [(''transfer'', Required, de_fails de_withdrawal_transfer)] j) (\<lambda>es.
     bind_result (required_field es ''transfer'' de_withdrawal_transfer) (\<lambda>x. Inr \<lparr>tr_transfer = x\<rparr>))"

section \<open>Payment methods\<close>

definition payment_method_fields :: "field_spec list" where
  "payment_method_fields =
     [(''id'', Required, de_fails de_string), (''name'', Required, de_fails de_string),
      (''type'', Required, de_fails de_string), (''currency'', Optional, de_fails (de_option de_string)),
      (''allow_withdraw'', Optional, de_fails (de_option de_bool)),
      (''allow_deposit'', Optional, de_fails (de_option de_bool))]"

definition de_payment_method :: "payment_method de" where
  "de_payment_method j =
     bind_result (de_struct payment_method_fields j) (\<lambda>es.
     bind_result (required_field es ''id'' de_string) (\<lambda>ident.
     bind_result (required_field es ''name'' de_string) (\<lambda>name.
     bind_result (required_field es ''type'' de_string) (\<lambda>method_type.
     bind_result (optional_field es ''currency'' de_string) (\<lambda>currency.
     bind_result (optional_field es ''allow_withdraw'' de_bool) (\<lambda>withdraw.
     bind_result (optional_field es ''allow_deposit'' de_bool) (\<lambda>deposit.
     Inr \<lparr>pm_id = ident, pm_name = name, pm_method_type = method_type, pm_currency = currency,
          pm_allow_withdraw = withdraw, pm_allow_deposit = deposit\<rparr>)))))))"

definition de_v3_payment_methods_response :: "v3_payment_methods_response de" where
  "de_v3_payment_methods_response j =
     bind_result (de_struct [(''payment_methods'', Required, de_fails (de_vec de_payment_method))] j) (\<lambda>es.
     bind_result (required_field es ''payment_methods'' (de_vec de_payment_method)) (\<lambda>xs.
     Inr \<lparr>v3_payment_methods = xs\<rparr>))"

section \<open>The client's library\<close>

text \<open>A request becomes a \<open>Value\<close> first (\<open>post\<close>), so its keys are sent in order.\<close>

definition serde_coinbase_lib ::
  "json_text \<Rightarrow> 'k auth_lib \<Rightarrow> 'd decimal_lib \<Rightarrow> (nat \<Rightarrow> string) \<Rightarrow> ('k, 'd) coinbase_lib" where
  "serde_coinbase_lib T A D status_text =
     \<lparr>cl_auth = A, cl_dec = D, cl_status_text = status_text,
      cl_quote_request_json = (\<lambda>r. Inr (jt_print T (to_value (ser_convert_quote_request r)))),
      cl_commit_request_json = (\<lambda>r. Inr (jt_print T (to_value (ser_convert_commit_request r)))),
      cl_withdrawal_request_json = (\<lambda>r. Inr (jt_print T (to_value (ser_withdrawal_request r)))),
      cl_quote_response = from_str T de_convert_quote_response,
      cl_trade_response = from_str T de_convert_trade_response,
      cl_transfer_response = from_str T de_transfer_response,
      cl_account_response = from_str T (de_v2_data_response de_coinbase_account),
      cl_accounts_response = from_str T (de_v2_list_response de_coinbase_account)\<rparr>"

section \<open>A sample reply\<close>

abbreviation sample_wire :: "(string, rat) coinbase_lib" where
  "sample_wire \<equiv> serde_coinbase_lib sample_text sample_auth rat_decimals show_nat"

text \<open>An uncommitted, failed and cancelled transfer that has an id.\<close>

definition cancelled_transfer :: "(string \<times> json) list" where
  "cancelled_transfer =
     [(''id'', JStr ''wd-1''), (''committed'', JBool False), (''status'', JStr ''failed''),
      (''cancellation_reason'', JObj [(''message'', JStr ''limit'')])]"

lemma cancelled_transfer_read:
  "de_withdrawal_transfer (JObj cancelled_transfer) = Inr
     \<lparr>wt_id = ''wd-1'', wt_amount = None, wt_committed = Some False, wt_status = ''failed'',
      wt_cancellation_reason = Some \<lparr>cn_message = ''limit'', cn_code = []\<rparr>\<rparr>"
  by (simp add: de_withdrawal_transfer_def withdrawal_transfer_fields_def cancelled_transfer_def struct_simps
      de_cancellation_reason_def)

definition cancelled_reply :: string where
  "cancelled_reply = enc (JObj [(''transfer'', JObj cancelled_transfer)])"

lemma cancelled_reply_parse: "jt_parse sample_text cancelled_reply = Inr (JObj [(''transfer'', JObj cancelled_transfer)])"
  unfolding cancelled_reply_def by (rule sample_parse_enc)

lemma sample_wire_request: "\<exists>req. request_for sample_wire (sample_server raw) sample_client tr meth path body req"
  by (simp add: request_for_def serde_coinbase_lib_def sample_server_def build_jwt_def Let_def current_timestamp_def)

section \<open>Replies to a withdrawal\<close>

lemma de_withdrawal_transfer_id:
  "de_withdrawal_transfer (JObj es) = Inr x \<Longrightarrow> map_of es ''id'' = Some (JStr (wt_id x))"
  by (auto simp: de_withdrawal_transfer_def struct_simps simp del: de_struct.simps dest!: de_struct_JObj
      elim!: de_string.elims split: option.splits)

text \<open>The request's keys as they are sent.\<close>

lemma withdrawal_request_value:
  "to_value (ser_withdrawal_request r) = JObj
     [(''amount'', JStr (wq_amount r)), (''commit'', JBool (wq_commit r)), (''currency'', JStr (wq_currency r)),
      (''payment_method'', JStr (wq_payment_method r))]"
  by (simp add: ser_withdrawal_request_def add_entry_def less_char_def)

lemma de_transfer_response_obj:
  "de_transfer_response (JObj [(''transfer'', j)]) = bind_result (de_withdrawal_transfer j) (\<lambda>x. Inr \<lparr>tr_transfer = x\<rparr>)"
  by (cases "de_withdrawal_transfer j")
    (simp_all add: de_transfer_response_def struct_simps de_fails_def)

lemma post_json_reply:
  assumes "request_for L W c tr Post path (Some body) req" and "cx_http W tr req = Reply status (Some raw)"
    and "is_success status"
  shows "post_json L W c d path (Inr body) tr = lift_result (deserialize d Post path raw) (tr @ [req])"
  using assms by (auto simp: post_json_def send_request_def request_for_def and_then_def Let_def)



end
