(* ===== verification/Tests_Worker.thy ===== *)
theory Tests_Worker
  imports Test_Doubles Tests_Values
begin

text \<open>
  The tests of \<open>src/src/cbworker.rs\<close>: the worker against the mocks. The executor's choices are
  not the test's, so a test asks for its assertions of every run, and that there is one.
\<close>

definition test_deposit :: "datetime \<Rightarrow> rat eligible_deposit" where
  "test_deposit now =
     \<lparr>ed_deposit_address = ''0xDeposit'', ed_chain = Base, ed_tx_hash = ''0xabc12345'',
      ed_usdc_amount = 2400, ed_payment_method_id = ''pm-123'',
      ed_deposit_timestamp = now - duration_hours 1, ed_processed_at = now\<rparr>"

definition test_worker :: "rat cb_worker" where
  "test_worker = \<lparr>cw_max_auto_amount = 10000, cw_sell_settle_delay_secs = 0\<rparr>"

fun is_initiated :: "'d bank_payment_outcome \<Rightarrow> bool" where
  "is_initiated (Initiated _ _ _ _) = True"
| "is_initiated (Failed _ _) = False"

definition test_run ::
  "(datetime \<Rightarrow> string) \<Rightarrow> rat cb_worker \<Rightarrow> rat mock_coinbase \<Rightarrow> rat eligible_deposit list \<Rightarrow>
   (rat liquidation_result list \<Rightarrow> rat mock_coinbase \<Rightarrow> mock_notifier \<Rightarrow> bool) \<Rightarrow> bool" where
  "test_run ymd cw m ds asserts \<longleftrightarrow>
     (\<exists>results m' n'. worker_run ymd cw m ds results m' n') \<and>
     (\<forall>results m' n'. worker_run ymd cw m ds results m' n' \<longrightarrow> asserts results m' n')"

lemma test_run_one:
  assumes "is_ascii (ed_tx_hash d)"
    and "\<And>lr m' n'. liquidation_record ymd d (fst (liquidate_pipeline rat_decimals cw (mock_job_world m) d)) = Some lr \<Longrightarrow>
      (m', n') = mocks_after (snd (liquidate_pipeline rat_decimals cw (mock_job_world m) d)) (m, mock_notifier_new) \<Longrightarrow>
      asserts [lr] m' n'"
  shows "test_run ymd cw m [d] asserts"
  unfolding test_run_def
proof (intro conjI allI impI)
  show "\<exists>results m' n'. worker_run ymd cw m [d] results m' n'"
    by (rule worker_run_exists) (simp add: make_id_ascii assms(1))
  show "asserts results m' n'" if "worker_run ymd cw m [d] results m' n'" for results m' n'
    using that by (rule worker_run_one) (use assms(2) in blast)
qed

lemma test_deposit_ascii: "is_ascii (ed_tx_hash (test_deposit now))"
  by (simp add: test_deposit_def is_ascii_def)

lemmas mock_simps = mock_job_world_def mock_sell_usdc_def mock_withdraw_usd_def mock_notify_def
  mock_coinbase_new_def mock_notifier_new_def

definition success_path :: "(datetime \<Rightarrow> string) \<Rightarrow> datetime \<Rightarrow> bool" where
  "success_path ymd now \<longleftrightarrow>
     (let coinbase = mock_coinbase_new
            \<lparr>mk_sell_result := Some \<lparr>sr_order_id = ''order-1'', sr_usdc_sold = 2400,
               sr_usd_received = 4799 / 2, sr_executed_at = now\<rparr>,
             mk_withdrawal_result := Some \<lparr>wr_withdrawal_transfer_id = ''wd-1'',
               wr_usd_amount = 4799 / 2, wr_initiated_at = now\<rparr>\<rparr>
      in test_run ymd test_worker coinbase [test_deposit now]
           (\<lambda>results coinbase' notifier'.
              length results = 1 \<and> is_initiated (bp_outcome (lr_payment (results ! 0))) \<and>
              lr_tx_hash (results ! 0) = ''0xabc12345'' \<and>
              length (mk_withdraw_calls coinbase') = 1 \<and>
              snd (mk_withdraw_calls coinbase' ! 0) = ''pm-123''))"

lemma success_path_passes: "success_path ymd now"
  unfolding success_path_def Let_def
  by (rule test_run_one [OF test_deposit_ascii])
    (auto simp: liquidate_pipeline_def mock_simps liquidation_record_Some test_deposit_def test_worker_def)

definition sell_failure_creates_failed :: "(datetime \<Rightarrow> string) \<Rightarrow> datetime \<Rightarrow> bool" where
  "sell_failure_creates_failed ymd now \<longleftrightarrow>
     test_run ymd test_worker mock_coinbase_new [test_deposit now]
       (\<lambda>results coinbase' notifier'.
          length results = 1 \<and> \<not> is_initiated (bp_outcome (lr_payment (results ! 0))) \<and>
          mn_messages notifier' \<noteq> [] \<and> str_contains (mn_messages notifier' ! 0) ''Sell failed'')"

lemma sell_failure_creates_failed_passes: "sell_failure_creates_failed ymd now"
  unfolding sell_failure_creates_failed_def
  by (rule test_run_one [OF test_deposit_ascii])
    (auto simp: liquidate_pipeline_def mock_simps liquidation_record_Some test_deposit_def test_worker_def
      sell_failed_message_def)

definition withdraw_failure_creates_failed :: "(datetime \<Rightarrow> string) \<Rightarrow> datetime \<Rightarrow> bool" where
  "withdraw_failure_creates_failed ymd now \<longleftrightarrow>
     (let coinbase = mock_coinbase_new
            \<lparr>mk_sell_result := Some \<lparr>sr_order_id = ''order-1'', sr_usdc_sold = 2400,
               sr_usd_received = 4799 / 2, sr_executed_at = now\<rparr>\<rparr>
      in test_run ymd test_worker coinbase [test_deposit now]
           (\<lambda>results coinbase' notifier'.
              length results = 1 \<and> \<not> is_initiated (bp_outcome (lr_payment (results ! 0))) \<and>
              mn_messages notifier' \<noteq> [] \<and> str_contains (mn_messages notifier' ! 0) ''Withdrawal failed''))"

lemma withdraw_failure_creates_failed_passes: "withdraw_failure_creates_failed ymd now"
  unfolding withdraw_failure_creates_failed_def Let_def
  by (rule test_run_one [OF test_deposit_ascii])
    (auto simp: liquidate_pipeline_def mock_simps liquidation_record_Some test_deposit_def test_worker_def
      withdrawal_failed_message_def)

lemma threshold_message_contains: "str_contains (threshold_message D cw d) ''exceeds threshold''"
proof -
  have "threshold_message D cw d =
      (''Deposit '' @ ed_tx_hash d @ '' on '' @ chain_to_string (ed_chain d) @ '' '' @ em_dash @ '' $'' @
       dec_to_string D (ed_usdc_amount d) @ '' '') @ ''exceeds threshold'' @
      ('' $'' @ dec_to_string D (cw_max_auto_amount cw) @ ''. Recorded as Failed '' @ em_dash @
       '' manual intervention required.'')"
    by (simp add: threshold_message_def)
  then show ?thesis by (simp only: str_contains_middle)
qed

definition threshold_exceeded_creates_failed :: "(datetime \<Rightarrow> string) \<Rightarrow> datetime \<Rightarrow> bool" where
  "threshold_exceeded_creates_failed ymd now \<longleftrightarrow>
     (let deposit = (test_deposit now)\<lparr>ed_usdc_amount := 50000\<rparr>;
          worker = \<lparr>cw_max_auto_amount = 10000, cw_sell_settle_delay_secs = 0\<rparr>
      in test_run ymd worker mock_coinbase_new [deposit]
           (\<lambda>results coinbase' notifier'.
              length results = 1 \<and> \<not> is_initiated (bp_outcome (lr_payment (results ! 0))) \<and>
              mn_messages notifier' \<noteq> [] \<and> str_contains (mn_messages notifier' ! 0) ''exceeds threshold''))"

lemma threshold_exceeded_creates_failed_passes: "threshold_exceeded_creates_failed ymd now"
  unfolding threshold_exceeded_creates_failed_def Let_def
proof (rule test_run_one)
  show "is_ascii (ed_tx_hash ((test_deposit now)\<lparr>ed_usdc_amount := 50000\<rparr>))"
    by (simp add: test_deposit_def is_ascii_def)
qed (auto simp: liquidate_pipeline_def mock_simps liquidation_record_Some test_deposit_def threshold_message_contains)

definition empty_channel_returns_empty :: "(datetime \<Rightarrow> string) \<Rightarrow> bool" where
  "empty_channel_returns_empty ymd \<longleftrightarrow>
     test_run ymd test_worker mock_coinbase_new [] (\<lambda>results coinbase' notifier'. results = [])"

lemma empty_channel_returns_empty_passes: "empty_channel_returns_empty ymd"
  unfolding empty_channel_returns_empty_def test_run_def
proof (intro conjI allI impI)
  show "\<exists>results m' n'. worker_run ymd test_worker mock_coinbase_new [] results m' n'"
    by (rule worker_run_exists) simp
qed (rule worker_run_none)

end
