(* ===== verification/Tests_Pass.thy ===== *)
theory Tests_Pass
  imports Tests_Worker Deposit_Check
begin

text \<open>
  The tests of \<open>src/src/orchestrator.rs\<close>: whole passes and single chain checks against the
  mocks. A test asks for its assertions of every run of the pass, and that there is one. The
  clocks a pass reads are arguments; where a test rests on its running within one hour, or on
  one date, its lemma says so.
\<close>

section \<open>Passes against the mocks\<close>

definition mock_explorers :: "'d mock_block_explorer \<Rightarrow> chain \<rightharpoonup> 'd block_explorer" where
  "mock_explorers explorer c = (if c \<in> set chain_iter then Some (mock_explorer explorer) else None)"

definition test_config :: "rat crypto_sweep_config" where
  "test_config =
     \<lparr>cfg_max_auto_amount = 10000, cfg_default_payment_method_id = ''pm-default-123'',
      cfg_deposit_addresses = [\<lparr>dac_address = ''0xDeposit'', dac_payment_method_id = ''pm-default-123''\<rparr>],
      cfg_confirmation_blocks = Map.empty, cfg_start_blocks = (\<lambda>c. if c \<in> set chain_iter then Some 0 else None),
      cfg_coinbase_api_key = ''key'', cfg_coinbase_api_secret = ''secret'',
      cfg_telegram_bot_token = ''bot'', cfg_telegram_chat_id = ''chat'',
      cfg_coinbase_usdc_account_id = None, cfg_coinbase_usd_account_id = None,
      cfg_sell_settle_delay_secs = 0, cfg_state_file = ''/tmp/test-state.json''\<rparr>"

text \<open>\<open>DepositCheck::new(&config, &mut state, &explorers, &coinbase, &notifier)\<close>\<close>

definition test_pass ::
  "rat crypto_sweep_config \<Rightarrow> rat persisted_state \<Rightarrow> rat mock_block_explorer \<Rightarrow> rat deposit_check" where
  "test_pass config st explorer =
     \<lparr>dk_config = config, dk_state = st, dk_explorers = mock_explorers explorer\<rparr>"

definition pass_test ::
  "(datetime \<Rightarrow> string) \<Rightarrow> rat pass_world \<Rightarrow> rat crypto_sweep_config \<Rightarrow> rat persisted_state \<Rightarrow>
   rat mock_block_explorer \<Rightarrow> rat mock_coinbase \<Rightarrow>
   (rat persisted_state \<Rightarrow> string list \<Rightarrow> mock_notifier \<Rightarrow> bool) \<Rightarrow> bool" where
  "pass_test ymd pw config st explorer coinbase asserts \<longleftrightarrow>
     (let pw = pw\<lparr>pw_job := \<lambda>_. mock_job_world coinbase\<rparr>; dk = test_pass config st explorer in
      (\<exists>st' errs calls. deposit_check_run rat_decimals ymd dk pw st' errs calls) \<and>
      (\<forall>st' errs calls. deposit_check_run rat_decimals ymd dk pw st' errs calls \<longrightarrow>
         asserts st' errs (snd (mocks_after (map snd calls) (coinbase, mock_notifier_new)))))"

section \<open>Uniform passes\<close>

lemma discover_uniform:
  assumes "\<And>c. dk_explorers dk c = Some ex"
    and "\<And>c. chain_run D (chain_check_of dk c ex) (sending (pw_scan pw c)) = Some (res c, dss c)"
  shows "discover D dk pw cs = Some (map (\<lambda>c. (c, res c)) cs, concat (map dss cs))"
  using assms by (induction cs) simp_all

lemma pass_exists:
  assumes disc: "discover D dk pw chain_iter = Some (rs, dss)"
    and ascii: "\<forall>d\<in>set (concat dss). is_ascii (ed_tx_hash d)"
  shows "\<exists>st errs calls. deposit_check_run D ymd dk pw st errs calls"
proof -
  let ?E = "pass_env D ymd dk pw" and ?i = "pipe_init (tag_senders 0 dss)"
  have reach: "pipe_reaches ?E ?i (pipe_run ?E ?i)" by (rule pipe_run_reaches)
  have "\<not> pp_panicked (pipe_run ?E ?i)"
  proof
    assume "pp_panicked (pipe_run ?E ?i)"
    from pipe_reaches_panic [OF reach this] obtain n d where nd: "(n, d) \<in> set (concat (tag_senders 0 dss))"
      and "make_id ymd (ed_processed_at d) (ed_tx_hash d) = None" by auto
    moreover have "n < length (concat dss)" and "d = concat dss ! n"
      using nd unfolding concat_tag_senders in_set_enumerate_eq by simp_all
    then have "d \<in> set (concat dss)" using nth_mem [of n "concat dss"] by (simp only:)
    with ascii have "is_ascii (ed_tx_hash d)" by (rule bspec)
    ultimately show False by (simp add: make_id_ascii)
  qed
  then have "pipe_done (pipe_run ?E ?i)" using pipe_run_ends by blast
  with disc reach show ?thesis by (metis deposit_check_run.joined prod.collapse)
qed

lemma pass_calls:
  assumes run: "deposit_check_run D ymd dk pw st errs calls"
    and disc: "discover D dk pw chain_iter = Some (rs, dss)"
  shows "(n, a) \<in> set calls \<longleftrightarrow> n < length (concat dss) \<and>
    a \<in> set (snd (liquidate_pipeline D (worker_of (dk_config dk)) (pw_job pw n) (concat dss ! n)))"
  using run
proof (rule pass_final)
  fix rs' dss' s
  assume "discover D dk pw chain_iter = Some (rs', dss')"
    and r: "pipe_reaches (pass_env D ymd dk pw) (pipe_init (tag_senders 0 dss')) s" and fin: "pipe_done s"
    and calls: "calls = pp_log s"
  with disc have reach: "pipe_reaches (pass_env D ymd dk pw) (pipe_init (tag_senders 0 dss)) s" by simp
  have log: "job_log s n = snd (liquidate_pipeline D (worker_of (dk_config dk)) (pw_job pw n) (concat dss ! n))"
    if n: "n < length (concat dss)"
    by (rule pass_result_of [OF reach fin n]) (auto simp: liquidate_one_def split: prod.splits)
  have "n < length (concat dss)" if "(n, a) \<in> set calls"
    using pipe_reaches_log_known [OF reach, of n a] that
    by (auto simp: calls concat_tag_senders in_set_enumerate_eq)
  moreover have "(n, a) \<in> set calls \<longleftrightarrow> a \<in> set (job_log s n)" by (force simp: calls job_log_def)
  ultimately show ?thesis using log by auto
qed

text \<open>All deposits of the pass share one audit id, and there was no record before.\<close>

lemma pass_one_id:
  assumes run: "deposit_check_run D ymd dk pw st errs calls"
    and disc: "discover D dk pw chain_iter = Some (rs, dss)" and "concat dss \<noteq> []"
    and ids: "\<forall>d\<in>set (concat dss). audit_id ymd d = Some i" and "st_bank_payments (dk_state dk) = Map.empty"
  obtains p n where "st_bank_payments st = [i \<mapsto> p]" and "n < length (concat dss)"
    and "bp_outcome p = fst (liquidate_pipeline D (worker_of (dk_config dk)) (pw_job pw n) (concat dss ! n))"
  using run
proof (rule pass_final)
  fix rs' dss' s
  assume "discover D dk pw chain_iter = Some (rs', dss')"
    and r: "pipe_reaches (pass_env D ymd dk pw) (pipe_init (tag_senders 0 dss')) s" and fin: "pipe_done s"
    and other: "\<And>i. i \<notin> (bp_id \<circ> lr_payment) ` set (map snd (pp_results s)) \<Longrightarrow>
       st_bank_payments st i = st_bank_payments (dk_state dk) i"
    and some: "\<And>i. i \<in> (bp_id \<circ> lr_payment) ` set (map snd (pp_results s)) \<Longrightarrow>
       \<exists>l\<in>set (map snd (pp_results s)). bp_id (lr_payment l) = i \<and> st_bank_payments st i = Some (lr_payment l)"
  with disc have reach: "pipe_reaches (pass_env D ymd dk pw) (pipe_init (tag_senders 0 dss)) s" by simp
  note new = pass_ids [OF reach fin]
  from assms(3) ids have "i \<in> (bp_id \<circ> lr_payment) ` set (map snd (pp_results s))"
    unfolding new by (meson last_in_set)
  from some [OF this] obtain n d lr where lr: "((n, d), lr) \<in> set (pp_results s)"
    and st: "st_bank_payments st i = Some (lr_payment lr)" by auto
  have "st_bank_payments st j = None" if "j \<noteq> i" for j
    using other [of j] new [of j] ids assms(5) that by auto
  with st have "st_bank_payments st = [i \<mapsto> lr_payment lr]" by (auto simp: fun_eq_iff)
  moreover from pass_result_from [OF reach fin lr] pass_results(2) [OF reach fin lr]
  have "n < length (concat dss)" and
    "bp_outcome (lr_payment lr) = fst (liquidate_pipeline D (worker_of (dk_config dk)) (pw_job pw n) (concat dss ! n))"
    by (auto simp: liquidate_one_def liquidation_record_Some split: prod.splits)
  ultimately show thesis by (rule that)
qed

lemma mock_pass:
  assumes "\<And>c. chain_run rat_decimals
      \<lparr>cc_config = config, cc_state = st, cc_explorer = mock_explorer m, cc_chain = c\<rparr>
      (sending (pw_scan pw c)) = Some (res c, dss c)"
  shows "discover rat_decimals (test_pass config st m) (pw\<lparr>pw_job := jobs\<rparr>) chain_iter =
    Some (map (\<lambda>c. (c, res c)) chain_iter, concat (map dss chain_iter))"
  by (rule discover_uniform [where ex = "mock_explorer m"])
    (simp_all add: test_pass_def mock_explorers_def chain_check_of_def assms)

section \<open>The deposits of the tests\<close>

text \<open>
  The explorer that every pass test builds on: the given receives, nothing failing, no partial
  scan. A receive's \<open>fetched_at\<close> is \<open>now\<close> less the given age.
\<close>

definition one_receive :: "string \<Rightarrow> rat \<Rightarrow> datetime \<Rightarrow> rat usdc_receive" where
  "one_receive h amount fetched_at =
     \<lparr>ur_tx_hash = h, ur_amount = amount, ur_block_number = 100, ur_fetched_at = fetched_at\<rparr>"

definition explorer_of :: "rat usdc_receive list \<Rightarrow> u64 \<Rightarrow> rat mock_block_explorer" where
  "explorer_of receives height =
     \<lparr>me_receives = receives, me_block_height = height, me_fail_block_height = False,
      me_fail_receives = False, me_partial_scan_through = None\<rparr>"

definition sold_coinbase :: "string \<Rightarrow> rat \<Rightarrow> rat \<Rightarrow> string \<Rightarrow> datetime \<Rightarrow> rat mock_coinbase" where
  "sold_coinbase order sold received transfer now = mock_coinbase_new
     \<lparr>mk_sell_result := Some \<lparr>sr_order_id = order, sr_usdc_sold = sold, sr_usd_received = received,
        sr_executed_at = now\<rparr>,
      mk_withdrawal_result := Some \<lparr>wr_withdrawal_transfer_id = transfer, wr_usd_amount = received,
        wr_initiated_at = now\<rparr>\<rparr>"

lemma sold_coinbase_pipeline:
  assumes "\<not> cw_max_auto_amount cw < ed_usdc_amount d"
  shows "is_initiated (fst (liquidate_pipeline rat_decimals cw (mock_job_world (sold_coinbase order sold received transfer now)) d))"
  using assms by (simp add: liquidate_pipeline_def sold_coinbase_def mock_simps)

text \<open>The deposit a chain check makes of the receive of a mock.\<close>

definition made_deposit :: "rat pass_world \<Rightarrow> rat usdc_receive \<Rightarrow> chain \<Rightarrow> rat eligible_deposit" where
  "made_deposit pw r c =
     \<lparr>ed_deposit_address = ''0xDeposit'', ed_chain = c, ed_tx_hash = ur_tx_hash r, ed_usdc_amount = ur_amount r,
      ed_payment_method_id = ''pm-default-123'', ed_deposit_timestamp = ur_fetched_at r,
      ed_processed_at = sw_processed_at (pw_scan pw c) 0 0\<rparr>"

text \<open>Every clock of the pass stamps deposits on one date.\<close>

definition one_day :: "(datetime \<Rightarrow> string) \<Rightarrow> rat pass_world \<Rightarrow> bool" where
  "one_day ymd pw \<longleftrightarrow> (\<forall>c. ymd (sw_processed_at (pw_scan pw c) 0 0) = ymd (sw_processed_at (pw_scan pw Base) 0 0))"

lemma made_deposit_id:
  assumes "one_day ymd pw" and "is_ascii (ur_tx_hash r)"
  shows "audit_id ymd (made_deposit pw r c) = audit_id ymd (made_deposit pw r Base)"
  using assms unfolding one_day_def
  by (simp add: audit_id_def made_deposit_def make_id_ascii)

text \<open>A pass in which every chain sends the one receive of its mock.\<close>

lemma pass_sending_one:
  assumes disc: "discover rat_decimals (test_pass config st0 m) (pw\<lparr>pw_job := \<lambda>_. mock_job_world coinbase\<rparr>) chain_iter =
      Some (rs, map (\<lambda>c. [made_deposit pw r c]) chain_iter)"
    and "st_bank_payments st0 = Map.empty" and day: "one_day ymd pw" and ascii: "is_ascii (ur_tx_hash r)"
    and run: "deposit_check_run rat_decimals ymd (test_pass config st0 m)
      (pw\<lparr>pw_job := \<lambda>_. mock_job_world coinbase\<rparr>) st errs calls"
  obtains i p c where "st_bank_payments st = [i \<mapsto> p]" and "ur_tx_hash r \<in> st_processed_tx_hashes st"
    and "bp_outcome p = fst (liquidate_pipeline rat_decimals (worker_of config) (mock_job_world coinbase) (made_deposit pw r c))"
proof -
  let ?dss = "map (\<lambda>c. [made_deposit pw r c]) chain_iter"
  have concat: "concat ?dss = map (made_deposit pw r) chain_iter" by (induction chain_iter) simp_all
  obtain i where i: "audit_id ymd (made_deposit pw r Base) = Some i"
    using ascii by (simp add: audit_id_def made_deposit_def make_id_ascii)
  have ids: "\<forall>d\<in>set (concat ?dss). audit_id ymd d = Some i"
    unfolding concat using made_deposit_id [OF day ascii] i by auto
  have ne: "concat ?dss \<noteq> []" unfolding concat by (simp add: chain_iter_def)
  have empty: "st_bank_payments (dk_state (test_pass config st0 m)) = Map.empty"
    using assms(2) by (simp add: test_pass_def)
  obtain p n where p: "st_bank_payments st = [i \<mapsto> p]" and n: "n < length (concat ?dss)"
    and out: "bp_outcome p = fst (liquidate_pipeline rat_decimals
        (worker_of (dk_config (test_pass config st0 m)))
        (pw_job (pw\<lparr>pw_job := \<lambda>_. mock_job_world coinbase\<rparr>) n) (concat ?dss ! n))"
    by (rule pass_one_id [OF run disc ne ids empty])
  have "concat ?dss ! n = made_deposit pw r (chain_iter ! n)" using n unfolding concat by simp
  with out have "bp_outcome p = fst (liquidate_pipeline rat_decimals (worker_of config) (mock_job_world coinbase)
      (made_deposit pw r (chain_iter ! n)))"
    by (simp add: test_pass_def)
  moreover have "ur_tx_hash r \<in> st_processed_tx_hashes st"
    unfolding pass_hashes [OF run disc] concat by (simp add: made_deposit_def image_image)
  ultimately show thesis using p by (intro that)
qed

section \<open>Pass tests\<close>

lemmas scan_defs = chain_run_def mock_get_block_height_def chain_result_sum_def since_block_of_def start_block_for_def address_scan_def
  mock_explorer_def mock_fetch_usdc_receives_def send_if_eligible_def USDC_DUST_THRESHOLD_def
  confirmation_blocks_for_def DEFAULT_CONFIRMATION_BLOCKS_def sat_sub_def sending_def explorer_of_def
  one_receive_def default_state_def

lemma test_config_simps [simp]:
  "cfg_deposit_addresses test_config = [\<lparr>dac_address = ''0xDeposit'', dac_payment_method_id = ''pm-default-123''\<rparr>]"
  "cfg_confirmation_blocks test_config = Map.empty" "cfg_start_blocks test_config c = Some 0"
  "cfg_max_auto_amount test_config = 10000"
  by (simp_all add: test_config_def)

text \<open>A confirmed, non-dust receive is sent by every chain, whatever the automatic limit.\<close>

lemma confirmed_chain_run:
  assumes "\<not> amount < 1"
  shows "chain_run rat_decimals
      \<lparr>cc_config = test_config\<lparr>cfg_max_auto_amount := limit\<rparr>, cc_state = default_state,
       cc_explorer = mock_explorer (explorer_of [one_receive h amount t] 200), cc_chain = c\<rparr>
      (sending (pw_scan pw c)) =
    Some (ChainResult [h] (Some 186) [], [[made_deposit pw (one_receive h amount t) c]])"
  using assms by (simp add: scan_defs made_deposit_def)

lemma confirmed_discover:
  assumes "\<not> amount < 1"
  shows "discover rat_decimals (test_pass (test_config\<lparr>cfg_max_auto_amount := limit\<rparr>) default_state
      (explorer_of [one_receive h amount t] 200)) (pw\<lparr>pw_job := jobs\<rparr>) chain_iter =
    Some (map (\<lambda>c. (c, ChainResult [h] (Some 186) [])) chain_iter,
      map (\<lambda>c. [made_deposit pw (one_receive h amount t) c]) chain_iter)"
proof -
  have "concat (map (\<lambda>c. [[f c]]) cs) = map (\<lambda>c. [f c]) cs" for f :: "chain \<Rightarrow> rat eligible_deposit" and cs
    by (induction cs) simp_all
  then show ?thesis
    using mock_pass [where res = "\<lambda>_. ChainResult [h] (Some 186) []"
        and dss = "\<lambda>c. [[made_deposit pw (one_receive h amount t) c]]", OF confirmed_chain_run [OF assms], of limit jobs]
    by simp
qed

text \<open>\<open>assert!(errs.is_empty()); assert_eq!(state.bank_payments.len(), 1); ...\<close>\<close>

definition deposit_check_processes_eligible_receive ::
  "(datetime \<Rightarrow> string) \<Rightarrow> rat pass_world \<Rightarrow> datetime \<Rightarrow> bool" where
  "deposit_check_processes_eligible_receive ymd pw now \<longleftrightarrow>
     pass_test ymd pw test_config default_state
       (explorer_of [one_receive ''0xabc12345'' 2400 (now - duration_hours 1)] 200)
       (sold_coinbase ''order-1'' 2400 (4799 / 2) ''wd-1'' now)
       (\<lambda>st errs notifier. errs = [] \<and> card (dom (st_bank_payments st)) = 1 \<and>
          ''0xabc12345'' \<in> st_processed_tx_hashes st \<and>
          (\<forall>p\<in>ran (st_bank_payments st). is_initiated (bp_outcome p)))"

lemma pass_errors:
  assumes "deposit_check_run D ymd dk pw st errs calls" and "discover D dk pw chain_iter = Some (rs, dss)"
  shows "errs = concat (map (cr_errors \<circ> snd) rs)"
  using assms(1) by (rule pass_final) (use assms(2) in simp)

lemma no_errors [simp]: "concat (map (cr_errors \<circ> snd) (map (\<lambda>c. (c, ChainResult hs f [])) cs)) = []"
  by simp

lemma deposit_check_processes_eligible_receive_passes:
  assumes "one_day ymd pw"
  shows "deposit_check_processes_eligible_receive ymd pw now"
proof -
  let ?r = "one_receive ''0xabc12345'' 2400 (now - duration_hours 1)"
  let ?cb = "sold_coinbase ''order-1'' 2400 (4799 / 2) ''wd-1'' now"
  let ?dk = "test_pass test_config default_state (explorer_of [?r] 200)"
  let ?pw = "pw\<lparr>pw_job := \<lambda>_. mock_job_world ?cb\<rparr>"
  have limit: "test_config\<lparr>cfg_max_auto_amount := 10000\<rparr> = test_config" by (simp add: test_config_def)
  have disc: "discover rat_decimals ?dk ?pw chain_iter =
      Some (map (\<lambda>c. (c, ChainResult [''0xabc12345''] (Some 186) [])) chain_iter,
        map (\<lambda>c. [made_deposit pw ?r c]) chain_iter)"
    using confirmed_discover [of 2400 10000] by (simp add: limit)
  have ascii: "is_ascii (ur_tx_hash ?r)" by (simp add: one_receive_def is_ascii_def)
  have ex: "\<exists>st errs calls. deposit_check_run rat_decimals ymd ?dk ?pw st errs calls"
    by (rule pass_exists [OF disc]) (simp add: made_deposit_def one_receive_def is_ascii_def)
  have "errs = [] \<and> card (dom (st_bank_payments st)) = 1 \<and> ''0xabc12345'' \<in> st_processed_tx_hashes st \<and>
      (\<forall>p\<in>ran (st_bank_payments st). is_initiated (bp_outcome p))"
    if run: "deposit_check_run rat_decimals ymd ?dk ?pw st errs calls" for st errs calls
  proof -
    obtain i p c where p: "st_bank_payments st = [i \<mapsto> p]" and h: "ur_tx_hash ?r \<in> st_processed_tx_hashes st"
      and out: "bp_outcome p = fst (liquidate_pipeline rat_decimals (worker_of test_config) (mock_job_world ?cb)
        (made_deposit pw ?r c))"
      by (rule pass_sending_one [OF disc _ assms ascii run]) (simp add: default_state_def)
    have "is_initiated (bp_outcome p)"
      unfolding out by (rule sold_coinbase_pipeline) (simp add: worker_of_def made_deposit_def one_receive_def)
    with p h pass_errors [OF run disc] show ?thesis by (simp add: one_receive_def)
  qed
  with ex show ?thesis unfolding deposit_check_processes_eligible_receive_def pass_test_def Let_def by blast
qed

text \<open>The frontiers of a pass.\<close>

lemma pass_seen:
  assumes run: "deposit_check_run rat_decimals ymd (test_pass config st0 m) (pw\<lparr>pw_job := jobs\<rparr>) st errs calls"
    and disc: "discover rat_decimals (test_pass config st0 m) (pw\<lparr>pw_job := jobs\<rparr>) chain_iter = Some (rs, dss)"
  shows "st_last_seen_block st c =
      (case Option.bind (map_of rs c) latest_seen_block of
         Some block \<Rightarrow> Some \<lparr>lsb_block_number = block, lsb_updated_at = pw_merged_at pw c\<rparr>
       | None \<Rightarrow> st_last_seen_block st0 c)"
  using run
proof (rule pass_final)
  have st0: "dk_state (test_pass config st0 m) = st0" and pw: "pw_merged_at (pw\<lparr>pw_job := jobs\<rparr>) = pw_merged_at pw"
    by (simp_all add: test_pass_def)
  fix rs' dss' s
  assume "discover rat_decimals (test_pass config st0 m) (pw\<lparr>pw_job := jobs\<rparr>) chain_iter = Some (rs', dss')"
    and "\<And>c. st_last_seen_block st c =
     (case Option.bind (map_of rs' c) latest_seen_block of
        Some block \<Rightarrow> Some \<lparr>lsb_block_number = block, lsb_updated_at = pw_merged_at (pw\<lparr>pw_job := jobs\<rparr>) c\<rparr>
      | None \<Rightarrow> st_last_seen_block (dk_state (test_pass config st0 m)) c)"
  then show ?thesis using disc unfolding st0 pw by simp
qed

text \<open>A pass in which no chain sends anything.\<close>

lemma pass_test_none:
  assumes disc: "\<And>jobs. discover rat_decimals (test_pass config st0 m) (pw\<lparr>pw_job := jobs\<rparr>) chain_iter =
      Some (rs, dss)" and none: "concat dss = []"
    and asserts: "\<And>st notifier. st_bank_payments st = st_bank_payments st0 \<Longrightarrow>
      st_processed_tx_hashes st = st_processed_tx_hashes st0 \<Longrightarrow>
      (\<And>c. st_last_seen_block st c =
        (case Option.bind (map_of rs c) latest_seen_block of
           Some block \<Rightarrow> Some \<lparr>lsb_block_number = block, lsb_updated_at = pw_merged_at pw c\<rparr>
         | None \<Rightarrow> st_last_seen_block st0 c)) \<Longrightarrow>
      asserts st (concat (map (cr_errors \<circ> snd) rs)) notifier"
  shows "pass_test ymd pw config st0 m coinbase asserts"
  unfolding pass_test_def Let_def
proof (intro conjI allI impI)
  let ?dk = "test_pass config st0 m" and ?pw = "pw\<lparr>pw_job := \<lambda>_. mock_job_world coinbase\<rparr>"
  show "\<exists>st errs calls. deposit_check_run rat_decimals ymd ?dk ?pw st errs calls"
    by (rule pass_exists [OF disc]) (simp only: none list.set ball_empty)
  fix st errs calls
  assume run: "deposit_check_run rat_decimals ymd ?dk ?pw st errs calls"
  have "st_bank_payments st i = st_bank_payments st0 i" for i
    using pass_untouched [OF run disc, of i] none by (simp add: test_pass_def)
  then have payments: "st_bank_payments st = st_bank_payments st0" by (rule ext)
  have hashes: "st_processed_tx_hashes st = st_processed_tx_hashes st0"
    unfolding pass_hashes [OF run disc] none by (simp add: test_pass_def)
  note seen = pass_seen [OF run disc]
  show "asserts st errs (snd (mocks_after (map snd calls) (coinbase, mock_notifier_new)))"
    unfolding pass_errors [OF run disc] by (rule asserts [OF payments hashes seen])
qed

lemma concat_no_deposits [simp]: "concat (concat (map (\<lambda>c. [[]]) cs)) = []" "concat (map (\<lambda>c. []) cs) = []"
  by (induction cs) simp_all

definition deposit_check_skips_too_recent :: "(datetime \<Rightarrow> string) \<Rightarrow> rat pass_world \<Rightarrow> datetime \<Rightarrow> bool" where
  "deposit_check_skips_too_recent ymd pw now \<longleftrightarrow>
     pass_test ymd pw test_config default_state
       (explorer_of [one_receive ''0xrecent'' 100 (now - 5 * 60 * 10 ^ 9)] 105) mock_coinbase_new
       (\<lambda>st errs notifier. errs = [] \<and> st_bank_payments st = Map.empty \<and>
          ''0xrecent'' \<notin> st_processed_tx_hashes st)"

lemma deposit_check_skips_too_recent_passes: "deposit_check_skips_too_recent ymd pw now"
  unfolding deposit_check_skips_too_recent_def
proof (rule pass_test_none)
  show "discover rat_decimals (test_pass test_config default_state
      (explorer_of [one_receive ''0xrecent'' 100 (now - 5 * 60 * 10 ^ 9)] 105)) (pw\<lparr>pw_job := jobs\<rparr>) chain_iter =
    Some (map (\<lambda>c. (c, ChainResult [] (Some 91) [])) chain_iter, concat (map (\<lambda>c. [[]]) chain_iter))" for jobs
    by (rule mock_pass) (simp add: scan_defs)
qed (simp_all add: default_state_def)

definition deposit_check_deduplicates :: "(datetime \<Rightarrow> string) \<Rightarrow> rat pass_world \<Rightarrow> datetime \<Rightarrow> bool" where
  "deposit_check_deduplicates ymd pw now \<longleftrightarrow>
     pass_test ymd pw test_config (insert_hash ''0xalready'' default_state)
       (explorer_of [one_receive ''0xalready'' 100 (now - duration_hours 1)] 200) mock_coinbase_new
       (\<lambda>st errs notifier. errs = [] \<and> st_bank_payments st = Map.empty)"

lemma deposit_check_deduplicates_passes: "deposit_check_deduplicates ymd pw now"
  unfolding deposit_check_deduplicates_def
proof (rule pass_test_none)
  show "discover rat_decimals (test_pass test_config (insert_hash ''0xalready'' default_state)
      (explorer_of [one_receive ''0xalready'' 100 (now - duration_hours 1)] 200)) (pw\<lparr>pw_job := jobs\<rparr>) chain_iter =
    Some (map (\<lambda>c. (c, ChainResult [] (Some 186) [])) chain_iter, concat (map (\<lambda>c. [[]]) chain_iter))" for jobs
    by (rule mock_pass) (simp add: scan_defs insert_hash_def)
qed (simp_all add: default_state_def insert_hash_def)

subsection \<open>Explorer failures\<close>

text \<open>Every chain was last seen at block 100.\<close>

definition seen_everywhere :: "datetime \<Rightarrow> rat persisted_state" where
  "seen_everywhere t = default_state\<lparr>st_last_seen_block :=
     (\<lambda>c. if c \<in> set chain_iter then Some \<lparr>lsb_block_number = 100, lsb_updated_at = t\<rparr> else None)\<rparr>"

definition failing_height :: "rat mock_block_explorer" where
  "failing_height =
     \<lparr>me_receives = [], me_block_height = 0, me_fail_block_height = True, me_fail_receives = False,
      me_partial_scan_through = None\<rparr>"

definition block_height_failure_suppressed_when_recent ::
  "(datetime \<Rightarrow> string) \<Rightarrow> rat pass_world \<Rightarrow> datetime \<Rightarrow> bool" where
  "block_height_failure_suppressed_when_recent ymd pw now \<longleftrightarrow>
     pass_test ymd pw test_config (seen_everywhere (now - duration_hours 1)) failing_height mock_coinbase_new
       (\<lambda>st errs notifier. errs = [])"

lemma block_height_failure_suppressed_when_recent_passes:
  assumes "\<forall>c. sw_now_height (pw_scan pw c) \<le> now + duration_hours 1"
  shows "block_height_failure_suppressed_when_recent ymd pw now"
  unfolding block_height_failure_suppressed_when_recent_def
proof (rule pass_test_none)
  show "discover rat_decimals (test_pass test_config (seen_everywhere (now - duration_hours 1)) failing_height)
      (pw\<lparr>pw_job := jobs\<rparr>) chain_iter =
    Some (map (\<lambda>c. (c, ChainResult [] None [])) chain_iter, concat (map (\<lambda>c. []) chain_iter))" for jobs
  proof (rule mock_pass)
    fix c
    have "sw_now_height (pw_scan pw c) \<le> now + duration_hours 1" using assms by blast
    then show "chain_run rat_decimals \<lparr>cc_config = test_config, cc_state = seen_everywhere (now - duration_hours 1),
        cc_explorer = mock_explorer failing_height, cc_chain = c\<rparr> (sending (pw_scan pw c)) =
      Some (ChainResult [] None [], [])"
      by (simp add: scan_defs failing_height_def seen_everywhere_def is_chain_stale_def duration_hours_def
        CHAIN_STALE_THRESHOLD_HOURS_def)
  qed
qed simp_all

definition block_height_failure_escalated_when_stale ::
  "(datetime \<Rightarrow> string) \<Rightarrow> rat pass_world \<Rightarrow> datetime \<Rightarrow> bool" where
  "block_height_failure_escalated_when_stale ymd pw now \<longleftrightarrow>
     pass_test ymd pw test_config (seen_everywhere (now - duration_hours 7)) failing_height mock_coinbase_new
       (\<lambda>st errs notifier. errs \<noteq> [] \<and> (\<exists>e\<in>set errs. str_contains e ''block height failed''))"

definition block_height_failure_escalated_when_no_previous_data ::
  "(datetime \<Rightarrow> string) \<Rightarrow> rat pass_world \<Rightarrow> bool" where
  "block_height_failure_escalated_when_no_previous_data ymd pw \<longleftrightarrow>
     pass_test ymd pw test_config default_state failing_height mock_coinbase_new (\<lambda>st errs notifier. errs \<noteq> [])"

definition height_error :: "chain \<Rightarrow> string" where
  "height_error c = chain_to_string c @ '': block height failed: '' @
     app_error_to_string (Explorer ''mock: block height failure'')"

lemma height_error_contains: "str_contains (height_error c) ''block height failed''"
proof -
  have "height_error c = (chain_to_string c @ '': '') @ ''block height failed'' @
      ('': '' @ app_error_to_string (Explorer ''mock: block height failure''))"
    by (simp add: height_error_def)
  then show ?thesis by (simp only: str_contains_middle)
qed

lemma stale_discover:
  assumes "\<And>c. is_chain_stale \<lparr>cc_config = test_config, cc_state = st0, cc_explorer = mock_explorer failing_height,
      cc_chain = c\<rparr> (sw_now_height (pw_scan pw c))"
  shows "discover rat_decimals (test_pass test_config st0 failing_height) (pw\<lparr>pw_job := jobs\<rparr>) chain_iter =
    Some (map (\<lambda>c. (c, ChainResult [] None [height_error c])) chain_iter, concat (map (\<lambda>c. []) chain_iter))"
proof (rule mock_pass)
  show "chain_run rat_decimals \<lparr>cc_config = test_config, cc_state = st0, cc_explorer = mock_explorer failing_height,
      cc_chain = c\<rparr> (sending (pw_scan pw c)) = Some (ChainResult [] None [height_error c], [])" for c
    using assms [of c]
    by (simp add: chain_run_def mock_explorer_def mock_get_block_height_def failing_height_def height_error_def
      sending_def)
qed

lemma block_height_failure_escalated_when_stale_passes:
  assumes "\<forall>c. now \<le> sw_now_height (pw_scan pw c)"
  shows "block_height_failure_escalated_when_stale ymd pw now"
  unfolding block_height_failure_escalated_when_stale_def
proof (rule pass_test_none, rule stale_discover)
  fix c
  have "now \<le> sw_now_height (pw_scan pw c)" using assms by blast
  then show "is_chain_stale \<lparr>cc_config = test_config, cc_state = seen_everywhere (now - duration_hours 7),
      cc_explorer = mock_explorer failing_height, cc_chain = c\<rparr> (sw_now_height (pw_scan pw c))"
    by (simp add: is_chain_stale_def seen_everywhere_def duration_hours_def CHAIN_STALE_THRESHOLD_HOURS_def)
qed (simp_all add: chain_iter_def height_error_contains)

lemma block_height_failure_escalated_when_no_previous_data_passes:
  "block_height_failure_escalated_when_no_previous_data ymd pw"
  unfolding block_height_failure_escalated_when_no_previous_data_def
proof (rule pass_test_none, rule stale_discover)
  show "is_chain_stale \<lparr>cc_config = test_config, cc_state = default_state,
      cc_explorer = mock_explorer failing_height, cc_chain = c\<rparr> (sw_now_height (pw_scan pw c))" for c
    by (simp add: is_chain_stale_def default_state_def)
qed (simp_all add: chain_iter_def)

lemma uniform_result [simp]: "map_of (map (\<lambda>c. (c, r)) chain_iter) c = Some r"
proof -
  have "c \<in> set cs \<Longrightarrow> map_of (map (\<lambda>c. (c, r)) cs) c = Some r" for cs by (induction cs) auto
  then show ?thesis by simp
qed

definition receives_failure_does_not_advance_frontier ::
  "(datetime \<Rightarrow> string) \<Rightarrow> rat pass_world \<Rightarrow> datetime \<Rightarrow> bool" where
  "receives_failure_does_not_advance_frontier ymd pw now \<longleftrightarrow>
     (let state = seen_everywhere (now - duration_hours 1);
          explorer = \<lparr>me_receives = [], me_block_height = 200, me_fail_block_height = False,
            me_fail_receives = True, me_partial_scan_through = None\<rparr>
      in pass_test ymd pw test_config state explorer mock_coinbase_new
           (\<lambda>st errs notifier. errs = [] \<and>
              (\<forall>c\<in>set chain_iter. case st_last_seen_block st c of
                 None \<Rightarrow> False
               | Some lsb \<Rightarrow> lsb_block_number lsb = 100 \<and>
                   Some (lsb_updated_at lsb) = map_option lsb_updated_at (st_last_seen_block state c))))"

lemma receives_failure_does_not_advance_frontier_passes:
  assumes "\<forall>c. sw_now_fetch (pw_scan pw c) 0 \<le> now + duration_hours 1"
  shows "receives_failure_does_not_advance_frontier ymd pw now"
  unfolding receives_failure_does_not_advance_frontier_def Let_def
proof (rule pass_test_none)
  let ?ex = "\<lparr>me_receives = [], me_block_height = 200, me_fail_block_height = False,
    me_fail_receives = True, me_partial_scan_through = None\<rparr>"
  show "discover rat_decimals (test_pass test_config (seen_everywhere (now - duration_hours 1)) ?ex)
      (pw\<lparr>pw_job := jobs\<rparr>) chain_iter =
    Some (map (\<lambda>c. (c, ChainResult [] None [])) chain_iter, concat (map (\<lambda>c. [[]]) chain_iter))" for jobs
  proof (rule mock_pass)
    fix c
    have "sw_now_fetch (pw_scan pw c) 0 \<le> now + duration_hours 1" using assms by blast
    then show "chain_run rat_decimals \<lparr>cc_config = test_config, cc_state = seen_everywhere (now - duration_hours 1),
        cc_explorer = mock_explorer ?ex, cc_chain = c\<rparr> (sending (pw_scan pw c)) =
      Some (ChainResult [] None [], [[]])"
      by (simp add: scan_defs seen_everywhere_def is_chain_stale_def duration_hours_def
        CHAIN_STALE_THRESHOLD_HOURS_def)
  qed
qed (simp_all add: seen_everywhere_def latest_seen_block_def)

subsection \<open>A partial scan, and the automatic limit\<close>

definition partial_receives_advances_frontier_to_scanned_point ::
  "(datetime \<Rightarrow> string) \<Rightarrow> rat pass_world \<Rightarrow> datetime \<Rightarrow> bool" where
  "partial_receives_advances_frontier_to_scanned_point ymd pw now \<longleftrightarrow>
     (let receive = \<lparr>ur_tx_hash = ''0xpartial1'', ur_amount = 500, ur_block_number = 120,
            ur_fetched_at = now - duration_hours 1\<rparr>;
          explorer = \<lparr>me_receives = [receive], me_block_height = 200, me_fail_block_height = False,
            me_fail_receives = False, me_partial_scan_through = Some 150\<rparr>
      in pass_test ymd pw test_config (seen_everywhere (now - duration_hours 1)) explorer
           (sold_coinbase ''order-p'' 500 (1999 / 4) ''wd-p'' now)
           (\<lambda>st errs notifier. errs = [] \<and> card (dom (st_bank_payments st)) = 1 \<and>
              ''0xpartial1'' \<in> st_processed_tx_hashes st \<and>
              (\<forall>c\<in>set chain_iter. map_option lsb_block_number (st_last_seen_block st c) = Some 150)))"

lemma concat_singles: "concat (concat (map (\<lambda>c. [[f c]]) cs)) = map f cs" "concat (map (\<lambda>c. [[f c]]) cs) = map (\<lambda>c. [f c]) cs"
  by (induction cs) simp_all

lemma partial_receives_advances_frontier_to_scanned_point_passes:
  assumes "one_day ymd pw"
  shows "partial_receives_advances_frontier_to_scanned_point ymd pw now"
proof -
  define r :: "rat usdc_receive" where "r = \<lparr>ur_tx_hash = ''0xpartial1'', ur_amount = 500, ur_block_number = 120,
    ur_fetched_at = now - duration_hours 1\<rparr>"
  define m where "m = \<lparr>me_receives = [r], me_block_height = 200, me_fail_block_height = False,
    me_fail_receives = False, me_partial_scan_through = Some 150\<rparr>"
  define st0 where "st0 = seen_everywhere (now - duration_hours 1)"
  let ?cb = "sold_coinbase ''order-p'' 500 (1999 / 4) ''wd-p'' now"
  let ?pw = "pw\<lparr>pw_job := \<lambda>_. mock_job_world ?cb\<rparr>"
  have disc: "discover rat_decimals (test_pass test_config st0 m) ?pw chain_iter =
      Some (map (\<lambda>c. (c, ChainResult [''0xpartial1''] (Some 150) [])) chain_iter,
        map (\<lambda>c. [made_deposit pw r c]) chain_iter)"
    by (rule mock_pass [where dss = "\<lambda>c. [[made_deposit pw r c]]", unfolded concat_singles(2)])
      (simp add: scan_defs made_deposit_def r_def m_def st0_def seen_everywhere_def)
  have ascii: "is_ascii (ur_tx_hash r)" by (simp add: r_def is_ascii_def)
  have ex: "\<exists>st errs calls. deposit_check_run rat_decimals ymd (test_pass test_config st0 m) ?pw st errs calls"
    by (rule pass_exists [OF disc]) (simp add: made_deposit_def r_def is_ascii_def)
  have "errs = [] \<and> card (dom (st_bank_payments st)) = 1 \<and> ''0xpartial1'' \<in> st_processed_tx_hashes st \<and>
      (\<forall>c\<in>set chain_iter. map_option lsb_block_number (st_last_seen_block st c) = Some 150)"
    if run: "deposit_check_run rat_decimals ymd (test_pass test_config st0 m) ?pw st errs calls" for st errs calls
  proof -
    obtain i p where p: "st_bank_payments st = [i \<mapsto> p]" and h: "ur_tx_hash r \<in> st_processed_tx_hashes st"
      by (rule pass_sending_one [OF disc _ assms ascii run]) (simp add: st0_def seen_everywhere_def default_state_def)
    with pass_errors [OF run disc] pass_seen [OF run disc] show ?thesis
      by (simp add: r_def latest_seen_block_def u64_max_def)
  qed
  with ex show ?thesis
    unfolding partial_receives_advances_frontier_to_scanned_point_def pass_test_def Let_def r_def m_def st0_def by blast
qed

definition deposit_check_threshold_creates_failed ::
  "(datetime \<Rightarrow> string) \<Rightarrow> rat pass_world \<Rightarrow> datetime \<Rightarrow> bool" where
  "deposit_check_threshold_creates_failed ymd pw now \<longleftrightarrow>
     pass_test ymd pw (test_config\<lparr>cfg_max_auto_amount := 100\<rparr>) default_state
       (explorer_of [one_receive ''0xbig'' 50000 (now - duration_hours 1)] 200) mock_coinbase_new
       (\<lambda>st errs notifier. errs = [] \<and> card (dom (st_bank_payments st)) = 1 \<and>
          ''0xbig'' \<in> st_processed_tx_hashes st \<and>
          (\<forall>p\<in>ran (st_bank_payments st). \<not> is_initiated (bp_outcome p)) \<and>
          mn_messages notifier \<noteq> [] \<and> str_contains (mn_messages notifier ! 0) ''exceeds threshold'')"

lemma above_limit_pipeline:
  assumes "cw_max_auto_amount cw < ed_usdc_amount d"
  shows "snd (liquidate_pipeline rat_decimals cw (mock_job_world m) d) = [Notify (threshold_message rat_decimals cw d)]"
    and "\<not> is_initiated (fst (liquidate_pipeline rat_decimals cw (mock_job_world m) d))"
  using assms by (simp_all add: liquidate_pipeline_def mock_job_world_def mock_notify_def)

text \<open>A pass in which every call is a notice that the limit was exceeded, and there is one.\<close>

lemma only_threshold_messages:
  assumes "\<And>a. a \<in> set acts \<longleftrightarrow> (\<exists>k<n. a = Notify (threshold_message rat_decimals cw (d k)))" and "0 < n"
  shows "mn_messages (snd (mocks_after acts (c, mock_notifier_new))) \<noteq> []"
    and "\<forall>m\<in>set (mn_messages (snd (mocks_after acts (c, mock_notifier_new)))). str_contains m ''exceeds threshold''"
proof -
  let ?get = "\<lambda>a. case a of Notify m \<Rightarrow> Some m | _ \<Rightarrow> None"
  have msgs: "mn_messages (snd (mocks_after acts (c, mock_notifier_new))) = List.map_filter ?get acts"
    by (simp add: mocks_after_messages mock_notifier_new_def)
  have set: "set (List.map_filter ?get acts) = {m. \<exists>a\<in>set acts. ?get a = Some m}"
    by (induction acts) (auto simp: map_filter_simps split: option.splits)
  have "Notify (threshold_message rat_decimals cw (d 0)) \<in> set acts" using assms by blast
  then have "threshold_message rat_decimals cw (d 0) \<in> set (List.map_filter ?get acts)"
    unfolding set by (auto intro!: bexI)
  then show "mn_messages (snd (mocks_after acts (c, mock_notifier_new))) \<noteq> []" unfolding msgs by auto
  show "\<forall>m\<in>set (mn_messages (snd (mocks_after acts (c, mock_notifier_new)))). str_contains m ''exceeds threshold''"
    unfolding msgs set using assms(1) by (auto simp: threshold_message_contains)
qed

lemma deposit_check_threshold_creates_failed_passes:
  assumes "one_day ymd pw"
  shows "deposit_check_threshold_creates_failed ymd pw now"
proof -
  define r where "r = one_receive ''0xbig'' 50000 (now - duration_hours 1)"
  define cfg where "cfg = test_config\<lparr>cfg_max_auto_amount := 100\<rparr>"
  let ?dk = "test_pass cfg default_state (explorer_of [r] 200)"
  let ?pw = "pw\<lparr>pw_job := \<lambda>_. mock_job_world mock_coinbase_new\<rparr>"
  have disc: "discover rat_decimals ?dk ?pw chain_iter =
      Some (map (\<lambda>c. (c, ChainResult [''0xbig''] (Some 186) [])) chain_iter,
        map (\<lambda>c. [made_deposit pw r c]) chain_iter)"
    unfolding r_def cfg_def by (rule confirmed_discover) simp
  have ascii: "is_ascii (ur_tx_hash r)" by (simp add: r_def one_receive_def is_ascii_def)
  have ex: "\<exists>st errs calls. deposit_check_run rat_decimals ymd ?dk ?pw st errs calls"
    by (rule pass_exists [OF disc]) (simp add: made_deposit_def r_def one_receive_def is_ascii_def)
  have above: "cw_max_auto_amount (worker_of cfg) < ed_usdc_amount (made_deposit pw r c)" for c
    by (simp add: worker_of_def made_deposit_def r_def cfg_def one_receive_def)
  note pipeline = above_limit_pipeline [OF above]
  have "errs = [] \<and> card (dom (st_bank_payments st)) = 1 \<and> ''0xbig'' \<in> st_processed_tx_hashes st \<and>
      (\<forall>p\<in>ran (st_bank_payments st). \<not> is_initiated (bp_outcome p)) \<and> mn_messages notifier \<noteq> [] \<and>
      str_contains (mn_messages notifier ! 0) ''exceeds threshold''"
    if run: "deposit_check_run rat_decimals ymd ?dk ?pw st errs calls"
      and notifier: "notifier = snd (mocks_after (map snd calls) (mock_coinbase_new, mock_notifier_new))"
    for st errs calls notifier
  proof -
    obtain i p c where p: "st_bank_payments st = [i \<mapsto> p]" and h: "ur_tx_hash r \<in> st_processed_tx_hashes st"
      and out: "bp_outcome p = fst (liquidate_pipeline rat_decimals (worker_of cfg)
        (mock_job_world mock_coinbase_new) (made_deposit pw r c))"
      by (rule pass_sending_one [OF disc _ assms ascii run]) (simp add: default_state_def)
    have concat: "concat (map (\<lambda>c. [made_deposit pw r c]) chain_iter) = map (made_deposit pw r) chain_iter"
      by (induction chain_iter) simp_all
    have calls: "a \<in> set (map snd calls) \<longleftrightarrow> (\<exists>k<length chain_iter. a =
        Notify (threshold_message rat_decimals (worker_of cfg) (made_deposit pw r (chain_iter ! k))))" for a
    proof -
      have "(k, a) \<in> set calls \<longleftrightarrow> k < length chain_iter \<and> a =
          Notify (threshold_message rat_decimals (worker_of cfg) (made_deposit pw r (chain_iter ! k)))" for k
        using pass_calls [OF run disc, of k a] unfolding concat by (auto simp: test_pass_def pipeline(1))
      moreover have "a \<in> set (map snd calls) \<longleftrightarrow> (\<exists>k. (k, a) \<in> set calls)" by force
      ultimately show ?thesis by simp
    qed
    note only_threshold_messages [OF calls]
    then have msgs: "mn_messages notifier \<noteq> []"
        "\<forall>m\<in>set (mn_messages notifier). str_contains m ''exceeds threshold''"
      unfolding notifier by (simp_all add: chain_iter_def)
    then have "str_contains (mn_messages notifier ! 0) ''exceeds threshold''" by (cases "mn_messages notifier") simp_all
    with p h pass_errors [OF run disc] out pipeline(2) msgs(1) show ?thesis by (simp add: r_def one_receive_def)
  qed
  with ex show ?thesis
    unfolding deposit_check_threshold_creates_failed_def pass_test_def Let_def r_def cfg_def by blast
qed


subsection \<open>Discovery alone\<close>

text \<open>
  \<open>ChainDepositCheck\<close> on one chain with the receiver in hand: the deposits are what
  \<open>rx.recv()\<close> gives until every sender is dropped.
\<close>

definition discovery_check :: "rat usdc_receive \<Rightarrow> rat chain_deposit_check" where
  "discovery_check receive =
     \<lparr>cc_config = test_config, cc_state = default_state,
      cc_explorer = mock_explorer (explorer_of [receive] 200), cc_chain = Base\<rparr>"

definition discovery_sends_eligible_deposits_to_channel :: "scan_world \<Rightarrow> datetime \<Rightarrow> bool" where
  "discovery_sends_eligible_deposits_to_channel w now \<longleftrightarrow>
     (case chain_run rat_decimals (discovery_check (one_receive ''0xchannel1'' 500 (now - duration_hours 1)))
         (sending w) of
        None \<Rightarrow> False
      | Some (result, sent) \<Rightarrow>
          ''0xchannel1'' \<in> set (cr_processed_tx_hashes result) \<and>
          (case concat sent of
             [deposit] \<Rightarrow> ed_tx_hash deposit = ''0xchannel1'' \<and> ed_usdc_amount deposit = 500 \<and>
               ed_chain deposit = Base
           | _ \<Rightarrow> False))"

definition discovery_filters_dust_without_sending :: "scan_world \<Rightarrow> datetime \<Rightarrow> bool" where
  "discovery_filters_dust_without_sending w now \<longleftrightarrow>
     (case chain_run rat_decimals (discovery_check (one_receive ''0xdust'' (1 / 2) (now - duration_hours 1)))
         (sending w) of
        None \<Rightarrow> False
      | Some (result, sent) \<Rightarrow> cr_processed_tx_hashes result = [] \<and> concat sent = [])"

lemma discovery_tests_pass:
  "discovery_sends_eligible_deposits_to_channel w now" "discovery_filters_dust_without_sending w now"
  by (simp_all add: discovery_sends_eligible_deposits_to_channel_def discovery_filters_dust_without_sending_def
    discovery_check_def scan_defs)

section \<open>All of them\<close>

definition worker_tests :: "(datetime \<Rightarrow> string) \<Rightarrow> datetime \<Rightarrow> bool" where
  "worker_tests ymd now \<longleftrightarrow>
     success_path ymd now \<and> sell_failure_creates_failed ymd now \<and> withdraw_failure_creates_failed ymd now \<and>
     threshold_exceeded_creates_failed ymd now \<and> empty_channel_returns_empty ymd"

definition orchestrator_tests :: "(datetime \<Rightarrow> string) \<Rightarrow> rat pass_world \<Rightarrow> datetime \<Rightarrow> bool" where
  "orchestrator_tests ymd pw now \<longleftrightarrow>
     deposit_check_processes_eligible_receive ymd pw now \<and> deposit_check_skips_too_recent ymd pw now \<and>
     deposit_check_threshold_creates_failed ymd pw now \<and> deposit_check_deduplicates ymd pw now \<and>
     block_height_failure_suppressed_when_recent ymd pw now \<and>
     block_height_failure_escalated_when_stale ymd pw now \<and>
     block_height_failure_escalated_when_no_previous_data ymd pw \<and>
     receives_failure_does_not_advance_frontier ymd pw now \<and>
     partial_receives_advances_frontier_to_scanned_point ymd pw now \<and>
     discovery_sends_eligible_deposits_to_channel (pw_scan pw Base) now \<and>
     discovery_filters_dust_without_sending (pw_scan pw Base) now"

text \<open>
  C28. The model agrees with the repository's own tests of the worker and of the pass: each of
  them, five against the worker and eleven against the orchestrator, has a run against the
  mocks, and its assertions hold on every run, in whatever order the executor polls the scans
  and the jobs. The pass may read its clocks at any time within an hour of the test's start; all
  deposits of a test are stamped on one date.
\<close>

theorem repository_tests_pass:
  assumes "one_day ymd pw"
    and "\<forall>c. now \<le> sw_now_height (pw_scan pw c) \<and> sw_now_height (pw_scan pw c) \<le> now + duration_hours 1"
    and "\<forall>c. sw_now_fetch (pw_scan pw c) 0 \<le> now + duration_hours 1"
  shows "worker_tests ymd now \<and> orchestrator_tests ymd pw now"
  unfolding worker_tests_def orchestrator_tests_def
  using assms
  by (intro conjI success_path_passes sell_failure_creates_failed_passes withdraw_failure_creates_failed_passes
      threshold_exceeded_creates_failed_passes empty_channel_returns_empty_passes
      deposit_check_processes_eligible_receive_passes deposit_check_skips_too_recent_passes
      deposit_check_threshold_creates_failed_passes deposit_check_deduplicates_passes
      block_height_failure_suppressed_when_recent_passes block_height_failure_escalated_when_stale_passes
      block_height_failure_escalated_when_no_previous_data_passes
      receives_failure_does_not_advance_frontier_passes
      partial_receives_advances_frontier_to_scanned_point_passes discovery_tests_pass) simp_all

definition sample_clocks :: "rat pass_world" where
  "sample_clocks =
     \<lparr>pw_scan = (\<lambda>_. \<lparr>sw_now_height = 7, sw_now_fetch = (\<lambda>_. 7), sw_processed_at = (\<lambda>_ _. 8), sw_send_ok = (\<lambda>_ _. True)\<rparr>),
      pw_job = (\<lambda>_. mock_job_world mock_coinbase_new), pw_merged_at = (\<lambda>_. 9)\<rparr>"

theorem repository_tests_pass_witness:
  "worker_tests (\<lambda>_. ''20260328'') 5 \<and> orchestrator_tests (\<lambda>_. ''20260328'') sample_clocks 5"
  by (rule repository_tests_pass) (simp_all add: one_day_def sample_clocks_def duration_hours_def)

end
