(* ===== verification/Tests_Auth.thy ===== *)
theory Tests_Auth
  imports Coinbase_Auth
begin

text \<open>
  The tests of \<open>src/src/coinbase/auth.rs\<close>. The key pair, the clock and the UUID are arguments;
  the crates that decode and check a token are those of the verifier.
\<close>

section \<open>The token\<close>

definition member :: "json_object \<Rightarrow> string \<Rightarrow> json_value option" where
  "member ob k = map_of ob k"

definition decoded_part :: "'k jwt_verifier \<Rightarrow> nat \<Rightarrow> string \<Rightarrow> json_object option" where
  "decoded_part V n jwt =
     (if n < length (split_dots jwt)
      then Option.bind (ve_unbase64url V (split_dots jwt ! n)) (ve_parse_json V) else None)"

definition build_jwt_produces_three_part_token :: "'k auth_lib \<Rightarrow> datetime \<Rightarrow> string \<Rightarrow> 'k \<Rightarrow> bool" where
  "build_jwt_produces_three_part_token A clock uuid key \<longleftrightarrow>
     (case build_jwt A clock uuid ''organizations/org1/apiKeys/key1'' key Get ''/v2/accounts'' of
        None \<Rightarrow> False
      | Some jwt \<Rightarrow> length (split_dots jwt) = 3)"

definition jwt_header_contains_required_fields ::
  "'k auth_lib \<Rightarrow> 'k jwt_verifier \<Rightarrow> datetime \<Rightarrow> string \<Rightarrow> 'k \<Rightarrow> bool" where
  "jwt_header_contains_required_fields A V clock uuid key \<longleftrightarrow>
     (case Option.bind (build_jwt A clock uuid ''organizations/org1/apiKeys/key1'' key Get ''/v2/accounts'')
         (decoded_part V 0) of
        None \<Rightarrow> False
      | Some header \<Rightarrow>
          member header ''alg'' = Some (JString ''ES256'') \<and> member header ''typ'' = Some (JString ''JWT'') \<and>
          member header ''kid'' = Some (JString ''organizations/org1/apiKeys/key1'') \<and>
          (case member header ''nonce'' of Some (JString nonce) \<Rightarrow> length nonce = 32 | _ \<Rightarrow> False))"

definition jwt_claims_contain_required_fields ::
  "'k auth_lib \<Rightarrow> 'k jwt_verifier \<Rightarrow> datetime \<Rightarrow> string \<Rightarrow> 'k \<Rightarrow> bool" where
  "jwt_claims_contain_required_fields A V clock uuid key \<longleftrightarrow>
     (case Option.bind (build_jwt A clock uuid ''organizations/org1/apiKeys/key1'' key Post
           ''/api/v3/brokerage/orders'') (decoded_part V 1) of
        None \<Rightarrow> False
      | Some claims \<Rightarrow>
          member claims ''sub'' = Some (JString ''organizations/org1/apiKeys/key1'') \<and>
          member claims ''iss'' = Some (JString ''cdp'') \<and>
          member claims ''uri'' = Some (JString ''POST api.coinbase.com/api/v3/brokerage/orders'') \<and>
          (case (member claims ''nbf'', member claims ''exp'') of
             (Some (JNumber nbf), Some (JNumber expiry)) \<Rightarrow> expiry - nbf = 120
           | _ \<Rightarrow> False))"

definition jwt_signature_is_valid ::
  "'k auth_lib \<Rightarrow> 'k jwt_verifier \<Rightarrow> datetime \<Rightarrow> string \<Rightarrow> 'k \<Rightarrow> bool" where
  "jwt_signature_is_valid A V clock uuid key \<longleftrightarrow>
     (case build_jwt A clock uuid ''organizations/org1/apiKeys/key1'' key Get ''/v2/accounts'' of
        None \<Rightarrow> False
      | Some jwt \<Rightarrow>
          (case split_dots jwt of
             h # c # s # _ \<Rightarrow>
               (case ve_unbase64url V s of
                  None \<Rightarrow> False
                | Some sig \<Rightarrow> ve_check V key (h @ ''.'' @ c) sig)
           | _ \<Rightarrow> False))"

lemma token_parts:
  assumes "verifier_laws A V" and "0 \<le> clock"
  obtains now jwt h c s where "current_timestamp clock = Some now"
    and "build_jwt A clock uuid name key meth path = Some jwt" and "split_dots jwt = [h, c, s]"
    and "Option.bind (ve_unbase64url V h) (ve_parse_json V) = Some (jwt_header name (remove_dashes uuid))"
    and "Option.bind (ve_unbase64url V c) (ve_parse_json V) = Some (jwt_claims name now meth path)"
    and "\<exists>sig. ve_unbase64url V s = Some sig \<and> ve_check V key (h @ ''.'' @ c) sig"
proof -
  obtain now where now: "current_timestamp clock = Some now" using assms(2) by (simp add: current_timestamp_def)
  then obtain jwt where jwt: "build_jwt A clock uuid name key meth path = Some jwt"
    by (simp add: build_jwt_def Let_def)
  from jwt_verified [OF assms(1) now jwt] that [OF now jwt] show thesis
    unfolding verify_jwt_def
    by (auto split: list.splits option.splits if_splits)
qed

lemma auth_token_tests_pass:
  assumes "verifier_laws A V" and "0 \<le> clock" and "length (remove_dashes uuid) = 32"
  shows "build_jwt_produces_three_part_token A clock uuid key"
    and "jwt_header_contains_required_fields A V clock uuid key"
    and "jwt_claims_contain_required_fields A V clock uuid key"
    and "jwt_signature_is_valid A V clock uuid key"
proof -
  note parts = token_parts [OF assms(1,2), of uuid "''organizations/org1/apiKeys/key1''" key]
  show "build_jwt_produces_three_part_token A clock uuid key"
    by (rule parts [of Get "''/v2/accounts''"]) (simp add: build_jwt_produces_three_part_token_def)
  show "jwt_header_contains_required_fields A V clock uuid key"
    by (rule parts [of Get "''/v2/accounts''"])
      (simp add: jwt_header_contains_required_fields_def decoded_part_def member_def jwt_header_def assms(3))
  show "jwt_claims_contain_required_fields A V clock uuid key"
    by (rule parts [of Post "''/api/v3/brokerage/orders''"])
      (simp add: jwt_claims_contain_required_fields_def decoded_part_def member_def jwt_claims_def)
  show "jwt_signature_is_valid A V clock uuid key"
    by (rule parts [of Get "''/v2/accounts''"]) (auto simp: jwt_signature_is_valid_def)
qed

section \<open>The key\<close>

text \<open>\<open>pem.replace('\n', "\\n")\<close>\<close>

definition escape_newlines :: "string \<Rightarrow> string" where
  "escape_newlines pem = concat (map (\<lambda>c. if c = CHR 0x0A then [CHR 0x5C, CHR ''n''] else [c]) pem)"

definition parse_pem_with_escaped_newlines :: "'k auth_lib \<Rightarrow> string \<Rightarrow> bool" where
  "parse_pem_with_escaped_newlines A pem \<longleftrightarrow>
     (case parse_pem_key A (escape_newlines pem) of Inr _ \<Rightarrow> True | Inl _ \<Rightarrow> False)"

definition invalid_pem_returns_error :: "'k auth_lib \<Rightarrow> bool" where
  "invalid_pem_returns_error A \<longleftrightarrow>
     (case parse_pem_key A ''not a valid key'' of Inr _ \<Rightarrow> False | Inl _ \<Rightarrow> True)"

lemma parse_pem_with_escaped_newlines_passes:
  assumes "CHR 0x5C \<notin> set pem" and "au_from_pkcs8_pem A pem = Inr key"
  shows "parse_pem_with_escaped_newlines A pem"
  using unescape_escaped [OF assms(1)] assms(2)
  by (simp add: parse_pem_with_escaped_newlines_def parse_pem_key_def escape_newlines_def)

lemma invalid_pem_returns_error_passes:
  assumes "au_from_pkcs8_pem A ''not a valid key'' = Inl e" and "au_from_sec1_pem A ''not a valid key'' = Inl e'"
  shows "invalid_pem_returns_error A"
  using assms by (simp add: invalid_pem_returns_error_def parse_pem_key_def)

end
