(* ===== verification/Test_Cassette.thy ===== *)
theory Test_Cassette
  imports Coinbase_Wire Sweep_Persistence
begin

text \<open>
  The cassettes of \<open>src/src/tests/cassette.rs\<close>: HTTP bodies recorded in a file on the first run
  of a test and replayed on the later ones. The recorder is a state machine over a disk, and the
  request it may make is a function of the world it changes. A request that panics gives
  \<open>None\<close>. Serde's messages for a value already in memory name no place in a text, so their
  wording is an argument of its own.
\<close>

type_synonym ('a, 'w) attempt = "'w \<Rightarrow> (string + 'a) option \<times> 'w"

section \<open>One response: \<open>replay_or_record\<close>\<close>

definition make_parent :: "path \<Rightarrow> save_faults \<Rightarrow> string + unit" where
  "make_parent p flt =
     (case (case parent p of None \<Rightarrow> None | Some _ \<Rightarrow> sf_create_dir flt) of
        Some e \<Rightarrow> Inl (''Failed to create cassette directory: '' @ io_text e)
      | None \<Rightarrow> Inr ())"

definition write_cassette :: "path \<Rightarrow> string \<Rightarrow> save_faults \<Rightarrow> disk \<Rightarrow> (string + unit) \<times> disk" where
  "write_cassette p contents flt dsk =
     (case sf_write flt of
        Some (e, None) \<Rightarrow> (Inl (''Failed to write cassette: '' @ io_text e), dsk)
      | Some (e, Some n) \<Rightarrow> (Inl (''Failed to write cassette: '' @ io_text e), dsk(p \<mapsto> take n contents))
      | None \<Rightarrow> (Inr (), dsk(p \<mapsto> contents)))"

text \<open>\<open>serde_json::from_value\<close>.\<close>

definition from_value :: "(de_error \<Rightarrow> string) \<Rightarrow> 'a de \<Rightarrow> json \<Rightarrow> string + 'a" where
  "from_value err d v = (case d v of Inl e \<Rightarrow> Inl (err e) | Inr x \<Rightarrow> Inr x)"

definition prefix_error :: "string \<Rightarrow> string + 'a \<Rightarrow> string + 'a" where
  "prefix_error msg r = (case r of Inl e \<Rightarrow> Inl (msg @ e) | Inr x \<Rightarrow> Inr x)"

definition replay_or_record ::
  "json_text \<Rightarrow> (de_error \<Rightarrow> string) \<Rightarrow> 'a de \<Rightarrow> io_error option \<Rightarrow> save_faults \<Rightarrow> path \<Rightarrow>
   (string, 'w) attempt \<Rightarrow> disk \<Rightarrow> 'w \<Rightarrow> (string + 'a) option \<times> disk \<times> 'w" where
  "replay_or_record T err d read_fault flt p fetch dsk w =
     (if dsk p \<noteq> None then
        (case read_to_string read_fault p dsk of
           Inl e \<Rightarrow> (Some (Inl (''Failed to read cassette: '' @ io_text e)), dsk, w)
         | Inr contents \<Rightarrow>
             (Some (prefix_error ''Failed to deserialize cassette: '' (from_str T d contents)), dsk, w))
      else
        (case fetch w of
           (None, w') \<Rightarrow> (None, dsk, w')
         | (Some (Inl e), w') \<Rightarrow> (Some (Inl e), dsk, w')
         | (Some (Inr raw_bytes), w') \<Rightarrow>
             (case make_parent p flt of
                Inl e \<Rightarrow> (Some (Inl e), dsk, w')
              | Inr _ \<Rightarrow>
                  (case jt_parse T raw_bytes of
                     Inl e \<Rightarrow> (Some (Inl (''Response is not valid JSON: '' @ e)), dsk, w')
                   | Inr j \<Rightarrow>
                       (case write_cassette p (jt_print_pretty T (to_value j)) flt dsk of
                          (Inl e, dsk') \<Rightarrow> (Some (Inl e), dsk', w')
                        | (Inr _, dsk') \<Rightarrow>
                            (Some (prefix_error ''Failed to deserialize response: ''
                               (from_value err d (to_value j))), dsk', w'))))))"

section \<open>A sequence of responses: \<open>Cassette\<close>\<close>

record cassette =
  ca_path :: path
  ca_responses :: "json list"
  ca_index :: nat
  ca_replaying :: bool

text \<open>\<open>None\<close> is the panic of \<open>expect\<close>. An entry of the file is a \<open>Value\<close>.\<close>

definition load_or_new :: "json_text \<Rightarrow> io_error option \<Rightarrow> path \<Rightarrow> disk \<Rightarrow> cassette option" where
  "load_or_new T read_fault p dsk =
     (if dsk p \<noteq> None then
        (case read_to_string read_fault p dsk of
           Inl e \<Rightarrow> None
         | Inr contents \<Rightarrow>
             (case from_str T (de_vec (\<lambda>j. Inr (to_value j))) contents of
                Inl e \<Rightarrow> None
              | Inr responses \<Rightarrow>
                  Some \<lparr>ca_path = p, ca_responses = responses, ca_index = 0, ca_replaying = True\<rparr>))
      else Some \<lparr>ca_path = p, ca_responses = [], ca_index = 0, ca_replaying = False\<rparr>)"

definition next_or_record ::
  "json_text \<Rightarrow> (de_error \<Rightarrow> string) \<Rightarrow> 'a de \<Rightarrow> (string, 'w) attempt \<Rightarrow> cassette \<Rightarrow> 'w \<Rightarrow>
   (string + 'a) option \<times> cassette \<times> 'w" where
  "next_or_record T err d fetch ca w =
     (if ca_replaying ca then
        (if ca_index ca < length (ca_responses ca) then
           (let value = ca_responses ca ! ca_index ca in
            (Some (prefix_error (''Failed to deserialize cassette entry '' @ show_nat (ca_index ca) @ '': '')
               (from_value err d value)), ca\<lparr>ca_index := ca_index ca + 1\<rparr>, w))
         else
           (Some (Inl (''Cassette exhausted: expected response at index '' @ show_nat (ca_index ca) @
              '' but only '' @ show_nat (length (ca_responses ca)) @ '' recorded'')), ca, w))
      else
        (case fetch w of
           (None, w') \<Rightarrow> (None, ca, w')
         | (Some (Inl e), w') \<Rightarrow> (Some (Inl e), ca, w')
         | (Some (Inr raw_bytes), w') \<Rightarrow>
             (case jt_parse T raw_bytes of
                Inl e \<Rightarrow> (Some (Inl (''Response is not valid JSON: '' @ e)), ca, w')
              | Inr j \<Rightarrow>
                  (let value = to_value j;
                       ca' = ca\<lparr>ca_responses := ca_responses ca @ [value], ca_index := ca_index ca + 1\<rparr>
                   in (Some (prefix_error ''Failed to deserialize response: '' (from_value err d value)), ca', w')))))"

definition save_cassette :: "json_text \<Rightarrow> save_faults \<Rightarrow> cassette \<Rightarrow> disk \<Rightarrow> (string + unit) \<times> disk" where
  "save_cassette T flt ca dsk =
     (if ca_replaying ca then (Inr (), dsk)
      else (case make_parent (ca_path ca) flt of
              Inl e \<Rightarrow> (Inl e, dsk)
            | Inr _ \<Rightarrow> write_cassette (ca_path ca) (jt_print_pretty T (JArr (ca_responses ca))) flt dsk))"

text \<open>A test's calls in order; it stops at the first that is not a value.\<close>

fun play ::
  "json_text \<Rightarrow> (de_error \<Rightarrow> string) \<Rightarrow> ('a de \<times> (string, 'w) attempt) list \<Rightarrow> cassette \<Rightarrow> 'w \<Rightarrow>
   'a list option \<times> cassette \<times> 'w" where
  "play T err [] ca w = (Some [], ca, w)"
| "play T err ((d, fetch) # calls) ca w =
     (case next_or_record T err d fetch ca w of
        (Some (Inr x), ca', w') \<Rightarrow>
          (case play T err calls ca' w' of (xs, ca'', w'') \<Rightarrow> (map_option ((#) x) xs, ca'', w''))
      | (_, ca', w') \<Rightarrow> (None, ca', w'))"

section \<open>Recording and replaying\<close>

lemma from_value_Inr [simp]: "from_value err d v = Inr x \<longleftrightarrow> d v = Inr x"
  by (simp add: from_value_def split: sum.split)

lemma prefix_error_Inr [simp]: "prefix_error msg r = Inr x \<longleftrightarrow> r = Inr x"
  by (simp add: prefix_error_def split: sum.split)

text \<open>What a recording has stored: for each call a value that its decoder reads as the result.\<close>

lemma record_step:
  assumes "\<not> ca_replaying ca" and "next_or_record T err d fetch ca w = (Some (Inr x), ca', w')"
  obtains v where "ca_responses ca' = ca_responses ca @ [v]" and "to_value v = v" and "d v = Inr x"
    and "ca_path ca' = ca_path ca" and "\<not> ca_replaying ca'"
  using assms
  by (auto simp: next_or_record_def Let_def split: prod.splits option.splits sum.splits)

lemma play_records:
  assumes "\<not> ca_replaying ca" and "play T err calls ca w = (Some xs, ca', w')"
  shows "\<exists>vs. ca_responses ca' = ca_responses ca @ vs \<and> ca_path ca' = ca_path ca \<and> \<not> ca_replaying ca' \<and>
    list_all2 (\<lambda>(d, v) x. d v = Inr x) (zip (map fst calls) vs) xs \<and> length vs = length calls \<and>
    (\<forall>v\<in>set vs. to_value v = v)"
  using assms
proof (induction calls arbitrary: ca w xs)
  case Nil
  then show ?case by auto
next
  case (Cons call calls)
  obtain d fetch where call: "call = (d, fetch)" by fastforce
  from Cons.prems(2) obtain x ca1 w1 ys where
    step: "next_or_record T err d fetch ca w = (Some (Inr x), ca1, w1)"
    and rest: "play T err calls ca1 w1 = (Some ys, ca', w')" and xs: "xs = x # ys"
    by (auto simp: call split: prod.splits option.splits sum.splits)
  from Cons.prems(1) step obtain v where v: "ca_responses ca1 = ca_responses ca @ [v]" "to_value v = v" "d v = Inr x"
    "ca_path ca1 = ca_path ca" "\<not> ca_replaying ca1" by (rule record_step)
  from Cons.IH [OF v(5) rest] obtain vs where "ca_responses ca' = ca_responses ca1 @ vs" "ca_path ca' = ca_path ca1"
    "\<not> ca_replaying ca'" "list_all2 (\<lambda>(d, v) x. d v = Inr x) (zip (map fst calls) vs) ys"
    "length vs = length calls" "\<forall>v\<in>set vs. to_value v = v" by blast
  with v show ?case by (intro exI [of _ "v # vs"]) (simp add: call xs)
qed

lemma play_replays:
  assumes "ca_replaying ca" and "drop (ca_index ca) (ca_responses ca) = vs" and "length vs = length calls"
    and "list_all2 (\<lambda>(d, v) x. d v = Inr x) (zip (map fst calls) vs) xs"
  shows "play T err calls ca w = (Some xs, ca\<lparr>ca_index := ca_index ca + length calls\<rparr>, w)"
  using assms
proof (induction calls arbitrary: ca vs xs)
  case Nil
  then show ?case by simp
next
  case (Cons call calls)
  obtain d fetch where call: "call = (d, fetch)" by fastforce
  from Cons.prems(3) obtain v vs' where vs: "vs = v # vs'" by (cases vs) simp_all
  with Cons.prems(4) obtain x ys where x: "d v = Inr x" and xs: "xs = x # ys"
    and ys: "list_all2 (\<lambda>(d, v) x. d v = Inr x) (zip (map fst calls) vs') ys"
    by (auto simp: call list_all2_Cons1)
  have i: "ca_index ca < length (ca_responses ca)"
    by (rule ccontr) (use Cons.prems(2) vs in simp)
  from Cons_nth_drop_Suc [OF i] Cons.prems(2) vs have v: "ca_responses ca ! ca_index ca = v"
    and tl: "drop (Suc (ca_index ca)) (ca_responses ca) = vs'" by simp_all
  have step: "next_or_record T err d fetch ca w = (Some (Inr x), ca\<lparr>ca_index := ca_index ca + 1\<rparr>, w)"
    using Cons.prems(1) i v x by (simp add: next_or_record_def Let_def)
  have "play T err calls (ca\<lparr>ca_index := ca_index ca + 1\<rparr>) w =
      (Some ys, ca\<lparr>ca_index := ca_index ca + 1\<rparr>\<lparr>ca_index := ca_index ca + 1 + length calls\<rparr>, w)"
    using Cons.IH [of "ca\<lparr>ca_index := ca_index ca + 1\<rparr>" vs' ys] Cons.prems(1,3) tl ys vs by simp
  with step xs show ?case by (simp add: call)
qed

lemma load_recorded:
  assumes "json_text_laws T" and "dsk p = Some (jt_print_pretty T (JArr vs))" and "\<forall>v\<in>set vs. to_value v = v"
  shows "load_or_new T None p dsk = Some \<lparr>ca_path = p, ca_responses = vs, ca_index = 0, ca_replaying = True\<rparr>"
proof -
  have "collect_res (\<lambda>j. Inr (to_value j)) vs = (Inr (map to_value vs) :: de_error + json list)"
    by (rule collect_res_all_Inr) simp
  moreover have "map to_value vs = vs" using assms(3) by (simp add: map_idI)
  ultimately show ?thesis
    using assms(1,2) by (simp add: load_or_new_def read_to_string_def from_str_def json_text_laws_def)
qed

section \<open>Properties\<close>

text \<open>
  C29. A cassette replays what it recorded: when a test's calls all succeeded against the network and
  the cassette was saved, every later run of the same calls gives the same values in the same
  order, whatever the requests would answer now, without making one of them and without touching
  the file; one call more than was recorded is an error, not a request.
\<close>

theorem cassette_replays_recording:
  assumes "json_text_laws T" and "dsk p = None" and "load_or_new T None p dsk = Some ca"
    and "play T err calls ca w = (Some xs, ca', w')" and "save_cassette T flt ca' dsk = (Inr (), dsk')"
    and "map fst later = map fst calls"
  shows "\<exists>ca2. load_or_new T None p dsk' = Some ca2 \<and>
    play T err later ca2 v = (Some xs, ca2\<lparr>ca_index := length calls\<rparr>, v) \<and>
    save_cassette T flt' (ca2\<lparr>ca_index := length calls\<rparr>) dsk' = (Inr (), dsk') \<and>
    (\<exists>e. next_or_record T err d fetch (ca2\<lparr>ca_index := length calls\<rparr>) v =
       (Some (Inl e), ca2\<lparr>ca_index := length calls\<rparr>, v))"
proof -
  from assms(2,3) have ca: "\<not> ca_replaying ca" "ca_responses ca = []" "ca_path ca = p"
    by (auto simp: load_or_new_def)
  from play_records [OF ca(1) assms(4)] ca obtain vs where vs: "ca_responses ca' = vs" "ca_path ca' = p"
    "\<not> ca_replaying ca'" "list_all2 (\<lambda>(d, v) x. d v = Inr x) (zip (map fst calls) vs) xs"
    "length vs = length calls" "\<forall>v\<in>set vs. to_value v = v" by auto
  from assms(5) vs(1-3) have "dsk' p = Some (jt_print_pretty T (JArr vs))"
    by (auto simp: save_cassette_def write_cassette_def split: sum.splits option.splits)
  from load_recorded [where dsk = dsk' and p = p, OF assms(1) this vs(6)]
  have load: "load_or_new T None p dsk' =
      Some \<lparr>ca_path = p, ca_responses = vs, ca_index = 0, ca_replaying = True\<rparr>" .
  let ?ca2 = "\<lparr>ca_path = p, ca_responses = vs, ca_index = 0, ca_replaying = True\<rparr>"
  have len: "length later = length calls" using assms(6) by (metis length_map)
  have "play T err later ?ca2 v = (Some xs, ?ca2\<lparr>ca_index := length calls\<rparr>, v)"
    using play_replays [of ?ca2 vs later xs T err v] vs(4,5) len assms(6) by simp
  with load vs(5) show ?thesis
    by (intro exI [of _ ?ca2]) (simp add: save_cassette_def next_or_record_def)
qed

text \<open>Two bodies recorded from requests that a later run could not make.\<close>

definition sample_calls :: "(string de \<times> (string, nat) attempt) list" where
  "sample_calls = [(de_string, \<lambda>n. (Some (Inr (enc (JStr ''quote''))), n + 1)),
                   (de_string, \<lambda>n. (Some (Inr (enc (JStr ''commit''))), n + 1))]"

theorem cassette_replays_recording_witness:
  "\<exists>dsk' ca2 ca3. dsk' ''a.json'' \<noteq> None \<and> load_or_new sample_text None ''a.json'' dsk' = Some ca2 \<and>
     play sample_text (\<lambda>_. []) (map (\<lambda>(d, _). (d, \<lambda>n. (None, n + 1))) sample_calls) ca2 (7 :: nat) =
       (Some [''quote'', ''commit''], ca3, 7)"
proof -
  let ?ca = "\<lparr>ca_path = ''a.json'', ca_responses = [], ca_index = 0, ca_replaying = False\<rparr>"
  let ?ca' = "\<lparr>ca_path = ''a.json'', ca_responses = [JStr ''quote'', JStr ''commit''], ca_index = 2, ca_replaying = False\<rparr>"
  let ?dsk' = "[''a.json'' \<mapsto> jt_print_pretty sample_text (JArr [JStr ''quote'', JStr ''commit''])]"
  let ?later = "map (\<lambda>(d, _). (d, \<lambda>n :: nat. (None :: (string + string) option, n + 1))) sample_calls"
  have load: "load_or_new sample_text None ''a.json'' Map.empty = Some ?ca" by (simp add: load_or_new_def)
  have play: "play sample_text (\<lambda>_. []) sample_calls ?ca (0 :: nat) = (Some [''quote'', ''commit''], ?ca', 2)"
    by (simp add: sample_calls_def next_or_record_def Let_def sample_parse_enc from_value_def prefix_error_def
        del: enc.simps)
  have save: "save_cassette sample_text no_faults ?ca' Map.empty = (Inr (), ?dsk')"
    by (simp add: save_cassette_def make_parent_def write_cassette_def no_faults_def split: option.split)
  have later: "map fst ?later = map fst sample_calls" by (simp add: sample_calls_def)
  obtain ca2 where "load_or_new sample_text None ''a.json'' ?dsk' = Some ca2"
    and "play sample_text (\<lambda>_. []) ?later ca2 7 =
      (Some [''quote'', ''commit''], ca2\<lparr>ca_index := length sample_calls\<rparr>, 7)"
    using cassette_replays_recording [OF sample_text_laws _ load play save later] by blast
  then show ?thesis by (intro exI conjI) simp_all
qed

text \<open>
  The first call of \<open>replay_or_record\<close> decides: once it has put a response on disk, a later call
  gives the same value, or no value either, without a request and without touching the file. A
  response of the wrong shape is kept, so the test fails until the file is deleted.
\<close>

theorem first_recording_decides:
  assumes "json_text_laws T" and "dsk p = None" and "sf_write flt = None"
    and "replay_or_record T err d read_fault flt p fetch dsk w = (Some r, dsk', w')" and "dsk' p \<noteq> None"
  shows "\<exists>r'. replay_or_record T err d None flt' p fetch' dsk' v = (Some r', dsk', v) \<and>
    (\<forall>x. r' = Inr x \<longleftrightarrow> r = Inr x)"
proof -
  from assms(2-5) obtain j where r: "r = prefix_error ''Failed to deserialize response: '' (from_value err d (to_value j))"
    and "dsk' p = Some (jt_print_pretty T (to_value j))"
    by (auto simp: replay_or_record_def write_cassette_def split: prod.splits option.splits sum.splits)
  then have "replay_or_record T err d None flt' p fetch' dsk' v =
      (Some (prefix_error ''Failed to deserialize cassette: '' (from_str T d (jt_print_pretty T (to_value j)))), dsk', v)"
    by (simp add: replay_or_record_def read_to_string_def)
  moreover have "from_str T d (jt_print_pretty T (to_value j)) = Inr x \<longleftrightarrow> d (to_value j) = Inr x" for x
    using assms(1) by (simp add: from_str_Inr json_text_laws_def)
  ultimately show ?thesis by (simp add: r)
qed

end
