(* ===== verification/Tests_Cassette.thy ===== *)
theory Tests_Cassette
  imports Test_Cassette Sweep_Config
begin

text \<open>
  The smoke tests of \<open>src/src/coinbase/mod.rs\<close>, with the test-only \<open>load_test_config\<close>,
  \<open>get_raw\<close> and \<open>post_raw\<close>, and the cassettes committed under \<open>src/src/tests/fixtures\<close>. A
  smoke test gives whether it passed, the disk, and the requests it sent. With the committed
  cassettes it sends none.
\<close>

section \<open>Set-up of a smoke test\<close>

text \<open>\<open>None\<close> is a panic: no \<open>HOME\<close>, no manifest directory, or a file that does not load.\<close>

definition load_test_config ::
  "'d config_env \<Rightarrow> (path \<Rightarrow> bool) \<Rightarrow> string option \<Rightarrow> 'd crypto_sweep_config option" where
  "load_test_config env exists manifest_dir =
     (case default_config_path env of
        None \<Rightarrow> None
      | Some prod_path \<Rightarrow>
          (if exists prod_path then (case load_config env prod_path of Inl _ \<Rightarrow> None | Inr config \<Rightarrow> Some config)
           else
             (case manifest_dir of
                None \<Rightarrow> None
              | Some dir \<Rightarrow>
                  (case load_config env (ce_join env dir ''config.sample.toml'') of
                     Inl _ \<Rightarrow> None
                   | Inr config \<Rightarrow> Some config))))"

definition get_raw ::
  "('k, 'd) coinbase_lib \<Rightarrow> coinbase_world \<Rightarrow> 'k live_coinbase_client \<Rightarrow> string \<Rightarrow> string call" where
  "get_raw L W c path = send_request L W c Get path None"

definition post_raw ::
  "('k, 'd) coinbase_lib \<Rightarrow> coinbase_world \<Rightarrow> 'k live_coinbase_client \<Rightarrow> string \<Rightarrow> string + string \<Rightarrow> string call" where
  "post_raw L W c path body =
     (case body of
        Inl e \<Rightarrow> throw (Coinbase (''Failed to serialize request: '' @ e))
      | Inr json_body \<Rightarrow> send_request L W c Post path (Some json_body))"

text \<open>\<open>.await.map_err(|e| format!("...{e}"))\<close>\<close>

definition attempt :: "string \<Rightarrow> string call \<Rightarrow> (string, trace) attempt" where
  "attempt msg call tr =
     (case call tr of
        (Inl Panic, tr') \<Rightarrow> (None, tr')
      | (Inl (AppErr e), tr') \<Rightarrow> (Some (Inl (msg @ app_error_to_string e)), tr')
      | (Inr raw, tr') \<Rightarrow> (Some (Inr raw), tr'))"

record ('k, 'd) smoke_env =
  sk_config :: "'d config_env"
  sk_exists :: "path \<Rightarrow> bool"
  sk_manifest_dir :: "string option"
  sk_lib :: "('k, 'd) coinbase_lib"
  sk_world :: coinbase_world
  sk_text :: json_text
  sk_err :: "de_error \<Rightarrow> string"
  sk_read_fault :: "io_error option"
  sk_faults :: save_faults

definition smoke_client ::
  "('k, 'd) smoke_env \<Rightarrow> ('d crypto_sweep_config \<times> 'k live_coinbase_client) option" where
  "smoke_client E =
     (case load_test_config (sk_config E) (sk_exists E) (sk_manifest_dir E) of
        None \<Rightarrow> None
      | Some config \<Rightarrow>
          (case live_coinbase_client_new (cl_auth (sk_lib E)) (cfg_coinbase_api_key config)
              (cfg_coinbase_api_secret config) (cfg_coinbase_usdc_account_id config)
              (cfg_coinbase_usd_account_id config) of
             Inl _ \<Rightarrow> None
           | Inr client \<Rightarrow> Some (config, client)))"

section \<open>The tests\<close>

definition api_auth_path :: path where
  "api_auth_path = ''src/tests/fixtures/coinbase_api_auth.cassette.json''"

definition convert_path :: path where
  "convert_path = ''src/tests/fixtures/coinbase_convert_usdc.cassette.json''"

definition withdraw_path :: path where
  "withdraw_path = ''src/tests/fixtures/coinbase_withdraw.cassette.json''"

definition coinbase_api_auth_smoke :: "('k, 'd) smoke_env \<Rightarrow> disk \<Rightarrow> bool \<times> disk \<times> trace" where
  "coinbase_api_auth_smoke E dsk =
     (case smoke_client E of
        None \<Rightarrow> (False, dsk, [])
      | Some (config, client) \<Rightarrow>
          (case replay_or_record (sk_text E) (sk_err E) (de_v2_list_response de_coinbase_account)
              (sk_read_fault E) (sk_faults E) api_auth_path
              (attempt ''API call failed: '' (get_raw (sk_lib E) (sk_world E) client ''/v2/accounts?limit=300''))
              dsk [] of
             (Some (Inr resp), dsk', tr) \<Rightarrow>
               (v2l_data resp \<noteq> [] \<and> list_ex (\<lambda>a. ci_code (ca_currency a) = ''USDC'') (v2l_data resp) \<and>
                list_ex (\<lambda>a. ci_code (ca_currency a) = ''USD'') (v2l_data resp), dsk', tr)
           | (_, dsk', tr) \<Rightarrow> (False, dsk', tr)))"

definition coinbase_convert_usdc_smoke :: "('k, 'd) smoke_env \<Rightarrow> disk \<Rightarrow> bool \<times> disk \<times> trace" where
  "coinbase_convert_usdc_smoke E dsk =
     (let T = sk_text E; L = sk_lib E; W = sk_world E in
      case smoke_client E of
        None \<Rightarrow> (False, dsk, [])
      | Some (config, client) \<Rightarrow>
      (case load_or_new T (sk_read_fault E) convert_path dsk of
         None \<Rightarrow> (False, dsk, [])
       | Some ca \<Rightarrow>
      (case next_or_record T (sk_err E) de_convert_quote_response
          (attempt [] (post_raw L W client quote_path (cl_quote_request_json L
             \<lparr>qr_from_account = ''USDC'', qr_to_account = ''USD'', qr_amount = ''5.00''\<rparr>))) ca [] of
         (Some (Inr quote_resp), ca, tr) \<Rightarrow>
           (case Option.bind (qs_trade quote_resp) ct_id of
              None \<Rightarrow> (False, dsk, tr)
            | Some trade_id \<Rightarrow>
           (if trade_id = [] then (False, dsk, tr) else
           (case next_or_record T (sk_err E) de_convert_trade_response
               (attempt [] (post_raw L W client (commit_path_of trade_id) (cl_commit_request_json L
                  \<lparr>cq_from_account = ''USDC'', cq_to_account = ''USD''\<rparr>))) ca tr of
              (Some (Inr commit_resp), ca, tr) \<Rightarrow>
                (case save_cassette T (sk_faults E) ca dsk of
                   (Inl e, dsk) \<Rightarrow> (False, dsk, tr)
                 | (Inr _, dsk) \<Rightarrow>
                     (case Option.bind (cs_trade commit_resp) (\<lambda>committed. amount_of (cl_dec L) (ct_total committed)) of
                        None \<Rightarrow> (False, dsk, tr)
                      | Some usd_received \<Rightarrow> (dec_lt (cl_dec L) (dec_literal (cl_dec L) 0 0) usd_received, dsk, tr)))
            | (_, _, tr) \<Rightarrow> (False, dsk, tr))))
       | (_, _, tr) \<Rightarrow> (False, dsk, tr))))"

definition coinbase_withdraw_smoke :: "('k, 'd) smoke_env \<Rightarrow> disk \<Rightarrow> bool \<times> disk \<times> trace" where
  "coinbase_withdraw_smoke E dsk =
     (let T = sk_text E; L = sk_lib E; W = sk_world E in
      case smoke_client E of
        None \<Rightarrow> (False, dsk, [])
      | Some (config, client) \<Rightarrow>
      (case load_or_new T (sk_read_fault E) withdraw_path dsk of
         None \<Rightarrow> (False, dsk, [])
       | Some ca \<Rightarrow>
      (let usd_account_id = (case cfg_coinbase_usd_account_id config of
             Some ident \<Rightarrow> ident | None \<Rightarrow> ''ffffffff-1111-2222-3333-444444444444'') in
      (case next_or_record T (sk_err E) (de_v2_data_response de_coinbase_account)
          (attempt [] (get_raw L W client (''/v2/accounts/'' @ usd_account_id))) ca [] of
         (Some (Inr account_resp), ca, tr) \<Rightarrow>
           (if ci_code (ca_currency (v2d_data account_resp)) \<noteq> ''USD'' then (False, dsk, tr) else
           (case next_or_record T (sk_err E) de_transfer_response
               (attempt [] (post_raw L W client (withdrawals_path_of (ca_id (v2d_data account_resp)))
                  (cl_withdrawal_request_json L \<lparr>wq_amount = ''5.00'', wq_currency = ''USD'',
                     wq_payment_method = cfg_default_payment_method_id config, wq_commit = True\<rparr>))) ca tr of
              (Some (Inr transfer_resp), ca, tr) \<Rightarrow>
                (case save_cassette T (sk_faults E) ca dsk of
                   (Inl e, dsk) \<Rightarrow> (False, dsk, tr)
                 | (Inr _, dsk) \<Rightarrow>
                     (wt_id (tr_transfer transfer_resp) \<noteq> [] \<and>
                      wt_cancellation_reason (tr_transfer transfer_resp) = None, dsk, tr))
            | (_, _, tr) \<Rightarrow> (False, dsk, tr)))
       | (_, _, tr) \<Rightarrow> (False, dsk, tr)))))"

text \<open>
  The two \<open>#[ignore]\<close>d utilities print what the account holds: the ids for the configuration,
  and the payment methods that allow withdrawals. \<open>None\<close> is a failed test.
\<close>

definition coinbase_find_account_ids :: "('k, 'd) smoke_env \<Rightarrow> (string \<times> string) option \<times> trace" where
  "coinbase_find_account_ids E =
     (case smoke_client E of
        None \<Rightarrow> (None, [])
      | Some (config, client) \<Rightarrow>
          (case find_account (sk_lib E) (sk_world E) client ''USDC'' [] of
             (Inl _, tr) \<Rightarrow> (None, tr)
           | (Inr usdc, tr) \<Rightarrow>
               (case find_account (sk_lib E) (sk_world E) client ''USD'' tr of
                  (Inl _, tr) \<Rightarrow> (None, tr)
                | (Inr usd, tr) \<Rightarrow> (Some (ca_id usdc, ca_id usd), tr))))"

definition coinbase_list_withdrawable_payment_methods ::
  "('k, 'd) smoke_env \<Rightarrow> payment_method list option \<times> trace" where
  "coinbase_list_withdrawable_payment_methods E =
     (case smoke_client E of
        None \<Rightarrow> (None, [])
      | Some (config, client) \<Rightarrow>
          (case get_raw (sk_lib E) (sk_world E) client ''/api/v3/brokerage/payment_methods'' [] of
             (Inl _, tr) \<Rightarrow> (None, tr)
           | (Inr raw, tr) \<Rightarrow>
               (case from_str (sk_text E) de_v3_payment_methods_response raw of
                  Inl _ \<Rightarrow> (None, tr)
                | Inr resp \<Rightarrow>
                    (let withdrawable = filter (\<lambda>pm. pm_allow_withdraw pm = Some True) (v3_payment_methods resp)
                     in (if withdrawable = [] then None else Some withdrawable, tr)))))"

section \<open>The committed cassettes\<close>

definition api_auth_fixture :: json where
  "api_auth_fixture =
     JObj [(''data'', JArr [JObj [(''allow_deposits'', JBool True),
           (''allow_withdrawals'', JBool True),
           (''balance'', JObj [(''amount'', JStr ''100.00''),
             (''currency'', JStr ''USDC'')]),
           (''currency'', JObj [(''code'', JStr ''USDC''),
             (''name'', JStr ''USD Coin''),
             (''type'', JStr ''crypto'')]),
           (''id'', JStr ''aaaaaaaa-bbbb-cccc-dddd-eeeeeeeeeeee''),
           (''name'', JStr ''USDC Wallet''),
           (''type'', JStr ''wallet'')], JObj [(''allow_deposits'', JBool True),
           (''allow_withdrawals'', JBool True),
           (''balance'', JObj [(''amount'', JStr ''50.00''),
             (''currency'', JStr ''USD'')]),
           (''currency'', JObj [(''code'', JStr ''USD''),
             (''name'', JStr ''US Dollar''),
             (''type'', JStr ''fiat'')]),
           (''id'', JStr ''ffffffff-1111-2222-3333-444444444444''),
           (''name'', JStr ''USD Wallet''),
           (''type'', JStr ''wallet'')]])]"

definition withdraw_fixture :: "json list" where
  "withdraw_fixture =
     [JObj [(''data'', JObj [(''allow_deposits'', JBool True),
          (''allow_withdrawals'', JBool True),
          (''balance'', JObj [(''amount'', JStr ''50.00''),
            (''currency'', JStr ''USD'')]),
          (''created_at'', JStr ''2020-01-01T00:00:00Z''),
          (''currency'', JObj [(''asset_id'', JStr []),
            (''code'', JStr ''USD''),
            (''color'', JStr ''#0066cf''),
            (''exponent'', JNum (PosInt 2)),
            (''name'', JStr ''United States Dollar''),
            (''rewards'', JNull),
            (''slug'', JStr []),
            (''type'', JStr ''fiat'')]),
          (''id'', JStr ''ffffffff-1111-2222-3333-444444444444''),
          (''name'', JStr ''USD Wallet''),
          (''portfolio_id'', JStr ''aaaaaaaa-bbbb-cccc-dddd-eeeeeeeeeeee''),
          (''primary'', JBool False),
          (''resource'', JStr ''account''),
          (''resource_path'', JStr ''/v2/accounts/ffffffff-1111-2222-3333-444444444444''),
          (''type'', JStr ''fiat''),
          (''updated_at'', JStr ''2020-01-01T00:00:00Z'')])],
      JObj [(''transfer'', JObj [(''amount'', JObj [(''currency'', JStr ''USD''),
            (''value'', JStr ''5'')]),
          (''cancellation_reason'', JNull),
          (''checkout_url'', JStr []),
          (''committed'', JBool False),
          (''created_at'', JNull),
          (''fees'', JArr []),
          (''hold_days'', JNum (PosInt 0)),
          (''id'', JStr ''wd-fake-0001-aaaa-bbbbccccdddd''),
          (''idem'', JStr ''wd-fake-0001-aaaa-bbbbccccdddd''),
          (''instant'', JBool False),
          (''nextStep'', JNull),
          (''payout_at'', JStr ''2026-03-10T00:00:00Z''),
          (''requires_completion_step'', JBool False),
          (''source'', JObj [(''ledger_account'', JObj [(''account_id'', JStr ''ffffffff-1111-2222-3333-444444444444''),
              (''account_name'', JStr []),
              (''account_uuid'', JStr []),
              (''currency'', JStr ''USD''),
              (''owner'', JObj [(''id'', JStr ''000000000000000000000000''),
                (''type'', JStr ''RETAIL''),
                (''user_uuid'', JStr []),
                (''uuid'', JStr [])])]),
            (''network'', JStr ''internal_retail''),
            (''payment_method_id'', JStr []),
            (''payment_method_type_string'', JStr []),
            (''type'', JStr ''LEDGER_ACCOUNT'')]),
          (''status'', JStr []),
          (''subtotal'', JObj [(''currency'', JStr ''USD''),
            (''value'', JStr ''5'')]),
          (''target'', JObj [(''external_payment_method'', JObj [(''payment_method_id'', JStr ''fakepmid000000000000000'')]),
            (''network'', JStr ''ach''),
            (''payment_method_id'', JStr []),
            (''payment_method_type_string'', JStr []),
            (''type'', JStr ''EXTERNAL_PAYMENT_METHOD'')]),
          (''total'', JObj [(''currency'', JStr ''USD''),
            (''value'', JStr ''5'')]),
          (''total_fee'', JObj [(''amount'', JObj [(''currency'', JStr ''USD''),
              (''value'', JStr ''0.00'')]),
            (''description'', JStr ''Total fee associated with this transaction''),
            (''title'', JStr ''Fee Total''),
            (''type'', JStr ''COINBASE'')]),
          (''transfer_settings'', JObj [(''challenge_required'', JBool False),
            (''delay_until'', JStr ''0001-01-01T00:00:00Z''),
            (''time_delay_in_hours'', JNum (PosInt 0))]),
          (''type'', JStr ''TRANSFER_TYPE_WITHDRAWAL''),
          (''updated_at'', JNull),
          (''user_entered_amount'', JObj [(''currency'', JStr ''USD''),
            (''value'', JStr ''5'')]),
          (''user_reference'', JStr ''FAKEREFERENCE''),
          (''user_warnings'', JArr [])])]]"

definition convert_trade_fixture :: "string \<Rightarrow> json" where
  "convert_trade_fixture status =
     JObj [(''trade'', JObj [(''amount'', JObj [(''currency'', JStr ''USDC''),
           (''value'', JStr ''5'')]),
         (''cancellation_reason'', JNull),
         (''exchange_rate'', JObj [(''currency'', JStr ''USDC''),
           (''value'', JStr ''1'')]),
         (''fees'', JArr [JObj [(''amount'', JObj [(''currency'', JStr ''USD''),
               (''value'', JStr ''0'')]),
             (''description'', JStr ''Fee charged by Coinbase''),
             (''label'', JStr ''Coinbase fee''),
             (''title'', JStr ''Coinbase Fee'')]]),
         (''id'', JStr ''aaaa1111-bbbb-cccc-dddd-eeeeeeee0001''),
         (''source'', JObj [(''ledger_account'', JObj [(''account_id'', JStr ''aaaaaaaa-bbbb-cccc-dddd-eeeeeeeeeeee''),
             (''currency'', JStr ''USDC''),
             (''owner'', JObj [(''id'', JStr ''fake-owner-id-000000000000''),
               (''type'', JStr ''RETAIL'')])]),
           (''network'', JStr ''internal_retail''),
           (''type'', JStr ''LEDGER_ACCOUNT'')]),
         (''source_currency'', JStr ''USDC''),
         (''source_id'', JStr ''aaaaaaaa-bbbb-cccc-dddd-eeeeeeeeeeee''),
         (''status'', JStr status),
         (''subtotal'', JObj [(''currency'', JStr ''USD''),
           (''value'', JStr ''5'')]),
         (''target'', JObj [(''ledger_account'', JObj [(''account_id'', JStr ''ffffffff-1111-2222-3333-444444444444''),
             (''currency'', JStr ''USD''),
             (''owner'', JObj [(''id'', JStr ''fake-owner-id-000000000000''),
               (''type'', JStr ''RETAIL'')])]),
           (''network'', JStr ''internal_retail''),
           (''type'', JStr ''LEDGER_ACCOUNT'')]),
         (''target_currency'', JStr ''USD''),
         (''target_id'', JStr ''fake-target-id-00000000000''),
         (''total'', JObj [(''currency'', JStr ''USD''),
           (''value'', JStr ''5'')]),
         (''total_fee'', JObj [(''amount'', JObj [(''currency'', JStr ''USD''),
             (''value'', JStr ''0'')]),
           (''title'', JStr ''Fee Total'')]),
         (''user_entered_amount'', JObj [(''currency'', JStr ''USD''),
           (''value'', JStr ''5'')])])]"

section \<open>Replaying them\<close>

lemma api_auth_decoded:
  "\<exists>resp. de_v2_list_response de_coinbase_account api_auth_fixture = Inr resp \<and> v2l_data resp \<noteq> [] \<and>
     list_ex (\<lambda>a. ci_code (ca_currency a) = ''USDC'') (v2l_data resp) \<and>
     list_ex (\<lambda>a. ci_code (ca_currency a) = ''USD'') (v2l_data resp)"
  by (simp add: api_auth_fixture_def de_v2_list_response_def de_coinbase_account_def de_currency_info_def
      de_money_amount_def struct_simps)

text \<open>The values of the files have sorted, distinct keys, as \<open>save\<close> wrote them.\<close>

lemma fixture_values:
  "to_value (convert_trade_fixture status) = convert_trade_fixture status" "map to_value withdraw_fixture = withdraw_fixture"
  unfolding convert_trade_fixture_def by code_simp+

definition recorded_trade :: "string \<Rightarrow> convert_trade" where
  "recorded_trade status =
     (let usd = (\<lambda>v. Some \<lparr>cva_value = Some v, cva_currency = Some ''USD''\<rparr>) in
      \<lparr>ct_id = Some ''aaaa1111-bbbb-cccc-dddd-eeeeeeee0001'', ct_status = Some status,
       ct_user_entered_amount = usd ''5'', ct_total = usd ''5'', ct_subtotal = usd ''5'',
       ct_total_fee = Some \<lparr>cvf_title = Some ''Fee Total'', cvf_amount = usd ''0''\<rparr>,
       ct_source_currency = Some ''USDC'', ct_target_currency = Some ''USD'',
       ct_exchange_rate = Some \<lparr>cva_value = Some ''1'', cva_currency = Some ''USDC''\<rparr>\<rparr>)"

lemma convert_decoded:
  "de_convert_quote_response (convert_trade_fixture status) = Inr \<lparr>qs_trade = Some (recorded_trade status)\<rparr>"
  "de_convert_trade_response (convert_trade_fixture status) = Inr \<lparr>cs_trade = Some (recorded_trade status)\<rparr>"
  by (simp_all add: convert_trade_fixture_def recorded_trade_def de_convert_quote_response_def
      de_convert_trade_response_def de_convert_trade_def convert_trade_fields_def de_convert_amount_def
      de_convert_fee_def struct_simps)

lemma withdraw_decoded:
  "\<exists>resp. de_v2_data_response de_coinbase_account (withdraw_fixture ! 0) = Inr resp \<and>
     ci_code (ca_currency (v2d_data resp)) = ''USD''"
  "\<exists>resp. de_transfer_response (withdraw_fixture ! 1) = Inr resp \<and>
     wt_id (tr_transfer resp) = ''wd-fake-0001-aaaa-bbbbccccdddd'' \<and> wt_cancellation_reason (tr_transfer resp) = None"
  by (simp_all add: withdraw_fixture_def de_v2_data_response_def de_coinbase_account_def de_currency_info_def
      de_money_amount_def de_transfer_response_def de_withdrawal_transfer_def withdrawal_transfer_fields_def
      de_convert_amount_def struct_simps)

lemma load_fixture:
  assumes "dsk p = Some s" and "jt_parse T s = Inr (JArr vs)" and "map to_value vs = vs"
  shows "load_or_new T None p dsk = Some \<lparr>ca_path = p, ca_responses = vs, ca_index = 0, ca_replaying = True\<rparr>"
proof -
  have "collect_res (\<lambda>j. Inr (to_value j)) vs = (Inr (map to_value vs) :: de_error + json list)"
    by (rule collect_res_all_Inr) simp
  with assms show ?thesis by (simp add: load_or_new_def read_to_string_def from_str_def)
qed

text \<open>
  With the committed cassettes on disk the smoke tests pass and send no request at all, so a test
  run sells and withdraws nothing; the files stay as they are.
\<close>

theorem smoke_tests_offline:
  assumes "smoke_client E = Some (config, client)" and "sk_read_fault E = None"
    and "dsk api_auth_path = Some s1" and "jt_parse (sk_text E) s1 = Inr api_auth_fixture"
    and "dsk convert_path = Some s2" and "jt_parse (sk_text E) s2 =
      Inr (JArr [convert_trade_fixture ''TRADE_STATUS_UNSPECIFIED'', convert_trade_fixture ''TRADE_STATUS_CREATED''])"
    and "dsk withdraw_path = Some s3" and "jt_parse (sk_text E) s3 = Inr (JArr withdraw_fixture)"
    and "dec_from_str (cl_dec (sk_lib E)) ''5'' = Some five"
    and "dec_lt (cl_dec (sk_lib E)) (dec_literal (cl_dec (sk_lib E)) 0 0) five"
  shows "coinbase_api_auth_smoke E dsk = (True, dsk, []) \<and> coinbase_convert_usdc_smoke E dsk = (True, dsk, []) \<and>
    coinbase_withdraw_smoke E dsk = (True, dsk, [])"
proof (intro conjI)
  show "coinbase_api_auth_smoke E dsk = (True, dsk, [])"
    using api_auth_decoded assms(1-4)
    by (auto simp: coinbase_api_auth_smoke_def replay_or_record_def read_to_string_def from_str_def prefix_error_def)
  let ?vs = "[convert_trade_fixture ''TRADE_STATUS_UNSPECIFIED'', convert_trade_fixture ''TRADE_STATUS_CREATED'']"
  have "map to_value ?vs = ?vs" by (simp add: fixture_values)
  note load = load_fixture [where vs = ?vs and dsk = dsk and p = convert_path, OF assms(5,6) this]
  have "amount_of (cl_dec (sk_lib E)) (ct_total (recorded_trade status)) = Some five" for status
    using assms(9) by (simp add: recorded_trade_def amount_of_def)
  moreover have "ct_id (recorded_trade status) = Some ''aaaa1111-bbbb-cccc-dddd-eeeeeeee0001''" for status
    by (simp add: recorded_trade_def)
  ultimately show "coinbase_convert_usdc_smoke E dsk = (True, dsk, [])"
    using assms(1,2,10) load
    by (simp add: coinbase_convert_usdc_smoke_def next_or_record_def Let_def from_value_def prefix_error_def
        convert_decoded save_cassette_def)
  note load = load_fixture [where dsk = dsk and p = withdraw_path, OF assms(7,8) fixture_values(2)]
  have "length withdraw_fixture = 2" by (simp add: withdraw_fixture_def)
  then show "coinbase_withdraw_smoke E dsk = (True, dsk, [])"
    using assms(1,2) load withdraw_decoded
    by (auto simp: coinbase_withdraw_smoke_def next_or_record_def Let_def from_value_def prefix_error_def
        save_cassette_def)
qed

end
